theory Spec2Isabelle
  imports Main
begin

section \<open>Strings of the host language\<close>

text \<open>
  A source string is a sequence of code units. The model covers the code units 0 to 255
  (ASCII and Latin-1), one \<^typ>\<open>char\<close> each; \<open>length\<close> is the source's \<open>.length\<close>.
\<close>

fun startsWith :: "string \<Rightarrow> string \<Rightarrow> bool" where
  "startsWith s [] = True"
| "startsWith [] (p # ps) = False"
| "startsWith (c # cs) (p # ps) = (c = p \<and> startsWith cs ps)"

text \<open>\<open>s.includes(needle)\<close>: the needle occurs in \<open>s\<close> as a contiguous run.\<close>

fun str_includes :: "string \<Rightarrow> string \<Rightarrow> bool" where
  "str_includes [] needle = (needle = [])"
| "str_includes (c # cs) needle = (startsWith (c # cs) needle \<or> str_includes cs needle)"

text \<open>
  White space as \<open>\s\<close> and \<open>trim()\<close> see it: tab, line feed, vertical tab, form feed,
  carriage return, space and the no-break space.
\<close>

definition is_space :: "char \<Rightarrow> bool" where
  "is_space c = (c \<in> {CHR 0x09, CHR 0x0A, CHR 0x0B, CHR 0x0C, CHR 0x0D, CHR '' '', CHR 0xA0})"

definition trim :: "string \<Rightarrow> string" where
  "trim s = rev (dropWhile is_space (rev (dropWhile is_space s)))"

text \<open>
  Case mapping on one code unit. The capitals are the ASCII ones and the Latin-1 ones
  (0xC0 to 0xDE without the multiplication sign 0xD7); each small letter lies 32 above
  its capital.
\<close>

definition capitals :: string where
  "capitals = ''ABCDEFGHIJKLMNOPQRSTUVWXYZ'' @
     [CHR 0xC0, CHR 0xC1, CHR 0xC2, CHR 0xC3, CHR 0xC4, CHR 0xC5, CHR 0xC6, CHR 0xC7, CHR
     0xC8, CHR 0xC9, CHR 0xCA, CHR 0xCB, CHR 0xCC, CHR 0xCD, CHR 0xCE, CHR 0xCF, CHR 0xD0,
     CHR 0xD1, CHR 0xD2, CHR 0xD3, CHR 0xD4, CHR 0xD5, CHR 0xD6, CHR 0xD8, CHR 0xD9, CHR
     0xDA, CHR 0xDB, CHR 0xDC, CHR 0xDD, CHR 0xDE]"

definition smalls :: string where
  "smalls = ''abcdefghijklmnopqrstuvwxyz'' @
     [CHR 0xE0, CHR 0xE1, CHR 0xE2, CHR 0xE3, CHR 0xE4, CHR 0xE5, CHR 0xE6, CHR 0xE7, CHR
     0xE8, CHR 0xE9, CHR 0xEA, CHR 0xEB, CHR 0xEC, CHR 0xED, CHR 0xEE, CHR 0xEF, CHR 0xF0,
     CHR 0xF1, CHR 0xF2, CHR 0xF3, CHR 0xF4, CHR 0xF5, CHR 0xF6, CHR 0xF8, CHR 0xF9, CHR
     0xFA, CHR 0xFB, CHR 0xFC, CHR 0xFD, CHR 0xFE]"

definition lower_char :: "char \<Rightarrow> char" where
  "lower_char c = (case map_of (zip capitals smalls) c of None \<Rightarrow> c | Some l \<Rightarrow> l)"

definition toLowerCase :: "string \<Rightarrow> string" where
  "toLowerCase s = map lower_char s"

text \<open>
  \<open>toUpperCase()\<close>: a small letter becomes its capital, and the sharp s (0xDF) becomes
  the two letters SS. The micro sign (0xB5) and the y with diaeresis (0xFF), whose capitals
  lie outside Latin-1, are kept as they are: neither result is an ASCII letter.
\<close>

definition upper_char :: "char \<Rightarrow> string" where
  "upper_char c =
     (if c = CHR 0xDF then ''SS''
      else (case map_of (zip smalls capitals) c of None \<Rightarrow> [c] | Some u \<Rightarrow> [u]))"

definition toUpperCase :: "string \<Rightarrow> string" where
  "toUpperCase s = concat (map upper_char s)"

text \<open>\<open>s.split(d)\<close> for a separator of one code unit: never an empty array.\<close>

fun js_split :: "char \<Rightarrow> string \<Rightarrow> string list" where
  "js_split d [] = [[]]"
| "js_split d (c # cs) =
     (if c = d then [] # js_split d cs
      else (case js_split d cs of [] \<Rightarrow> [[c]] | x # xs \<Rightarrow> (c # x) # xs))"

section \<open>Regular expressions\<close>

text \<open>
  The source's patterns use literals, character classes, sequence, alternation, the greedy
  \<open>?\<close>, the quantifiers \<open>*\<close>, \<open>+\<close> and \<open>*?\<close> on character classes, capture groups and \<open>$\<close>.
  The matcher is the backtracking one of the host language, in continuation-passing style:
  \<open>rx_m r k s caps\<close> tries \<open>r\<close> at the head of \<open>s\<close>, in the priority order of the
  language, and hands what is left to \<open>k\<close>; the first alternative on which \<open>k\<close> succeeds
  is the result.
\<close>

type_synonym caps = "nat \<rightharpoonup> string"

datatype rx =
    Ch char                   \<comment> \<open>a literal code unit\<close>
  | Cls "char \<Rightarrow> bool"        \<comment> \<open>a character class\<close>
  | Seq rx rx
  | Alt rx rx
  | Opt rx                    \<comment> \<open>\<open>r?\<close>, greedy\<close>
  | Star "char \<Rightarrow> bool"       \<comment> \<open>\<open>C*\<close>, greedy\<close>
  | Plus "char \<Rightarrow> bool"       \<comment> \<open>\<open>C+\<close>, greedy\<close>
  | LazyStar "char \<Rightarrow> bool"   \<comment> \<open>\<open>C*?\<close>\<close>
  | Grp nat rx                \<comment> \<open>capture group number \<open>n\<close>\<close>
  | Eoi                       \<comment> \<open>\<open>$\<close> without the multiline flag\<close>
  | Eps                       \<comment> \<open>the empty pattern\<close>

fun star_greedy :: "(char \<Rightarrow> bool) \<Rightarrow> (string \<Rightarrow> 'a option) \<Rightarrow> string \<Rightarrow> 'a option" where
  "star_greedy p k [] = k []"
| "star_greedy p k (c # cs) =
     (if p c then (case star_greedy p k cs of Some r \<Rightarrow> Some r | None \<Rightarrow> k (c # cs))
      else k (c # cs))"

fun star_lazy :: "(char \<Rightarrow> bool) \<Rightarrow> (string \<Rightarrow> 'a option) \<Rightarrow> string \<Rightarrow> 'a option" where
  "star_lazy p k [] = k []"
| "star_lazy p k (c # cs) =
     (case k (c # cs) of Some r \<Rightarrow> Some r
      | None \<Rightarrow> if p c then star_lazy p k cs else None)"

primrec rx_m :: "rx \<Rightarrow> (string \<Rightarrow> caps \<Rightarrow> 'a option) \<Rightarrow> string \<Rightarrow> caps \<Rightarrow> 'a option" where
  "rx_m (Ch a) k s caps = (case s of [] \<Rightarrow> None | c # cs \<Rightarrow> if c = a then k cs caps else None)"
| "rx_m (Cls p) k s caps = (case s of [] \<Rightarrow> None | c # cs \<Rightarrow> if p c then k cs caps else None)"
| "rx_m (Seq r1 r2) k s caps = rx_m r1 (rx_m r2 k) s caps"
| "rx_m (Alt r1 r2) k s caps =
     (case rx_m r1 k s caps of Some r \<Rightarrow> Some r | None \<Rightarrow> rx_m r2 k s caps)"
| "rx_m (Opt r) k s caps =
     (case rx_m r k s caps of Some x \<Rightarrow> Some x | None \<Rightarrow> k s caps)"
| "rx_m (Star p) k s caps = star_greedy p (\<lambda>s'. k s' caps) s"
| "rx_m (Plus p) k s caps =
     (case s of [] \<Rightarrow> None
      | c # cs \<Rightarrow> if p c then star_greedy p (\<lambda>s'. k s' caps) cs else None)"
| "rx_m (LazyStar p) k s caps = star_lazy p (\<lambda>s'. k s' caps) s"
| "rx_m (Grp n r) k s caps =
     rx_m r (\<lambda>s' caps'. k s' (caps'(n \<mapsto> take (length s - length s') s))) s caps"
| "rx_m Eoi k s caps = (if s = [] then k s caps else None)"
| "rx_m Eps k s caps = k s caps"

text \<open>A sequence of patterns, written as a list.\<close>

fun seqs :: "rx list \<Rightarrow> rx" where
  "seqs [] = Eps"
| "seqs (r # rs) = Seq r (seqs rs)"

text \<open>A literal string, and a literal under the \<open>i\<close> flag (both cases of each ASCII letter).\<close>

definition lit :: "string \<Rightarrow> rx" where
  "lit s = seqs (map Ch s)"

definition ChI :: "char \<Rightarrow> rx" where
  "ChI a = Cls (\<lambda>c. lower_char c = lower_char a)"

definition litI :: "string \<Rightarrow> rx" where
  "litI s = seqs (map ChI s)"

text \<open>One attempt at the head of \<open>s\<close>: the captures and the text after the match.\<close>

definition rx_match_at :: "rx \<Rightarrow> string \<Rightarrow> (caps \<times> string) option" where
  "rx_match_at r s = rx_m r (\<lambda>s' caps. Some (caps, s')) s Map.empty"

text \<open>
  \<open>rx_search\<close> is one \<open>exec\<close> of a pattern without the global flag (as \<open>match\<close> and
  \<open>replace\<close> run it): the leftmost position where an attempt succeeds, with the text before
  the match, the captures and the text after it.
\<close>

fun rx_search :: "rx \<Rightarrow> string \<Rightarrow> (string \<times> caps \<times> string) option" where
  "rx_search r [] =
     (case rx_match_at r [] of None \<Rightarrow> None | Some (caps, rest) \<Rightarrow> Some ([], caps, rest))"
| "rx_search r (c # cs) =
     (case rx_match_at r (c # cs) of
        Some (caps, rest) \<Rightarrow> Some ([], caps, rest)
      | None \<Rightarrow> (case rx_search r cs of None \<Rightarrow> None
                 | Some (pre, caps, rest) \<Rightarrow> Some (c # pre, caps, rest)))"

text \<open>
  \<open>rx_exec_all\<close> is the loop \<open>while ((match = re.exec(text)) !== null)\<close> of a pattern with
  the global flag: each search starts where the last match ended. The first argument counts
  the code units of the last match still to be skipped. Every pattern it is used with
  starts with a literal, so no match is empty.
\<close>

fun rx_exec_from :: "rx \<Rightarrow> nat \<Rightarrow> string \<Rightarrow> caps list" where
  "rx_exec_from r n [] = []"
| "rx_exec_from r (Suc n) (c # cs) = rx_exec_from r n cs"
| "rx_exec_from r 0 (c # cs) =
     (case rx_match_at r (c # cs) of
        None \<Rightarrow> rx_exec_from r 0 cs
      | Some (caps, rest) \<Rightarrow> caps # rx_exec_from r (length cs - length rest) cs)"

definition rx_exec_all :: "rx \<Rightarrow> string \<Rightarrow> caps list" where
  "rx_exec_all r s = rx_exec_from r 0 s"

text \<open>A capture group that did not take part in the match reads as \<open>undefined\<close>.\<close>

definition cap :: "caps \<Rightarrow> nat \<Rightarrow> string" where
  "cap caps n = (case caps n of None \<Rightarrow> [] | Some x \<Rightarrow> x)"

text \<open>\<open>s.replace(re, repl)\<close> for a pattern without the global flag and a plain replacement.\<close>

definition js_replace :: "rx \<Rightarrow> string \<Rightarrow> string \<Rightarrow> string" where
  "js_replace r repl s =
     (case rx_search r s of None \<Rightarrow> s | Some (pre, caps, rest) \<Rightarrow> pre @ repl @ rest)"

text \<open>\<open>xs.pop()\<close> as a value: the last element, \<open>undefined\<close> on the empty array.\<close>

definition pop :: "'a list \<Rightarrow> 'a option" where
  "pop xs = (case rev xs of [] \<Rightarrow> None | x # _ \<Rightarrow> Some x)"

section \<open>JSON values\<close>

text \<open>
  What \<open>JSON.parse\<close> returns. A number is kept as the text the language prints for it
  (\<open>String(n)\<close>), which is all the source does with one; the number zero prints as \<open>0\<close>.
  An object is its list of properties. \<open>JSON.parse\<close> itself belongs to the runtime: the
  functions that call it take it as their first argument, with \<open>None\<close> for a thrown
  \<open>SyntaxError\<close>.
\<close>

datatype json =
    JNull
  | JBool bool
  | JNum string
  | JStr string
  | JArr "json list"
  | JObj "(string \<times> json) list"

type_synonym json_parser = "string \<Rightarrow> json option"

section \<open>Filename normalization (localInferenceService.ts)\<close>

definition detectContentType :: "json_parser \<Rightarrow> string \<Rightarrow> string" where
  "detectContentType JSON_parse content =
     (if str_includes content ''<html'' \<or> str_includes content ''<body''
         \<or> str_includes content ''<div'' then ''html''
      else if str_includes content ''{'' \<and> str_includes content ''}''
         \<and> (str_includes content ''#'' \<or> str_includes content ''.''
              \<or> str_includes content ''@'') then ''css''
      else if str_includes content ''function'' \<or> str_includes content ''const''
         \<or> str_includes content ''let'' \<or> str_includes content ''import''
         \<or> str_includes content ''export'' \<or> str_includes content ''React''
      then (if str_includes content ''React''
               \<or> str_includes content ''<'' \<and> str_includes content ''/>''
            then ''jsx'' else ''js'')
      else if str_includes content ''def '' \<or> str_includes content ''import ''
         \<or> str_includes content ''from '' \<or> str_includes content ''class ''
         \<or> str_includes content ''print('' then ''py''
      else if JSON_parse content \<noteq> None then ''json''
      else if str_includes content ''# '' \<or> str_includes content ''## ''
         \<or> str_includes content ''```''
         \<or> str_includes content ''['' \<and> str_includes content ''](''  then ''md''
      else if str_includes (toUpperCase content) ''SELECT''
         \<or> str_includes (toUpperCase content) ''INSERT''
         \<or> str_includes (toUpperCase content) ''UPDATE''
         \<or> str_includes (toUpperCase content) ''CREATE'' then ''sql''
      else ''txt'')"

definition compatibleExtensions :: "(string \<times> string list) list" where
  "compatibleExtensions =
     [(''js'', [''js'', ''jsx'', ''ts'', ''tsx'']),
      (''jsx'', [''js'', ''jsx'', ''ts'', ''tsx'']),
      (''ts'', [''js'', ''jsx'', ''ts'', ''tsx'']),
      (''tsx'', [''js'', ''jsx'', ''ts'', ''tsx'']),
      (''py'', [''py'']),
      (''html'', [''html'', ''htm'']),
      (''css'', [''css'', ''scss'', ''sass'', ''less'']),
      (''json'', [''json'']),
      (''md'', [''md'', ''markdown''])]"

definition isValidExtensionForContent :: "json_parser \<Rightarrow> string option \<Rightarrow> string \<Rightarrow> bool" where
  "isValidExtensionForContent JSON_parse extension content =
     (case extension of
        None \<Rightarrow> False
      | Some ext \<Rightarrow>
          if ext = [] then False
          else (case map_of compatibleExtensions (detectContentType JSON_parse content) of
                  None \<Rightarrow> False
                | Some exts \<Rightarrow> ext \<in> set exts))"

text \<open>The pattern \<open>/\.[^.]+$/\<close>: the last dot and what follows it.\<close>

definition extensionRegex :: rx where
  "extensionRegex = seqs [Ch CHR ''.'', Plus (\<lambda>c. c \<noteq> CHR ''.''), Eoi]"

definition ensureProperExtension :: "json_parser \<Rightarrow> string \<Rightarrow> string \<Rightarrow> string" where
  "ensureProperExtension JSON_parse filename content =
     (if str_includes filename ''.'' then
        (let ext = map_option toLowerCase (pop (js_split CHR ''.'' filename))
         in if isValidExtensionForContent JSON_parse ext content then filename
            else (let baseName = js_replace extensionRegex [] filename;
                      properExt = detectContentType JSON_parse content
                  in baseName @ ''.'' @ properExt))
      else (let properExt = detectContentType JSON_parse content
            in filename @ ''.'' @ properExt))"

section \<open>Objects and values of the host language\<close>

text \<open>
  An object used as a dictionary (\<open>Record<string, T>\<close>) is the list of its properties in
  the order \<open>Object.keys\<close> enumerates them: the array indices (canonical decimal numerals
  below \<open>2^32 - 1\<close>) in ascending order first, then the other keys in insertion order.
  The keys of an object are distinct.
\<close>

type_synonym 'v obj = "(string \<times> 'v) list"

definition is_digit :: "char \<Rightarrow> bool" where
  "is_digit c = (c \<in> set ''0123456789'')"

definition digit_value :: "char \<Rightarrow> int" where
  "digit_value c = (of_char c :: int) - 48"

definition dec_value :: "string \<Rightarrow> int" where
  "dec_value k = foldl (\<lambda>n c. 10 * n + digit_value c) 0 k"

definition is_array_index :: "string \<Rightarrow> bool" where
  "is_array_index k =
     (case k of
        [] \<Rightarrow> False
      | c # cs \<Rightarrow> list_all is_digit k \<and> (cs = [] \<or> c \<noteq> CHR ''0'') \<and> dec_value k < 4294967295)"

definition obj_keys :: "'v obj \<Rightarrow> string list" where
  "obj_keys m = map fst m"

definition obj_get :: "'v obj \<Rightarrow> string \<Rightarrow> 'v option" where
  "obj_get m k = map_of m k"

fun obj_insert_index :: "string \<Rightarrow> 'v \<Rightarrow> 'v obj \<Rightarrow> 'v obj" where
  "obj_insert_index k v [] = [(k, v)]"
| "obj_insert_index k v ((k', v') # m) =
     (if is_array_index k' \<and> dec_value k' < dec_value k
      then (k', v') # obj_insert_index k v m
      else (k, v) # (k', v') # m)"

text \<open>\<open>m[k] = v\<close>: an existing key keeps its place, a new key goes where its kind puts it.\<close>

definition obj_set :: "string \<Rightarrow> 'v \<Rightarrow> 'v obj \<Rightarrow> 'v obj" where
  "obj_set k v m =
     (if k \<in> set (obj_keys m) then map (\<lambda>(k', v'). if k' = k then (k', v) else (k', v')) m
      else if is_array_index k then obj_insert_index k v m
      else m @ [(k, v)])"

text \<open>
  \<open>m[k] = v\<close> where \<open>v\<close> is a string and \<open>m\<close> an object that inherits from
  \<open>Object.prototype\<close>: the key \<open>__proto__\<close> reaches the inherited setter, which ignores a
  value that is not an object, so nothing is stored under it.
\<close>

definition assign_prop :: "string \<Rightarrow> string \<Rightarrow> string obj \<Rightarrow> string obj" where
  "assign_prop k v m = (if k = ''__proto__'' then m else obj_set k v m)"

text \<open>\<open>delete m[k]\<close>.\<close>

definition obj_delete :: "string \<Rightarrow> 'v obj \<Rightarrow> 'v obj" where
  "obj_delete k m = filter (\<lambda>(k', v'). k' \<noteq> k) m"

text \<open>
  The properties of an object, each key once. A list that names a key twice stands for
  the object of its first entries, which is how \<open>obj_get\<close> reads it.
\<close>

definition obj_entries :: "'v obj \<Rightarrow> 'v obj" where
  "obj_entries m = fold (\<lambda>(k, v) es. if k \<in> set (obj_keys es) then es else es @ [(k, v)]) m []"

text \<open>\<open>{ ...a, ...b }\<close>: a copy of \<open>a\<close>, then each property of \<open>b\<close> assigned in order.\<close>

definition obj_assign :: "'v obj \<Rightarrow> 'v obj \<Rightarrow> 'v obj" where
  "obj_assign target source = fold (\<lambda>(k, v) m. obj_set k v m) (obj_entries source) target"

definition obj_spread :: "'v obj \<Rightarrow> 'v obj \<Rightarrow> 'v obj" where
  "obj_spread a b = obj_assign (obj_assign [] a) b"

text \<open>Exceptions are values: the kind of the error object and its \<open>message\<close>.\<close>

datatype error =
    Error string
  | TypeError string
  | ReferenceError string
  | SyntaxError string
  | AbortError string

fun message :: "error \<Rightarrow> string" where
  "message (Error m) = m"
| "message (TypeError m) = m"
| "message (ReferenceError m) = m"
| "message (SyntaxError m) = m"
| "message (AbortError m) = m"

text \<open>
  \<open>try { body } catch (error) { handler }\<close> around a computation that may throw.
\<close>

definition try_catch :: "error + 'a \<Rightarrow> (error \<Rightarrow> error + 'a) \<Rightarrow> error + 'a" where
  "try_catch body handler = (case body of Inl e \<Rightarrow> handler e | Inr v \<Rightarrow> Inr v)"

text \<open>
  A value read from parsed JSON, or \<open>undefined\<close> (\<open>None\<close>). Truthiness as the language
  defines it.
\<close>

fun truthy :: "json \<Rightarrow> bool" where
  "truthy JNull = False"
| "truthy (JBool b) = b"
| "truthy (JNum n) = (n \<noteq> ''0'')"
| "truthy (JStr s) = (s \<noteq> [])"
| "truthy (JArr xs) = True"
| "truthy (JObj ps) = True"

definition truthy_opt :: "json option \<Rightarrow> bool" where
  "truthy_opt v = (case v of None \<Rightarrow> False | Some j \<Rightarrow> truthy j)"

text \<open>
  Reading the property \<open>k\<close> of a value that is neither \<open>null\<close> nor \<open>undefined\<close>. The source
  reads data properties only (\<open>name\<close>, \<open>enabled\<close>, \<open>done\<close>, ...), which only an object can
  have; \<open>nth_prop\<close> is the read \<open>v[0]\<close>, which arrays and strings answer too.
\<close>

fun get_prop :: "json \<Rightarrow> string \<Rightarrow> json option" where
  "get_prop (JObj ps) k = map_of ps k"
| "get_prop v k = None"

fun first_elem :: "json \<Rightarrow> json option" where
  "first_elem (JArr xs) = (case xs of [] \<Rightarrow> None | x # _ \<Rightarrow> Some x)"
| "first_elem (JStr s) = (case s of [] \<Rightarrow> None | c # _ \<Rightarrow> Some (JStr [c]))"
| "first_elem (JObj ps) = map_of ps ''0''"
| "first_elem v = None"

text \<open>\<open>v.k\<close> throws a \<open>TypeError\<close> on \<open>null\<close> and \<open>undefined\<close>; \<open>v?.k\<close> gives \<open>undefined\<close> there.\<close>

definition read_prop :: "json option \<Rightarrow> string \<Rightarrow> error + json option" where
  "read_prop v k =
     (case v of
        None \<Rightarrow> Inl (TypeError (''Cannot read properties of undefined (reading '' @ k @ '')''))
      | Some JNull \<Rightarrow> Inl (TypeError (''Cannot read properties of null (reading '' @ k @ '')''))
      | Some j \<Rightarrow> Inr (get_prop j k))"

definition opt_prop :: "json option \<Rightarrow> string \<Rightarrow> json option" where
  "opt_prop v k = (case v of None \<Rightarrow> None | Some JNull \<Rightarrow> None | Some j \<Rightarrow> get_prop j k)"

definition opt_first :: "json option \<Rightarrow> json option" where
  "opt_first v = (case v of None \<Rightarrow> None | Some JNull \<Rightarrow> None | Some j \<Rightarrow> first_elem j)"

text \<open>\<open>String(n)\<close> for an integer from 0 to below \<open>10^21\<close>: its decimal numeral.\<close>

definition digit_char :: "int \<Rightarrow> char" where
  "digit_char d = ''0123456789'' ! nat d"

function show_int :: "int \<Rightarrow> string" where
  "show_int n =
     (if n < 10 then [digit_char n]
      else show_int (n div 10) @ [digit_char (n mod 10)])"
  by pat_completeness auto
termination
  by (relation "measure nat") auto

declare show_int.simps [simp del]

text \<open>The own enumerable properties that a spread \<open>...v\<close> copies.\<close>

definition index_props :: "json list \<Rightarrow> json obj" where
  "index_props xs = zip (map (\<lambda>i. show_int (int i)) [0..<length xs]) xs"

fun own_props :: "json option \<Rightarrow> json obj" where
  "own_props (Some (JObj ps)) = ps"
| "own_props (Some (JArr xs)) = index_props xs"
| "own_props (Some (JStr s)) = index_props (map (\<lambda>c. JStr [c]) s)"
| "own_props v = []"

text \<open>
  \<open>String(v)\<close>, the conversion that \<open>+=\<close> on a string and a template literal apply: an
  array joins the texts of its elements with commas (\<open>null\<close> as the empty string), an
  object prints as \<open>[object Object]\<close> through the \<open>toString\<close> it inherits. A parsed object
  with a property of its own named \<open>toString\<close> has nothing callable there (no JSON value
  is a function), so its conversion throws a \<open>TypeError\<close>; so does the conversion of an
  array that holds such an object.
\<close>

fun join :: "string \<Rightarrow> string list \<Rightarrow> string" where
  "join sep [] = []"
| "join sep [x] = x"
| "join sep (x # y # ys) = x @ sep @ join sep (y # ys)"

fun ToString :: "json \<Rightarrow> error + string"
  and element_texts :: "json list \<Rightarrow> error + string list" where
  "ToString JNull = Inr ''null''"
| "ToString (JBool b) = Inr (if b then ''true'' else ''false'')"
| "ToString (JNum n) = Inr n"
| "ToString (JStr s) = Inr s"
| "ToString (JArr xs) =
     (case element_texts xs of Inl e \<Rightarrow> Inl e | Inr ts \<Rightarrow> Inr (join '','' ts))"
| "ToString (JObj ps) =
     (if ''toString'' \<in> set (map fst ps)
      then Inl (TypeError ''Cannot convert object to primitive value'')
      else Inr ''[object Object]'')"
| "element_texts [] = Inr []"
| "element_texts (x # xs) =
     (case (if x = JNull then Inr [] else ToString x) of
        Inl e \<Rightarrow> Inl e
      | Inr t \<Rightarrow> (case element_texts xs of Inl e \<Rightarrow> Inl e | Inr ts \<Rightarrow> Inr (t # ts)))"

definition ToString_opt :: "json option \<Rightarrow> error + string" where
  "ToString_opt v = (case v of None \<Rightarrow> Inr ''undefined'' | Some j \<Rightarrow> ToString j)"

section \<open>The provider registry (multiProviderService.ts)\<close>

text \<open>
  A provider configuration is an object; at run time it is whatever the merge of a built-in
  default with a persisted record gives, so it is modelled by its property list, with JSON
  values for the properties. The model catalogs of the built-in defaults follow.
\<close>

definition Ollama_models :: "json list" where
  "Ollama_models =
     [JObj [(''id'', JStr ''qwen2.5:0.5b''), (''name'', JStr ''Qwen 2.5 (Fast)''), (''size'', JStr ''0.5B''), (''contextLength'', JNum ''32768'')],
      JObj [(''id'', JStr ''codegemma:latest''), (''name'', JStr ''CodeGemma''), (''size'', JStr ''7.3B''), (''contextLength'', JNum ''8192'')],
      JObj [(''id'', JStr ''llama3.2:3b''), (''name'', JStr ''Llama 3.2 3B''), (''size'', JStr ''3B''), (''contextLength'', JNum ''32768'')]]"

definition OpenRouter_models :: "json list" where
  "OpenRouter_models =
     [JObj [(''id'', JStr ''openai/gpt-oss-120b:free''), (''name'', JStr ''GPT-OSS 120B (Free)''), (''contextLength'', JNum ''32768'')],
      JObj [(''id'', JStr ''meta-llama/llama-3.1-8b-instruct:free''), (''name'', JStr ''Llama 3.1 8B Instruct (Free)''), (''contextLength'', JNum ''131072'')],
      JObj [(''id'', JStr ''meta-llama/llama-3.1-70b-instruct:free''), (''name'', JStr ''Llama 3.1 70B Instruct (Free)''), (''contextLength'', JNum ''131072'')],
      JObj [(''id'', JStr ''meta-llama/llama-3.1-405b-instruct:free''), (''name'', JStr ''Llama 3.1 405B Instruct (Free)''), (''contextLength'', JNum ''131072'')],
      JObj [(''id'', JStr ''microsoft/wizardlm-2-8x22b:free''), (''name'', JStr ''WizardLM 2 8x22B (Free)''), (''contextLength'', JNum ''65536'')],
      JObj [(''id'', JStr ''microsoft/wizardlm-2-7b''), (''name'', JStr ''WizardLM 2 7B (Free)''), (''contextLength'', JNum ''32768'')],
      JObj [(''id'', JStr ''huggingface/zephyr-7b-beta:free''), (''name'', JStr ''Zephyr 7B Beta (Free)''), (''contextLength'', JNum ''32768'')],
      JObj [(''id'', JStr ''openchat/openchat-7b:free''), (''name'', JStr ''OpenChat 7B (Free)''), (''contextLength'', JNum ''8192'')],
      JObj [(''id'', JStr ''anthropic/claude-3-haiku:beta''), (''name'', JStr ''Claude 3 Haiku (Beta)''), (''contextLength'', JNum ''200000'')],
      JObj [(''id'', JStr ''openai/gpt-4o''), (''name'', JStr ''GPT-4o''), (''contextLength'', JNum ''128000''), (''pricing'', JObj [(''input'', JNum ''0.005''), (''output'', JNum ''0.015'')])],
      JObj [(''id'', JStr ''openai/gpt-4o-mini''), (''name'', JStr ''GPT-4o Mini''), (''contextLength'', JNum ''128000''), (''pricing'', JObj [(''input'', JNum ''0.00015''), (''output'', JNum ''0.0006'')])],
      JObj [(''id'', JStr ''openai/gpt-4-turbo''), (''name'', JStr ''GPT-4 Turbo''), (''contextLength'', JNum ''128000''), (''pricing'', JObj [(''input'', JNum ''0.01''), (''output'', JNum ''0.03'')])],
      JObj [(''id'', JStr ''openai/gpt-4''), (''name'', JStr ''GPT-4''), (''contextLength'', JNum ''8192''), (''pricing'', JObj [(''input'', JNum ''0.03''), (''output'', JNum ''0.06'')])],
      JObj [(''id'', JStr ''openai/gpt-3.5-turbo''), (''name'', JStr ''GPT-3.5 Turbo''), (''contextLength'', JNum ''16385''), (''pricing'', JObj [(''input'', JNum ''0.0005''), (''output'', JNum ''0.0015'')])],
      JObj [(''id'', JStr ''openai/gpt-3.5-turbo-16k''), (''name'', JStr ''GPT-3.5 Turbo 16K''), (''contextLength'', JNum ''16385''), (''pricing'', JObj [(''input'', JNum ''0.003''), (''output'', JNum ''0.004'')])],
      JObj [(''id'', JStr ''anthropic/claude-3.5-sonnet''), (''name'', JStr ''Claude 3.5 Sonnet''), (''contextLength'', JNum ''200000''), (''pricing'', JObj [(''input'', JNum ''0.003''), (''output'', JNum ''0.015'')])],
      JObj [(''id'', JStr ''anthropic/claude-3-opus''), (''name'', JStr ''Claude 3 Opus''), (''contextLength'', JNum ''200000''), (''pricing'', JObj [(''input'', JNum ''0.015''), (''output'', JNum ''0.075'')])],
      JObj [(''id'', JStr ''anthropic/claude-3-haiku''), (''name'', JStr ''Claude 3 Haiku''), (''contextLength'', JNum ''200000''), (''pricing'', JObj [(''input'', JNum ''0.00025''), (''output'', JNum ''0.00125'')])],
      JObj [(''id'', JStr ''anthropic/claude-3-sonnet''), (''name'', JStr ''Claude 3 Sonnet''), (''contextLength'', JNum ''200000''), (''pricing'', JObj [(''input'', JNum ''0.003''), (''output'', JNum ''0.015'')])],
      JObj [(''id'', JStr ''google/gemini-pro-1.5''), (''name'', JStr ''Gemini Pro 1.5''), (''contextLength'', JNum ''2097152''), (''pricing'', JObj [(''input'', JNum ''0.00125''), (''output'', JNum ''0.005'')])],
      JObj [(''id'', JStr ''google/gemini-flash-1.5''), (''name'', JStr ''Gemini Flash 1.5''), (''contextLength'', JNum ''1048576''), (''pricing'', JObj [(''input'', JNum ''0.000075''), (''output'', JNum ''0.0003'')])],
      JObj [(''id'', JStr ''google/gemini-pro''), (''name'', JStr ''Gemini Pro''), (''contextLength'', JNum ''32768''), (''pricing'', JObj [(''input'', JNum ''0.00025''), (''output'', JNum ''0.0005'')])],
      JObj [(''id'', JStr ''meta-llama/llama-3.1-405b-instruct''), (''name'', JStr ''Llama 3.1 405B Instruct''), (''contextLength'', JNum ''131072''), (''pricing'', JObj [(''input'', JNum ''0.002''), (''output'', JNum ''0.002'')])],
      JObj [(''id'', JStr ''meta-llama/llama-3.1-70b-instruct''), (''name'', JStr ''Llama 3.1 70B Instruct''), (''contextLength'', JNum ''131072''), (''pricing'', JObj [(''input'', JNum ''0.0009''), (''output'', JNum ''0.0009'')])],
      JObj [(''id'', JStr ''meta-llama/llama-3.1-8b-instruct''), (''name'', JStr ''Llama 3.1 8B Instruct''), (''contextLength'', JNum ''131072''), (''pricing'', JObj [(''input'', JNum ''0.0003''), (''output'', JNum ''0.0003'')])],
      JObj [(''id'', JStr ''meta-llama/llama-3-70b-instruct''), (''name'', JStr ''Llama 3 70B Instruct''), (''contextLength'', JNum ''8192''), (''pricing'', JObj [(''input'', JNum ''0.001''), (''output'', JNum ''0.001'')])],
      JObj [(''id'', JStr ''meta-llama/llama-3-8b-instruct''), (''name'', JStr ''Llama 3 8B Instruct''), (''contextLength'', JNum ''8192''), (''pricing'', JObj [(''input'', JNum ''0.0004''), (''output'', JNum ''0.0004'')])],
      JObj [(''id'', JStr ''mistralai/mistral-7b-instruct''), (''name'', JStr ''Mistral 7B Instruct''), (''contextLength'', JNum ''32768''), (''pricing'', JObj [(''input'', JNum ''0.0002''), (''output'', JNum ''0.0002'')])],
      JObj [(''id'', JStr ''mistralai/mistral-7b-instruct:free''), (''name'', JStr ''Mistral 7B Instruct (Free)''), (''contextLength'', JNum ''32768'')],
      JObj [(''id'', JStr ''mistralai/mixtral-8x7b-instruct''), (''name'', JStr ''Mixtral 8x7B Instruct''), (''contextLength'', JNum ''32768''), (''pricing'', JObj [(''input'', JNum ''0.0007''), (''output'', JNum ''0.0007'')])],
      JObj [(''id'', JStr ''cohere/command-r-plus''), (''name'', JStr ''Command R Plus''), (''contextLength'', JNum ''128000''), (''pricing'', JObj [(''input'', JNum ''0.003''), (''output'', JNum ''0.015'')])],
      JObj [(''id'', JStr ''cohere/command-r''), (''name'', JStr ''Command R''), (''contextLength'', JNum ''128000''), (''pricing'', JObj [(''input'', JNum ''0.0005''), (''output'', JNum ''0.0015'')])],
      JObj [(''id'', JStr ''groq/llama-3.1-70b''), (''name'', JStr ''Llama 3.1 70B (Groq)''), (''contextLength'', JNum ''131072''), (''pricing'', JObj [(''input'', JNum ''0.00059''), (''output'', JNum ''0.00079'')])],
      JObj [(''id'', JStr ''groq/llama-3.1-8b''), (''name'', JStr ''Llama 3.1 8B (Groq)''), (''contextLength'', JNum ''131072''), (''pricing'', JObj [(''input'', JNum ''0.00005''), (''output'', JNum ''0.00008'')])],
      JObj [(''id'', JStr ''groq/mixtral-8x7b''), (''name'', JStr ''Mixtral 8x7B (Groq)''), (''contextLength'', JNum ''32768''), (''pricing'', JObj [(''input'', JNum ''0.00027''), (''output'', JNum ''0.00027'')])],
      JObj [(''id'', JStr ''xai/grok-beta''), (''name'', JStr ''Grok Beta''), (''contextLength'', JNum ''131072''), (''pricing'', JObj [(''input'', JNum ''0.005''), (''output'', JNum ''0.005'')])],
      JObj [(''id'', JStr ''perplexity/llama-3.1-sonar-large-128k-online''), (''name'', JStr ''Llama 3.1 Sonar Large 128K''), (''contextLength'', JNum ''127072''), (''pricing'', JObj [(''input'', JNum ''0.001''), (''output'', JNum ''0.001'')])],
      JObj [(''id'', JStr ''perplexity/llama-3.1-sonar-small-128k-online''), (''name'', JStr ''Llama 3.1 Sonar Small 128K''), (''contextLength'', JNum ''127072''), (''pricing'', JObj [(''input'', JNum ''0.0002''), (''output'', JNum ''0.0002'')])],
      JObj [(''id'', JStr ''fireworks/firellava-13b''), (''name'', JStr ''FireLLaVA 13B''), (''contextLength'', JNum ''4096''), (''pricing'', JObj [(''input'', JNum ''0.0002''), (''output'', JNum ''0.0002'')])],
      JObj [(''id'', JStr ''anthropic/claude-2''), (''name'', JStr ''Claude 2''), (''contextLength'', JNum ''100000''), (''pricing'', JObj [(''input'', JNum ''0.008''), (''output'', JNum ''0.024'')])],
      JObj [(''id'', JStr ''anthropic/claude-instant-1''), (''name'', JStr ''Claude Instant''), (''contextLength'', JNum ''100000''), (''pricing'', JObj [(''input'', JNum ''0.0008''), (''output'', JNum ''0.0024'')])]]"

definition OpenAI_models :: "json list" where
  "OpenAI_models =
     [JObj [(''id'', JStr ''gpt-4o''), (''name'', JStr ''GPT-4o''), (''contextLength'', JNum ''128000''), (''pricing'', JObj [(''input'', JNum ''0.005''), (''output'', JNum ''0.015'')])],
      JObj [(''id'', JStr ''gpt-4o-mini''), (''name'', JStr ''GPT-4o Mini''), (''contextLength'', JNum ''128000''), (''pricing'', JObj [(''input'', JNum ''0.00015''), (''output'', JNum ''0.0006'')])],
      JObj [(''id'', JStr ''gpt-3.5-turbo''), (''name'', JStr ''GPT-3.5 Turbo''), (''contextLength'', JNum ''16385''), (''pricing'', JObj [(''input'', JNum ''0.0005''), (''output'', JNum ''0.0015'')])]]"

definition Anthropic_models :: "json list" where
  "Anthropic_models =
     [JObj [(''id'', JStr ''claude-3-5-sonnet-20241022''), (''name'', JStr ''Claude 3.5 Sonnet''), (''contextLength'', JNum ''200000''), (''pricing'', JObj [(''input'', JNum ''0.003''), (''output'', JNum ''0.015'')])],
      JObj [(''id'', JStr ''claude-3-5-haiku-20241022''), (''name'', JStr ''Claude 3.5 Haiku''), (''contextLength'', JNum ''200000''), (''pricing'', JObj [(''input'', JNum ''0.0008''), (''output'', JNum ''0.004'')])]]"

text \<open>
  The built-in OpenRouter entry carries a credential literal. Its text is not repeated
  here; the code only tests it for truthiness and sends it in a header.
\<close>

definition OpenRouter_apiKey :: string where
  "OpenRouter_apiKey = ''sk-or-v1-(elided)''"

definition Ollama_default :: "json obj" where
  "Ollama_default =
     [(''name'', JStr ''Ollama''),
      (''baseUrl'', JStr ''http://localhost:11434''),
      (''models'', JArr Ollama_models),
      (''enabled'', JBool True)]"

definition OpenRouter_default :: "json obj" where
  "OpenRouter_default =
     [(''name'', JStr ''OpenRouter''),
      (''baseUrl'', JStr ''https://openrouter.ai/api/v1''),
      (''apiKey'', JStr OpenRouter_apiKey),
      (''models'', JArr OpenRouter_models),
      (''enabled'', JBool False)]"

definition OpenAI_default :: "json obj" where
  "OpenAI_default =
     [(''name'', JStr ''OpenAI''),
      (''baseUrl'', JStr ''https://api.openai.com/v1''),
      (''models'', JArr OpenAI_models),
      (''enabled'', JBool False)]"

definition Anthropic_default :: "json obj" where
  "Anthropic_default =
     [(''name'', JStr ''Anthropic''),
      (''baseUrl'', JStr ''https://api.anthropic.com/v1''),
      (''models'', JArr Anthropic_models),
      (''enabled'', JBool False)]"

definition DEFAULT_PROVIDERS :: "json obj list" where
  "DEFAULT_PROVIDERS = [Ollama_default, OpenRouter_default, OpenAI_default, Anthropic_default]"

definition provider_names :: "string list" where
  "provider_names = [''Ollama'', ''OpenRouter'', ''OpenAI'', ''Anthropic'']"

text \<open>
  The registry's state: the module-level array \<open>DEFAULT_PROVIDERS\<close>, whose element objects
  \<open>setActiveProvider\<close> can reach and mutate (\<open>providers_array\<close> is its current value,
  the constant above its initial one), and the item \<open>ai-providers\<close> of \<open>localStorage\<close>.
  \<open>JSON.parse\<close> and \<open>JSON.stringify\<close> are the runtime's, taken as arguments, and so is
  \<open>localStorage.setItem\<close>: given the key and the text it answers \<open>None\<close> when it stores the
  text and the exception when it throws (a full quota, a storage that is not writable).
  Reading the storage is taken to succeed.
\<close>

type_synonym storage_writer = "string \<Rightarrow> string \<Rightarrow> error option"

record registry =
  providers_array :: "json obj list"
  ai_providers :: "string option"

definition initial_registry :: "string option \<Rightarrow> registry" where
  "initial_registry saved = \<lparr>providers_array = DEFAULT_PROVIDERS, ai_providers = saved\<rparr>"

text \<open>\<open>a === b\<close> on values read from JSON data: two objects or arrays that were parsed or
  built apart are never the same object.\<close>

fun strict_eq :: "json option \<Rightarrow> json option \<Rightarrow> bool" where
  "strict_eq None None = True"
| "strict_eq (Some JNull) (Some JNull) = True"
| "strict_eq (Some (JBool a)) (Some (JBool b)) = (a = b)"
| "strict_eq (Some (JNum a)) (Some (JNum b)) = (a = b)"
| "strict_eq (Some (JStr a)) (Some (JStr b)) = (a = b)"
| "strict_eq a b = False"

text \<open>\<open>xs.find(cb)\<close> with a callback that may throw, and \<open>xs.map(f)\<close> likewise.\<close>

fun js_find :: "('a \<Rightarrow> error + bool) \<Rightarrow> 'a list \<Rightarrow> error + 'a option" where
  "js_find cb [] = Inr None"
| "js_find cb (x # xs) =
     (case cb x of Inl e \<Rightarrow> Inl e
      | Inr b \<Rightarrow> if b then Inr (Some x) else js_find cb xs)"

fun js_map :: "('a \<Rightarrow> error + 'b) \<Rightarrow> 'a list \<Rightarrow> error + 'b list" where
  "js_map f [] = Inr []"
| "js_map f (x # xs) =
     (case f x of Inl e \<Rightarrow> Inl e
      | Inr y \<Rightarrow> (case js_map f xs of Inl e \<Rightarrow> Inl e | Inr ys \<Rightarrow> Inr (y # ys)))"

text \<open>
  \<open>loadProviderConfigs\<close>. Each provider it returns is paired with a flag: \<open>True\<close> when
  the object is the element of \<open>DEFAULT_PROVIDERS\<close> itself, \<open>False\<close> when it is a fresh
  object made by the merge. The \<open>i\<close>-th provider returned belongs to the \<open>i\<close>-th default.
\<close>

definition find_saved :: "json \<Rightarrow> json obj \<Rightarrow> error + json option" where
  "find_saved parsed defaultProvider =
     (case parsed of
        JArr ps \<Rightarrow>
          js_find (\<lambda>p. case read_prop (Some p) ''name'' of
                         Inl e \<Rightarrow> Inl e
                       | Inr n \<Rightarrow> Inr (strict_eq n (map_of defaultProvider ''name''))) ps
      | _ \<Rightarrow> Inl (TypeError ''parsed.find is not a function''))"

definition merge_saved :: "json \<Rightarrow> json obj \<Rightarrow> error + (json obj \<times> bool)" where
  "merge_saved parsed defaultProvider =
     (case find_saved parsed defaultProvider of
        Inl e \<Rightarrow> Inl e
      | Inr savedProvider \<Rightarrow>
          Inr (if truthy_opt savedProvider
               then (obj_spread defaultProvider (own_props savedProvider), False)
               else (defaultProvider, True)))"

definition loadProviderConfigs :: "json_parser \<Rightarrow> registry \<Rightarrow> (json obj \<times> bool) list" where
  "loadProviderConfigs JSON_parse reg =
     (case try_catch
             (case ai_providers reg of
                None \<Rightarrow> Inr None
              | Some saved \<Rightarrow>
                  if saved = [] then Inr None
                  else (case JSON_parse saved of
                          None \<Rightarrow> Inl (SyntaxError ''Unexpected token'')
                        | Some parsed \<Rightarrow>
                            (case js_map (merge_saved parsed) (providers_array reg) of
                               Inl e \<Rightarrow> Inl e
                             | Inr merged \<Rightarrow> Inr (Some merged))))
             (\<lambda>error. Inr None)
      of Inr (Some merged) \<Rightarrow> merged
       | _ \<Rightarrow> map (\<lambda>d. (d, True)) (providers_array reg))"

text \<open>
  \<open>saveProviderConfigs\<close>: the \<open>catch\<close> logs a failing write and returns, which leaves the
  item as it was.
\<close>

definition saveProviderConfigs ::
  "(json \<Rightarrow> string) \<Rightarrow> storage_writer \<Rightarrow> json obj list \<Rightarrow> registry \<Rightarrow> registry" where
  "saveProviderConfigs JSON_stringify setItem configs reg =
     (let text = JSON_stringify (JArr (map JObj configs))
      in (case setItem ''ai-providers'' text of
            None \<Rightarrow> reg\<lparr>ai_providers := Some text\<rparr>
          | Some error \<Rightarrow> reg))"

definition getAvailableProviders :: "json_parser \<Rightarrow> registry \<Rightarrow> json obj list" where
  "getAvailableProviders JSON_parse reg = map fst (loadProviderConfigs JSON_parse reg)"

definition getActiveProvider :: "json_parser \<Rightarrow> registry \<Rightarrow> json obj option" where
  "getActiveProvider JSON_parse reg =
     find (\<lambda>p. truthy_opt (map_of p ''enabled'')) (map fst (loadProviderConfigs JSON_parse reg))"

text \<open>
  \<open>setActiveProvider\<close>. The loop \<open>providers.forEach(p => p.enabled = p.name === providerName)\<close>
  is \<open>assign_enabled\<close>; its assignment reaches the element of \<open>DEFAULT_PROVIDERS\<close> where the
  loaded provider is that element.
\<close>

definition assign_enabled :: "string \<Rightarrow> (json obj \<times> bool) list \<Rightarrow> (json obj \<times> bool) list" where
  "assign_enabled providerName providers =
     map (\<lambda>(p, shared).
            (obj_set ''enabled'' (JBool (strict_eq (map_of p ''name'') (Some (JStr providerName)))) p,
             shared)) providers"

definition setActiveProvider ::
  "json_parser \<Rightarrow> (json \<Rightarrow> string) \<Rightarrow> storage_writer \<Rightarrow> string \<Rightarrow> registry \<Rightarrow> registry" where
  "setActiveProvider JSON_parse JSON_stringify setItem providerName reg =
     (let providers = assign_enabled providerName (loadProviderConfigs JSON_parse reg);
          reg' = reg\<lparr>providers_array :=
                    map (\<lambda>(d, (p, shared)). if shared then p else d)
                        (zip (providers_array reg) providers)\<rparr>
      in saveProviderConfigs JSON_stringify setItem (map fst providers) reg')"

text \<open>
  The states the registry can be in: whatever the storage holds, the elements of
  \<open>DEFAULT_PROVIDERS\<close> carry the built-in names in the built-in order (only their
  \<open>enabled\<close> property is ever assigned).
\<close>

definition registry_ok :: "registry \<Rightarrow> bool" where
  "registry_ok reg =
     (map (\<lambda>d. map_of d ''name'') (providers_array reg) = map (\<lambda>n. Some (JStr n)) provider_names)"

text \<open>
  A persisted record is foreign when reading its name does not throw and gives none of the
  built-in names. \<open>builtin_records\<close> keeps the other elements of a persisted array.
\<close>

definition foreign_record :: "json \<Rightarrow> bool" where
  "foreign_record r =
     (r \<noteq> JNull \<and> get_prop r ''name'' \<notin> set (map (\<lambda>n. Some (JStr n)) provider_names))"

definition builtin_records :: "json list \<Rightarrow> json list" where
  "builtin_records records = filter (\<lambda>r. \<not> foreign_record r) records"

text \<open>
  The providers that a load shows as enabled, by name, and the persisted configurations of
  the examples: an array that a stranger's record heads, and its text.
\<close>

definition enabled_names :: "json obj list \<Rightarrow> json option list" where
  "enabled_names providers =
     map (\<lambda>p. map_of p ''name'') (filter (\<lambda>p. truthy_opt (map_of p ''enabled'')) providers)"

definition stored_with_stranger :: "json list" where
  "stored_with_stranger =
     [JObj [(''name'', JStr ''Mallory''), (''baseUrl'', JStr ''https://mallory.example''),
            (''enabled'', JBool True)],
      JObj [(''name'', JStr ''Ollama''), (''enabled'', JBool False)],
      JObj [(''name'', JStr ''OpenAI''), (''enabled'', JBool True)]]"

definition stranger_parse :: json_parser where
  "stranger_parse s = (if s = ''[stored]'' then Some (JArr stored_with_stranger) else None)"

definition quota_exceeded :: storage_writer where
  "quota_exceeded key text = Some (Error ''The quota has been exceeded.'')"

definition storing :: storage_writer where
  "storing key text = None"

section \<open>Framework detection\<close>

datatype framework_type =
  vanilla | react | vue | nextjs | nuxt | svelte | angular | express | fastify

text \<open>
  \<open>FrameworkInfo\<close>. The version is whatever value the manifest gives the dependency;
  \<open>None\<close> stands for a \<open>version\<close> property that is absent.
\<close>

record FrameworkInfo =
  fw_type :: framework_type
  fw_version :: "json option"
  fw_features :: "string list"

text \<open>
  \<open>{ ...pkg.dependencies, ...pkg.devDependencies }\<close> for a parsed manifest \<open>pkg\<close>: reading
  a property of \<open>null\<close> throws.
\<close>

definition manifest_deps :: "json \<Rightarrow> error + json obj" where
  "manifest_deps pkg =
     (case read_prop (Some pkg) ''dependencies'' of
        Inl e \<Rightarrow> Inl e
      | Inr dependencies \<Rightarrow>
          (case read_prop (Some pkg) ''devDependencies'' of
             Inl e \<Rightarrow> Inl e
           | Inr devDependencies \<Rightarrow>
               Inr (obj_spread (own_props dependencies) (own_props devDependencies))))"

text \<open>
  The detector of the context distiller (localInferenceService.ts). \<open>framework_of_deps\<close>
  is the chain of tests that follows the reading of the manifest.
\<close>

definition framework_of_deps :: "json obj \<Rightarrow> FrameworkInfo" where
  "framework_of_deps deps =
     (if truthy_opt (obj_get deps ''react'') then
        (if truthy_opt (obj_get deps ''next'')
         then \<lparr>fw_type = nextjs, fw_version = obj_get deps ''next'',
               fw_features = [''JSX'', ''Hooks'', ''Components'', ''SSR'', ''API Routes'', ''App Router'']\<rparr>
         else \<lparr>fw_type = react, fw_version = obj_get deps ''react'',
               fw_features = [''JSX'', ''Hooks'', ''Components'']\<rparr>)
      else if truthy_opt (obj_get deps ''vue'') then
        (if truthy_opt (obj_get deps ''nuxt'')
         then \<lparr>fw_type = nuxt, fw_version = obj_get deps ''nuxt'',
               fw_features = [''Vue Components'', ''Reactivity'', ''Templates'', ''SSR'',
                              ''Auto-imports'', ''Modules'']\<rparr>
         else \<lparr>fw_type = vue, fw_version = obj_get deps ''vue'',
               fw_features = [''Vue Components'', ''Reactivity'', ''Templates'']\<rparr>)
      else if truthy_opt (obj_get deps ''svelte'') then
        \<lparr>fw_type = svelte, fw_version = obj_get deps ''svelte'',
         fw_features = [''Components'', ''Reactivity'', ''Stores'']\<rparr>
      else if truthy_opt (obj_get deps ''@angular/core'') then
        \<lparr>fw_type = angular, fw_version = obj_get deps ''@angular/core'',
         fw_features = [''Components'', ''Services'', ''Modules'', ''Dependency Injection'']\<rparr>
      else if truthy_opt (obj_get deps ''express'') then
        \<lparr>fw_type = express, fw_version = obj_get deps ''express'',
         fw_features = [''Middleware'', ''Routing'', ''REST API'']\<rparr>
      else if truthy_opt (obj_get deps ''fastify'') then
        \<lparr>fw_type = fastify, fw_version = obj_get deps ''fastify'',
         fw_features = [''Plugins'', ''Hooks'', ''Validation'']\<rparr>
      else \<lparr>fw_type = vanilla, fw_version = None,
            fw_features = [''HTML'', ''CSS'', ''JavaScript'']\<rparr>)"

definition detectFramework :: "json_parser \<Rightarrow> string obj \<Rightarrow> FrameworkInfo" where
  "detectFramework JSON_parse files =
     (let packageJson = obj_get files ''package.json'';
          deps =
            (case packageJson of
               None \<Rightarrow> []
             | Some text \<Rightarrow>
                 if text = [] then []
                 else (case try_catch
                              (case JSON_parse text of
                                 None \<Rightarrow> Inl (SyntaxError ''Unexpected token'')
                               | Some pkg \<Rightarrow> manifest_deps pkg)
                              (\<lambda>error. Inr [])
                       of Inr d \<Rightarrow> d | Inl e \<Rightarrow> []))
      in framework_of_deps deps)"

text \<open>
  The store has a detector of its own, which the mode handlers use for their prompts.
  Inside its \<open>try\<close> a matching rule returns (\<open>store_framework_of_deps\<close>); when no rule
  matches, or something throws, control reaches the final \<open>return\<close>.
\<close>

definition store_vanilla :: FrameworkInfo where
  "store_vanilla = \<lparr>fw_type = vanilla, fw_version = Some JNull,
                     fw_features = [''HTML'', ''CSS'', ''JavaScript'']\<rparr>"

definition store_framework_of_deps :: "json obj \<Rightarrow> FrameworkInfo option" where
  "store_framework_of_deps deps =
     (if truthy_opt (obj_get deps ''react'') then
        (if truthy_opt (obj_get deps ''next'')
         then Some \<lparr>fw_type = nextjs, fw_version = obj_get deps ''next'',
                fw_features = [''React'', ''SSR'', ''API Routes'', ''App Router'']\<rparr>
         else Some \<lparr>fw_type = react, fw_version = obj_get deps ''react'',
                fw_features = [''React'', ''JSX'', ''Hooks'', ''Components'']\<rparr>)
      else if truthy_opt (obj_get deps ''vue'') then
        (if truthy_opt (obj_get deps ''nuxt'')
         then Some \<lparr>fw_type = nuxt, fw_version = obj_get deps ''nuxt'',
                fw_features = [''Vue'', ''SSR'', ''Auto-imports'']\<rparr>
         else Some \<lparr>fw_type = vue, fw_version = obj_get deps ''vue'',
                fw_features = [''Vue'', ''Components'', ''Reactivity'']\<rparr>)
      else if truthy_opt (obj_get deps ''svelte'') then
        Some \<lparr>fw_type = svelte, fw_version = obj_get deps ''svelte'',
          fw_features = [''Svelte'', ''Components'', ''Reactivity'']\<rparr>
      else if truthy_opt (obj_get deps ''@angular/core'') then
        Some \<lparr>fw_type = angular, fw_version = obj_get deps ''@angular/core'',
          fw_features = [''Angular'', ''Components'', ''Services'']\<rparr>
      else if truthy_opt (obj_get deps ''express'') then
        Some \<lparr>fw_type = express, fw_version = obj_get deps ''express'',
          fw_features = [''Express'', ''Middleware'', ''REST API'']\<rparr>
      else None)"

definition store_detectFramework :: "json_parser \<Rightarrow> string obj \<Rightarrow> FrameworkInfo" where
  "store_detectFramework JSON_parse files =
     (case obj_get files ''package.json'' of
        None \<Rightarrow> store_vanilla
      | Some packageJson \<Rightarrow>
          if packageJson = [] then store_vanilla
          else
            (case try_catch
                    (case JSON_parse packageJson of
                       None \<Rightarrow> Inl (SyntaxError ''Unexpected token'')
                     | Some pkg \<Rightarrow>
                         (case manifest_deps pkg of
                            Inl e \<Rightarrow> Inl e
                          | Inr deps \<Rightarrow> Inr (store_framework_of_deps deps)))
                    (\<lambda>error. Inr None)
             of Inr (Some info) \<Rightarrow> info
              | _ \<Rightarrow> store_vanilla))"

text \<open>
  The classification as the specification words it: a priority list of rules, each a
  dependency with the type it gives and, for two of them, a second dependency that refines
  the type; the first rule whose dependency is declared wins, and no match is \<open>vanilla\<close>.
\<close>

definition priority_rules :: "(string \<times> framework_type \<times> (string \<times> framework_type) option) list" where
  "priority_rules =
     [(''react'', react, Some (''next'', nextjs)),
      (''vue'', vue, Some (''nuxt'', nuxt)),
      (''svelte'', svelte, None),
      (''@angular/core'', angular, None),
      (''express'', express, None),
      (''fastify'', fastify, None)]"

fun first_match ::
  "(string \<times> framework_type \<times> (string \<times> framework_type) option) list \<Rightarrow> (string \<Rightarrow> bool)
     \<Rightarrow> framework_type" where
  "first_match [] declared = vanilla"
| "first_match ((dep, t, refine) # rules) declared =
     (if declared dep
      then (case refine of
              None \<Rightarrow> t
            | Some (dep', t') \<Rightarrow> if declared dep' then t' else t)
      else first_match rules declared)"

text \<open>
  The merged dependency table of a FileMap, empty when there is no manifest or an empty
  one, when the manifest does not parse or when reading it throws; a dependency is declared when its
  entry in the table is truthy, which is the test the code applies.
\<close>

definition dependency_table :: "json_parser \<Rightarrow> string obj \<Rightarrow> json obj" where
  "dependency_table JSON_parse files =
     (case obj_get files ''package.json'' of
        None \<Rightarrow> []
      | Some text \<Rightarrow>
          if text = [] then []
          else (case JSON_parse text of
                  None \<Rightarrow> []
                | Some pkg \<Rightarrow> (case manifest_deps pkg of Inl e \<Rightarrow> [] | Inr deps \<Rightarrow> deps)))"

definition declares :: "json_parser \<Rightarrow> string obj \<Rightarrow> string \<Rightarrow> bool" where
  "declares JSON_parse files dep = truthy_opt (obj_get (dependency_table JSON_parse files) dep)"

text \<open>A manifest whose only dependency is fastify.\<close>

definition fastify_manifest :: string where
  \<open>fastify_manifest = ''{"dependencies":{"fastify":"4.0.0"}}''\<close>

section \<open>The streaming inference dispatcher (multiProviderService.ts)\<close>

text \<open>
  The network is an argument: \<open>fetch\<close> answers a request with a rejection (a network
  failure, or the \<open>AbortError\<close> of the timeout, which is cleared as soon as \<open>fetch\<close>
  resolves) or with a response. A response body is the list of text chunks that the
  reader delivers, decoded, and the error of the read that fails after them, if one does;
  a response without a body has \<open>None\<close>. What a call does besides returning is recorded:
  the requests it sent and the texts it passed to the \<open>onStream\<close> callback, in order. The
  callback itself is taken not to throw.
\<close>

record request =
  req_url :: string
  req_method :: string
  req_headers :: "(string \<times> string) list"
  req_body :: json
  req_timeout :: int

record response =
  resp_ok :: bool
  resp_status :: int
  resp_statusText :: string
  resp_body :: "(string list \<times> error option) option"

type_synonym fetcher = "request \<Rightarrow> error + response"

record effects =
  requests :: "request list"
  callbacks :: "string list"

definition no_effects :: effects where
  "no_effects = \<lparr>requests = [], callbacks = []\<rparr>"

text \<open>
  The loop \<open>for (const line of lines)\<close> with a body that may \<open>break\<close>: the body returns
  \<open>None\<close> to break, which leaves the loop with the state as it is.
\<close>

fun for_lines :: "(string \<Rightarrow> 's \<Rightarrow> 's option) \<Rightarrow> string list \<Rightarrow> 's \<Rightarrow> 's" where
  "for_lines body [] st = st"
| "for_lines body (line # lines) st =
     (case body line st of None \<Rightarrow> st | Some st' \<Rightarrow> for_lines body lines st')"

text \<open>
  The read loop that the four adapters share: each chunk is appended to the buffer, the
  buffer is split at line feeds, the last piece stays in the buffer and the pieces before
  it are the lines to handle. The state is the accumulated text and the callback texts.
\<close>

type_synonym stream_state = "string \<times> string list"

fun read_stream ::
  "(string \<Rightarrow> stream_state \<Rightarrow> stream_state option) \<Rightarrow> string list \<Rightarrow> string \<Rightarrow> stream_state
     \<Rightarrow> stream_state" where
  "read_stream body [] buffer st = st"
| "read_stream body (chunk # chunks) buffer st =
     (let lines = js_split (CHR 0x0A) (buffer @ chunk);
          buffer' = (case pop lines of None \<Rightarrow> [] | Some l \<Rightarrow> l)
      in read_stream body chunks buffer' (for_lines body (butlast lines) st))"

text \<open>\<open>fullText += content; if (onStream) onStream(fullText)\<close>.\<close>

definition accumulate :: "bool \<Rightarrow> string \<Rightarrow> stream_state \<Rightarrow> stream_state" where
  "accumulate has_onStream content st =
     (let fullText = fst st @ content
      in (fullText, if has_onStream then snd st @ [fullText] else snd st))"

text \<open>
  \<open>v || ''\<close> put into a string: the text of a truthy value, else the empty string. The
  conversion of the value can throw.
\<close>

definition text_or_empty :: "json option \<Rightarrow> error + string" where
  "text_or_empty v = (if truthy_opt v then ToString_opt v else Inr [])"

text \<open>
  The body of the line loop of the newline-delimited JSON adapter. A line that does not
  parse, whose value is \<open>null\<close>, or whose text cannot be converted throws inside the \<open>try\<close>
  and is skipped.
\<close>

definition ollama_line :: "json_parser \<Rightarrow> bool \<Rightarrow> string \<Rightarrow> stream_state \<Rightarrow> stream_state option" where
  "ollama_line JSON_parse has_onStream line st =
     (if trim line = [] then Some st
      else (case JSON_parse line of
              None \<Rightarrow> Some st
            | Some data \<Rightarrow>
                (case read_prop (Some data) ''done'' of
                   Inl e \<Rightarrow> Some st
                 | Inr done \<Rightarrow>
                     if truthy_opt done then None
                     else (case read_prop (Some data) ''response'' of
                             Inl e \<Rightarrow> Some st
                           | Inr r \<Rightarrow>
                               (case text_or_empty r of
                                  Inl e \<Rightarrow> Some st
                                | Inr content \<Rightarrow> Some (accumulate has_onStream content st))))))"

text \<open>
  The body of the line loop of the two chat-completion adapters (OpenAI and OpenRouter):
  \<open>data.choices?.[0]?.delta?.content\<close>.
\<close>

definition chat_line :: "json_parser \<Rightarrow> bool \<Rightarrow> string \<Rightarrow> stream_state \<Rightarrow> stream_state option" where
  "chat_line JSON_parse has_onStream line st =
     (if trim line = [] then Some st
      else if startsWith line ''data: '' then
        (let dataStr = drop 6 line
         in if dataStr = ''[DONE]'' then None
            else (case JSON_parse dataStr of
                    None \<Rightarrow> Some st
                  | Some data \<Rightarrow>
                      (case read_prop (Some data) ''choices'' of
                         Inl e \<Rightarrow> Some st
                       | Inr choices \<Rightarrow>
                           (case text_or_empty
                                   (opt_prop (opt_prop (opt_first choices) ''delta'') ''content'') of
                              Inl e \<Rightarrow> Some st
                            | Inr content \<Rightarrow> Some (accumulate has_onStream content st)))))
      else Some st)"

text \<open>The body of the line loop of the Anthropic adapter.\<close>

definition anthropic_line :: "json_parser \<Rightarrow> bool \<Rightarrow> string \<Rightarrow> stream_state \<Rightarrow> stream_state option" where
  "anthropic_line JSON_parse has_onStream line st =
     (if trim line = [] then Some st
      else if startsWith line ''data: '' then
        (let dataStr = drop 6 line
         in if dataStr = ''[DONE]'' then None
            else (case JSON_parse dataStr of
                    None \<Rightarrow> Some st
                  | Some data \<Rightarrow>
                      (case read_prop (Some data) ''type'' of
                         Inl e \<Rightarrow> Some st
                       | Inr ty \<Rightarrow>
                           if strict_eq ty (Some (JStr ''content_block_delta''))
                           then (case read_prop (Some data) ''delta'' of
                                   Inl e \<Rightarrow> Some st
                                 | Inr delta \<Rightarrow>
                                     (case text_or_empty (opt_prop delta ''text'') of
                                        Inl e \<Rightarrow> Some st
                                      | Inr content \<Rightarrow>
                                          Some (accumulate has_onStream content st)))
                           else Some st)))
      else Some st)"

text \<open>
  What follows \<open>fetch\<close> in every adapter: the status check, the reader, the read loop and
  the final \<open>return fullText || fallback\<close>.
\<close>

definition consume ::
  "string \<Rightarrow> string \<Rightarrow> (string \<Rightarrow> stream_state \<Rightarrow> stream_state option) \<Rightarrow> request
     \<Rightarrow> error + response \<Rightarrow> (error + string) \<times> effects" where
  "consume api fallback body req fetched =
     (case fetched of
        Inl e \<Rightarrow> (Inl e, \<lparr>requests = [req], callbacks = []\<rparr>)
      | Inr response \<Rightarrow>
          if \<not> resp_ok response
          then (Inl (Error (api @ '' API error: '' @ show_int (resp_status response) @ '' ''
                             @ resp_statusText response)),
                \<lparr>requests = [req], callbacks = []\<rparr>)
          else (case resp_body response of
                  None \<Rightarrow> (Inl (Error ''Unable to read response stream''),
                            \<lparr>requests = [req], callbacks = []\<rparr>)
                | Some (chunks, failure) \<Rightarrow>
                    (let st = read_stream body chunks [] ([], [])
                     in (case failure of
                           Some e \<Rightarrow> Inl e
                         | None \<Rightarrow> Inr (if fst st = [] then fallback else fst st),
                         \<lparr>requests = [req], callbacks = snd st\<rparr>))))"

text \<open>
  The adapters build the address and the credential header with template literals and
  header values, which convert what the provider configuration holds to text; where that
  conversion throws, the adapter throws before any request is sent.
\<close>

definition or_default :: "json \<Rightarrow> string \<Rightarrow> json" where
  "or_default modelId d = (if truthy modelId then modelId else JStr d)"

definition generateOllamaResponse ::
  "json_parser \<Rightarrow> fetcher \<Rightarrow> json obj \<Rightarrow> string \<Rightarrow> string \<Rightarrow> bool \<Rightarrow> json
     \<Rightarrow> (error + string) \<times> effects" where
  "generateOllamaResponse JSON_parse fetch provider prompt systemInstruction has_onStream modelId =
     (let fullPrompt = systemInstruction @ [CHR 0x0A, CHR 0x0A] @ ''User: '' @ prompt
                         @ [CHR 0x0A] @ ''Assistant:''
      in (case ToString_opt (map_of provider ''baseUrl'') of
            Inl e \<Rightarrow> (Inl e, no_effects)
          | Inr baseUrl \<Rightarrow>
              (let req = \<lparr>req_url = baseUrl @ ''/api/generate'',
                          req_method = ''POST'',
                          req_headers = [(''Content-Type'', ''application/json'')],
                          req_body = JObj [(''model'', or_default modelId ''qwen2.5:0.5b''),
                                           (''prompt'', JStr fullPrompt),
                                           (''stream'', JBool True),
                                           (''options'', JObj [(''temperature'', JNum ''0.1''),
                                                               (''top_p'', JNum ''0.9''),
                                                               (''top_k'', JNum ''40''),
                                                               (''num_predict'', JNum ''1024''),
                                                               (''num_ctx'', JNum ''2048'')])],
                          req_timeout = 30000\<rparr>
               in consume ''Ollama'' ''No response generated. The model may still be loading.''
                    (ollama_line JSON_parse has_onStream) req (fetch req))))"

definition chat_body :: "json \<Rightarrow> string \<Rightarrow> string \<Rightarrow> json" where
  "chat_body model systemInstruction prompt =
     JObj [(''model'', model),
           (''messages'', JArr [JObj [(''role'', JStr ''system''), (''content'', JStr systemInstruction)],
                                JObj [(''role'', JStr ''user''), (''content'', JStr prompt)]]),
           (''stream'', JBool True),
           (''temperature'', JNum ''0.1''),
           (''max_tokens'', JNum ''1024'')]"

definition generateOpenRouterResponse ::
  "json_parser \<Rightarrow> fetcher \<Rightarrow> string \<Rightarrow> json obj \<Rightarrow> string \<Rightarrow> string \<Rightarrow> bool \<Rightarrow> json
     \<Rightarrow> (error + string) \<times> effects" where
  "generateOpenRouterResponse JSON_parse fetch origin provider prompt systemInstruction has_onStream
       modelId =
     (if \<not> truthy_opt (map_of provider ''apiKey'')
      then (Inl (Error ''OpenRouter API key not configured''), no_effects)
      else (case ToString_opt (map_of provider ''baseUrl'') of
              Inl e \<Rightarrow> (Inl e, no_effects)
            | Inr baseUrl \<Rightarrow>
                (case ToString_opt (map_of provider ''apiKey'') of
                   Inl e \<Rightarrow> (Inl e, no_effects)
                 | Inr apiKey \<Rightarrow>
                     (let req = \<lparr>req_url = baseUrl @ ''/chat/completions'',
                                 req_method = ''POST'',
                                 req_headers = [(''Authorization'', ''Bearer '' @ apiKey),
                                                (''Content-Type'', ''application/json''),
                                                (''HTTP-Referer'', origin),
                                                (''X-Title'', ''Code Architect'')],
                                 req_body = chat_body (or_default modelId ''openai/gpt-oss-120b:free'')
                                              systemInstruction prompt,
                                 req_timeout = 60000\<rparr>
                      in consume ''OpenRouter'' ''No response generated.''
                           (chat_line JSON_parse has_onStream) req (fetch req)))))"

definition generateOpenAIResponse ::
  "json_parser \<Rightarrow> fetcher \<Rightarrow> json obj \<Rightarrow> string \<Rightarrow> string \<Rightarrow> bool \<Rightarrow> json
     \<Rightarrow> (error + string) \<times> effects" where
  "generateOpenAIResponse JSON_parse fetch provider prompt systemInstruction has_onStream modelId =
     (if \<not> truthy_opt (map_of provider ''apiKey'')
      then (Inl (Error ''OpenAI API key not configured''), no_effects)
      else (case ToString_opt (map_of provider ''baseUrl'') of
              Inl e \<Rightarrow> (Inl e, no_effects)
            | Inr baseUrl \<Rightarrow>
                (case ToString_opt (map_of provider ''apiKey'') of
                   Inl e \<Rightarrow> (Inl e, no_effects)
                 | Inr apiKey \<Rightarrow>
                     (let req = \<lparr>req_url = baseUrl @ ''/chat/completions'',
                                 req_method = ''POST'',
                                 req_headers = [(''Authorization'', ''Bearer '' @ apiKey),
                                                (''Content-Type'', ''application/json'')],
                                 req_body = chat_body (or_default modelId ''gpt-4o-mini'')
                                              systemInstruction prompt,
                                 req_timeout = 60000\<rparr>
                      in consume ''OpenAI'' ''No response generated.''
                           (chat_line JSON_parse has_onStream) req (fetch req)))))"

definition generateAnthropicResponse ::
  "json_parser \<Rightarrow> fetcher \<Rightarrow> json obj \<Rightarrow> string \<Rightarrow> string \<Rightarrow> bool \<Rightarrow> json
     \<Rightarrow> (error + string) \<times> effects" where
  "generateAnthropicResponse JSON_parse fetch provider prompt systemInstruction has_onStream modelId =
     (if \<not> truthy_opt (map_of provider ''apiKey'')
      then (Inl (Error ''Anthropic API key not configured''), no_effects)
      else (case ToString_opt (map_of provider ''baseUrl'') of
              Inl e \<Rightarrow> (Inl e, no_effects)
            | Inr baseUrl \<Rightarrow>
                (case ToString_opt (map_of provider ''apiKey'') of
                   Inl e \<Rightarrow> (Inl e, no_effects)
                 | Inr apiKey \<Rightarrow>
                     (let req = \<lparr>req_url = baseUrl @ ''/messages'',
                        req_method = ''POST'',
                        req_headers = [(''x-api-key'', apiKey),
                                       (''Content-Type'', ''application/json''),
                                       (''anthropic-version'', ''2023-06-01'')],
                        req_body = JObj [(''model'', or_default modelId ''claude-3-5-haiku-20241022''),
                                         (''system'', JStr systemInstruction),
                                         (''messages'', JArr [JObj [(''role'', JStr ''user''),
                                                                    (''content'', JStr prompt)]]),
                                         (''stream'', JBool True),
                                         (''max_tokens'', JNum ''1024''),
                                         (''temperature'', JNum ''0.1'')],
                        req_timeout = 60000\<rparr>
            in consume ''Anthropic'' ''No response generated.''
                 (anthropic_line JSON_parse has_onStream) req (fetch req)))))"

text \<open>
  \<open>modelId || provider.models[0]?.id || 'qwen2.5:0.5b'\<close>: the catalog is read only when
  no model id is given, and reading \<open>[0]\<close> of a catalog that is absent or \<open>null\<close> throws.
\<close>

definition first_model_id :: "json obj \<Rightarrow> error + json option" where
  "first_model_id provider =
     (case map_of provider ''models'' of
        None \<Rightarrow> Inl (TypeError ''Cannot read properties of undefined (reading 0)'')
      | Some JNull \<Rightarrow> Inl (TypeError ''Cannot read properties of null (reading 0)'')
      | Some models \<Rightarrow> Inr (opt_prop (first_elem models) ''id''))"

definition selectModel :: "json obj \<Rightarrow> string option \<Rightarrow> error + json" where
  "selectModel provider modelId =
     (if modelId \<noteq> None \<and> modelId \<noteq> Some []
      then Inr (JStr (case modelId of None \<Rightarrow> [] | Some m \<Rightarrow> m))
      else (case first_model_id provider of
              Inl e \<Rightarrow> Inl e
            | Inr None \<Rightarrow> Inr (JStr ''qwen2.5:0.5b'')
            | Inr (Some first) \<Rightarrow> Inr (if truthy first then first else JStr ''qwen2.5:0.5b'')))"

text \<open>
  The top-level entry point. Everything runs inside its \<open>try\<close>; the handler turns what
  was thrown into a text. \<open>origin\<close> is \<open>window.location.origin\<close>.
\<close>

definition dispatch ::
  "json_parser \<Rightarrow> fetcher \<Rightarrow> string \<Rightarrow> registry \<Rightarrow> string \<Rightarrow> string \<Rightarrow> bool \<Rightarrow> string option
     \<Rightarrow> (error + string) \<times> effects" where
  "dispatch JSON_parse fetch origin reg prompt systemInstruction has_onStream modelId =
     (case getActiveProvider JSON_parse reg of
        None \<Rightarrow> (Inr ''No AI provider configured. Please check your settings.'', no_effects)
      | Some provider \<Rightarrow>
          (case selectModel provider modelId of
             Inl e \<Rightarrow> (Inl e, no_effects)
           | Inr selectedModelId \<Rightarrow>
               if strict_eq (map_of provider ''name'') (Some (JStr ''Ollama''))
               then generateOllamaResponse JSON_parse fetch provider prompt systemInstruction
                      has_onStream selectedModelId
               else if strict_eq (map_of provider ''name'') (Some (JStr ''OpenAI''))
               then generateOpenAIResponse JSON_parse fetch provider prompt systemInstruction
                      has_onStream selectedModelId
               else if strict_eq (map_of provider ''name'') (Some (JStr ''Anthropic''))
               then generateAnthropicResponse JSON_parse fetch provider prompt systemInstruction
                      has_onStream selectedModelId
               else if strict_eq (map_of provider ''name'') (Some (JStr ''OpenRouter''))
               then generateOpenRouterResponse JSON_parse fetch origin provider prompt
                      systemInstruction has_onStream selectedModelId
               else (case ToString_opt (map_of provider ''name'') of
                       Inl e \<Rightarrow> (Inl e, no_effects)
                     | Inr name \<Rightarrow>
                         (Inr (''Provider '' @ name @ '' not yet supported.''), no_effects))))"

definition generateLocalResponse ::
  "json_parser \<Rightarrow> fetcher \<Rightarrow> string \<Rightarrow> registry \<Rightarrow> string \<Rightarrow> string \<Rightarrow> bool \<Rightarrow> string option
     \<Rightarrow> (error + string) \<times> effects" where
  "generateLocalResponse JSON_parse fetch origin reg prompt systemInstruction has_onStream modelId =
     (let body = dispatch JSON_parse fetch origin reg prompt systemInstruction has_onStream modelId
      in (try_catch (fst body)
            (\<lambda>error. Inr (''Error: '' @ message error
                            @ ''. Please check your provider configuration.'')),
          snd body))"

text \<open>
  The specification's view of the newline-delimited wire. What a line means: a blank line,
  a line that is not JSON, a line whose value is \<open>null\<close> and a line whose text cannot be
  converted are skipped; a line with a truthy \<open>done\<close> ends its batch; every other line
  carries a delta, the text of its \<open>response\<close>, which is empty where \<open>response\<close> is absent
  or falsy.
\<close>

datatype wire_event = Delta string | Done | Skipped

definition ollama_event :: "json_parser \<Rightarrow> string \<Rightarrow> wire_event" where
  "ollama_event JSON_parse line =
     (if trim line = [] then Skipped
      else (case JSON_parse line of
              None \<Rightarrow> Skipped
            | Some JNull \<Rightarrow> Skipped
            | Some data \<Rightarrow>
                if truthy_opt (get_prop data ''done'') then Done
                else (case get_prop data ''response'' of
                        None \<Rightarrow> Delta []
                      | Some r \<Rightarrow>
                          if truthy r
                          then (case ToString r of Inl e \<Rightarrow> Skipped | Inr t \<Rightarrow> Delta t)
                          else Delta [])))"

text \<open>
  The lines that have arrived whole are those a line feed ends. A chunk completes a batch
  of lines; of a batch, the deltas before its first \<open>Done\<close> are heard, in order. The
  callback texts the specification asks for are the running concatenations of the deltas
  heard: the first delta, the first two, and so on.
\<close>

definition wire_lines :: "string \<Rightarrow> string list" where
  "wire_lines wire = butlast (js_split (CHR 0x0A) wire)"

fun batches :: "string list \<Rightarrow> string \<Rightarrow> string list list" where
  "batches [] buffer = []"
| "batches (chunk # chunks) buffer =
     wire_lines (buffer @ chunk) # batches chunks (last (js_split (CHR 0x0A) (buffer @ chunk)))"

fun heard :: "(string \<Rightarrow> wire_event) \<Rightarrow> string list \<Rightarrow> string list" where
  "heard event [] = []"
| "heard event (line # lines) =
     (case event line of
        Done \<Rightarrow> []
      | Skipped \<Rightarrow> heard event lines
      | Delta d \<Rightarrow> d # heard event lines)"

definition wire_deltas :: "(string \<Rightarrow> wire_event) \<Rightarrow> string list \<Rightarrow> string list" where
  "wire_deltas event chunks = concat (map (heard event) (batches chunks []))"

definition running_texts :: "string list \<Rightarrow> string list" where
  "running_texts deltas = map (\<lambda>k. concat (take k deltas)) [1..<Suc (length deltas)]"

text \<open>The same after a text that is already accumulated.\<close>

definition running_from :: "string \<Rightarrow> string list \<Rightarrow> string list" where
  "running_from previous deltas =
     map (\<lambda>k. previous @ concat (take k deltas)) [1..<Suc (length deltas)]"

text \<open>The three lines of the specification's example stream.\<close>

definition response_a_line :: string where
  \<open>response_a_line = ''{"response": "a"}''\<close>

definition response_b_line :: string where
  \<open>response_b_line = ''{"response": "b"}''\<close>

definition done_line :: string where
  \<open>done_line = ''{"done": true}''\<close>

definition example_wire :: string where
  "example_wire = response_a_line @ [CHR 0x0A] @ response_b_line @ [CHR 0x0A] @ done_line @ [CHR 0x0A]"

text \<open>A way the example stream can arrive: three chunks that cut two of the lines.\<close>

definition example_chunks :: "string list" where
  \<open>example_chunks =
     [''{"resp'', ''onse": "a"}'' @ [CHR 0x0A] @ ''{"response": "b"}'' @ [CHR 0x0A] @ ''{"do'',
      ''ne": true}'' @ [CHR 0x0A]]\<close>

definition example_parse :: json_parser where
  "example_parse s =
     (if s = response_a_line then Some (JObj [(''response'', JStr ''a'')])
      else if s = response_b_line then Some (JObj [(''response'', JStr ''b'')])
      else if s = done_line then Some (JObj [(''done'', JBool True)])
      else None)"

text \<open>Two persisted configurations: one that enables no provider, one that enables OpenAI
  and gives it no credential.\<close>

definition stored_none_enabled :: json where
  "stored_none_enabled = JArr [JObj [(''name'', JStr ''Ollama''), (''enabled'', JBool False)]]"

definition stored_openai_without_key :: json where
  "stored_openai_without_key =
     JArr [JObj [(''name'', JStr ''Ollama''), (''enabled'', JBool False)],
           JObj [(''name'', JStr ''OpenAI''), (''enabled'', JBool True)]]"

section \<open>The file-action extractor (localInferenceService.ts)\<close>

definition is_ascii_letter :: "char \<Rightarrow> bool" where
  "is_ascii_letter c = (c \<in> set ''abcdefghijklmnopqrstuvwxyzABCDEFGHIJKLMNOPQRSTUVWXYZ'')"

text \<open>\<open>\w\<close>.\<close>

definition is_word_char :: "char \<Rightarrow> bool" where
  "is_word_char c = (is_ascii_letter c \<or> is_digit c \<or> c = CHR ''_'')"

text \<open>\<open>[a-zA-Z0-9\/\._-]\<close>.\<close>

definition is_path_char :: "char \<Rightarrow> bool" where
  "is_path_char c =
     (is_ascii_letter c \<or> is_digit c \<or> c = CHR ''/'' \<or> c = CHR ''.'' \<or> c = CHR ''_''
      \<or> c = CHR ''-'')"

definition any_char :: "char \<Rightarrow> bool" where
  "any_char c = True"

text \<open>
  \<open>/\[FILE:\s*([a-zA-Z0-9\/\._-]+)\]\s*(?:```[a-z]*\n)?([\s\S]*?)(?:\n?```|\n?\[\/FILE\]|$)/gi\<close>
\<close>

definition fileRegex :: rx where
  "fileRegex =
     seqs [litI ''[FILE:'', Star is_space, Grp 1 (Plus is_path_char), Ch CHR '']'', Star is_space,
           Opt (seqs [lit ''```'', Star is_ascii_letter, Ch (CHR 0x0A)]),
           Grp 2 (LazyStar any_char),
           Alt (seqs [Opt (Ch (CHR 0x0A)), lit ''```''])
            (Alt (seqs [Opt (Ch (CHR 0x0A)), litI ''[/FILE]'']) Eoi)]"

text \<open>\<open>/```(\w+)?\s*\n([\s\S]*?)```/gi\<close>\<close>

definition codeBlockRegex :: rx where
  "codeBlockRegex =
     seqs [lit ''```'', Opt (Grp 1 (Plus is_word_char)), Star is_space, Ch (CHR 0x0A),
           Grp 2 (LazyStar any_char), lit ''```'']"

text \<open>\<open>/(?:\/\/|#|<!--|--)\s*(?:file|filename|name):\s*([^\n\r]+)/i\<close>\<close>

definition filenameRegex :: rx where
  "filenameRegex =
     seqs [Alt (lit ''//'') (Alt (lit ''#'') (Alt (lit ''<!--'') (lit ''--''))),
           Star is_space,
           Alt (litI ''file'') (Alt (litI ''filename'') (litI ''name'')),
           Ch CHR '':'', Star is_space,
           Grp 1 (Plus (\<lambda>c. c \<noteq> CHR 0x0A \<and> c \<noteq> CHR 0x0D))]"

definition extensions :: "(string \<times> string) list" where
  "extensions =
     [(''javascript'', ''js''), (''js'', ''js''), (''jsx'', ''jsx''), (''typescript'', ''ts''),
      (''ts'', ''ts''), (''tsx'', ''tsx''), (''python'', ''py''), (''py'', ''py''),
      (''html'', ''html''), (''htm'', ''html''), (''css'', ''css''), (''scss'', ''scss''),
      (''sass'', ''sass''), (''less'', ''less''), (''json'', ''json''), (''xml'', ''xml''),
      (''yaml'', ''yaml''), (''yml'', ''yml''), (''markdown'', ''md''), (''md'', ''md''),
      (''sql'', ''sql''), (''bash'', ''sh''), (''shell'', ''sh''), (''java'', ''java''),
      (''cpp'', ''cpp''), (''c'', ''c''), (''csharp'', ''cs''), (''cs'', ''cs''), (''php'', ''php''),
      (''ruby'', ''rb''), (''rb'', ''rb''), (''go'', ''go''), (''rust'', ''rs''), (''rs'', ''rs'')]"

text \<open>
  \<open>extensions[language] || 'txt'\<close>. The table is a plain object, so the two language tags
  that name a property every object inherits get that property's text: \<open>constructor\<close> the
  source text of the \<open>Object\<close> function (as V8 prints it) and \<open>__proto__\<close> the text of the
  prototype object.
\<close>

definition extension_for :: "string \<Rightarrow> string" where
  "extension_for language =
     (case map_of extensions language of
        Some ext \<Rightarrow> ext
      | None \<Rightarrow>
          if language = ''constructor'' then ''function Object() { [native code] }''
          else if language = ''__proto__'' then ''[object Object]''
          else ''txt'')"

definition generateFilename :: "string \<Rightarrow> int \<Rightarrow> string \<Rightarrow> string" where
  "generateFilename language index content =
     (case rx_search filenameRegex content of
        Some (pre, filenameMatch, rest) \<Rightarrow> trim (cap filenameMatch 1)
      | None \<Rightarrow>
          (let ext = extension_for language
           in if language = ''html'' \<and> index = 0 then ''index.html''
              else if language = ''css'' \<and> index = 0 then ''styles.css''
              else if (language = ''javascript'' \<or> language = ''js'')
                      \<and> (str_includes content ''React'' \<or> str_includes content ''import React'')
              then ''component'' @ show_int (index + 1) @ ''.jsx''
              else if (language = ''javascript'' \<or> language = ''js'')
                      \<and> (str_includes content ''function'' \<or> str_includes content ''const''
                           \<or> str_includes content ''let'')
              then ''script'' @ show_int (index + 1) @ ''.js''
              else language @ show_int (index + 1) @ ''.'' @ ext))"

text \<open>
  The loop of \<open>extractCodeBlocks\<close> over the matches, with the block index and the object
  under construction.
\<close>

fun code_blocks_loop :: "caps list \<Rightarrow> int \<Rightarrow> string obj \<Rightarrow> string obj" where
  "code_blocks_loop [] blockIndex files = files"
| "code_blocks_loop (match # matches) blockIndex files =
     (let language = (case match 1 of
                        None \<Rightarrow> ''text''
                      | Some l \<Rightarrow> if toLowerCase l = [] then ''text'' else toLowerCase l);
          content = trim (cap match 2)
      in if content \<noteq> [] \<and> length content > 10
         then code_blocks_loop matches (blockIndex + 1)
                (assign_prop (generateFilename language blockIndex content) content files)
         else code_blocks_loop matches blockIndex files)"

definition extractCodeBlocks :: "string \<Rightarrow> string obj" where
  "extractCodeBlocks text = code_blocks_loop (rx_exec_all codeBlockRegex text) 0 []"

definition extractFiles :: "json_parser \<Rightarrow> string \<Rightarrow> string obj" where
  "extractFiles JSON_parse text =
     (let files = fold (\<lambda>match files.
                          (let filename = trim (cap match 1);
                               content = trim (cap match 2);
                               properFilename = ensureProperExtension JSON_parse filename content
                           in assign_prop properFilename content files))
                       (rx_exec_all fileRegex text) []
      in if length (obj_keys files) = 0 then obj_assign files (extractCodeBlocks text)
         else files)"

section \<open>Applying the file actions (store of the application)\<close>

text \<open>
  \<open>/\[CREATE:\s*([^\]]+)\]\s*\n([\s\S]*?)\n\[\/CREATE\]/g\<close> and the same for \<open>MODIFY\<close>.
\<close>

definition actionRegex :: "string \<Rightarrow> rx" where
  "actionRegex tag =
     seqs [lit (''['' @ tag @ '':''), Star is_space, Grp 1 (Plus (\<lambda>c. c \<noteq> CHR '']'')),
           Ch CHR '']'', Star is_space, Ch (CHR 0x0A), Grp 2 (LazyStar any_char), Ch (CHR 0x0A),
           lit (''[/'' @ tag @ '']'')]"

definition createRegex :: rx where
  "createRegex = actionRegex ''CREATE''"

definition modifyRegex :: rx where
  "modifyRegex = actionRegex ''MODIFY''"

text \<open>
  The store module imports \<open>create\<close> from zustand, its types, and \<open>initEngine\<close>,
  \<open>generateLocalResponse\<close>, \<open>extractFiles\<close>, \<open>distillProject\<close>, \<open>AVAILABLE_MODELS\<close> and
  \<open>getActiveProvider\<close> from the provider service. It neither imports nor declares
  \<open>apiClient\<close>, so evaluating that name throws, before any argument of the call it heads
  is evaluated.
\<close>

definition apiClient_unbound :: error where
  "apiClient_unbound = ReferenceError ''apiClient is not defined''"

text \<open>
  \<open>processAICodeActions\<close> runs once for each match of the two patterns, creations first: it
  logs the attempt, the call \<open>apiClient.executeAIOperation(...)\<close> inside the \<open>try\<close> throws
  as said, and the \<open>catch\<close> logs the failure. No operation reaches the file-system
  collaborator; what the function does is what it writes to the console.
\<close>

datatype console_entry = ConsoleLog string | ConsoleError string error

definition processAICodeActions :: "string \<Rightarrow> console_entry list" where
  "processAICodeActions aiResponse =
     concat (map (\<lambda>match. [ConsoleLog (''AI creating file: '' @ cap match 1),
                             ConsoleError (''Failed to create file '' @ cap match 1 @ '':'')
                               apiClient_unbound])
               (rx_exec_all createRegex aiResponse))
     @ concat (map (\<lambda>match. [ConsoleLog (''AI modifying file: '' @ cap match 1),
                               ConsoleError (''Failed to modify file '' @ cap match 1 @ '':'')
                                 apiClient_unbound])
                 (rx_exec_all modifyRegex aiResponse))"

text \<open>
  The text of one \<open>CREATE\<close> block as the code-generation prompt asks for it, and a model
  output built from such blocks, one after the other, each followed by a line feed.
\<close>

definition create_block :: "string \<Rightarrow> string \<Rightarrow> string" where
  "create_block path content =
     ''[CREATE: '' @ path @ '']'' @ [CHR 0x0A] @ content @ [CHR 0x0A] @ ''[/CREATE]''"

definition create_blocks :: "(string \<times> string) list \<Rightarrow> string" where
  "create_blocks blocks =
     concat (map (\<lambda>(path, content). create_block path content @ [CHR 0x0A]) blocks)"

text \<open>
  A block is well formed when its path has no closing bracket and is not blank, and its
  content is not blank and does not hold the closing line of a block.
\<close>

definition well_formed_create :: "string \<Rightarrow> string \<Rightarrow> bool" where
  "well_formed_create path content =
     (CHR '']'' \<notin> set path \<and> trim path \<noteq> [] \<and> trim content \<noteq> []
      \<and> \<not> str_includes content (CHR 0x0A # ''[/CREATE]''))"

definition example_blocks :: "(string \<times> string) list" where
  "example_blocks = [(''src/a.txt'', ''hello world''), (''src/b.js'', ''let x = [1];'')]"

section \<open>The session store (store of the application)\<close>

text \<open>
  The store keeps the FileMap, the active file, the conversation log, the live-writing
  flag and the status log; its layout and model-loading fields play no part here.
  \<open>activeFile\<close> is \<open>None\<close> where the source would leave it \<open>undefined\<close>.
\<close>

datatype ChatMode = ask | plan | agent | debug

datatype Role = user | assistant | system

record ChatMessage =
  msg_id :: string
  msg_role :: Role
  msg_content :: string
  msg_timestamp :: int
  msg_mode :: "ChatMode option"

type_synonym FileMap = "string obj"

record AppState =
  files :: FileMap
  activeFile :: "string option"
  messages :: "ChatMessage list"
  liveWritingFile :: "string option"
  statusLog :: "string list"




definition deleteFile :: "string \<Rightarrow> AppState \<Rightarrow> AppState" where
  "deleteFile path state =
     (if length (obj_keys (files state)) \<le> 1 then state
      else (let nextFiles = obj_delete path (files state)
            in state\<lparr>files := nextFiles,
                     activeFile := (if activeFile state = Some path
                                    then (case obj_keys nextFiles of [] \<Rightarrow> None | k # _ \<Rightarrow> Some k)
                                    else activeFile state)\<rparr>))"

text \<open>
  What the mode handlers take from outside. The prompt texts are string templates over the
  request and the project state; they are given by \<open>prompts\<close>, one text for each prompt the
  handlers build (the code-generation prompt embeds the requirements that the first call
  of agent mode returned). \<open>respond prompt systemInstruction\<close> is the call
  \<open>generateLocalResponse(prompt, systemInstruction, undefined, selectedModel)\<close>.
  \<open>clock k\<close> is the \<open>k\<close>-th reading of \<open>Date.now()\<close> that a run of \<open>orchestrate\<close> makes,
  counted from 0: the user message takes the readings 0 and 1 (its id and its time stamp),
  the message of the handler the readings 2 and 3.
\<close>

datatype prompt_kind =
  AskPrompt | PlanPrompt | AnalysisPrompt | CodePrompt string | DebugPrompt

record environment =
  prompts :: "prompt_kind \<Rightarrow> string"
  respond :: "string \<Rightarrow> string \<Rightarrow> error + string"
  json_parse :: json_parser
  clock :: "nat \<Rightarrow> int"

fun type_name :: "framework_type \<Rightarrow> string" where
  "type_name vanilla = ''vanilla''"
| "type_name react = ''react''"
| "type_name vue = ''vue''"
| "type_name nextjs = ''nextjs''"
| "type_name nuxt = ''nuxt''"
| "type_name svelte = ''svelte''"
| "type_name angular = ''angular''"
| "type_name express = ''express''"
| "type_name fastify = ''fastify''"

definition log :: "string \<Rightarrow> AppState \<Rightarrow> AppState" where
  "log msg state = state\<lparr>statusLog := statusLog state @ [msg]\<rparr>"

definition append_message :: "ChatMessage \<Rightarrow> AppState \<Rightarrow> AppState" where
  "append_message m state = state\<lparr>messages := messages state @ [m]\<rparr>"

text \<open>
  The message literal holds a symbol outside Latin-1; it is written here by its UTF-8
  bytes. Nothing in the model looks inside it.
\<close>

definition clipboard_symbol :: string where "clipboard_symbol = [CHR 0xF0, CHR 0x9F, CHR 0x93, CHR 0x8B]"

definition planMessage :: "environment \<Rightarrow> string \<Rightarrow> ChatMessage" where
  "planMessage env planText =
     \<lparr>msg_id = show_int (clock env 2), msg_role = assistant,
      msg_content = clipboard_symbol @ '' **Implementation Plan**'' @ [CHR 0x0A, CHR 0x0A] @ planText,
      msg_timestamp = clock env 3, msg_mode = Some plan\<rparr>"

text \<open>The system instruction of the call that the \<open>catch\<close> block of plan mode makes.\<close>

definition plan_fallback_instruction :: "string \<Rightarrow> string" where
  "plan_fallback_instruction frameworkType =
     ''You are a senior '' @ frameworkType @ '' architect. Create detailed, actionable ''
     @ ''implementation plans that leverage existing codebase patterns and follow ''
     @ ''framework conventions.''"

definition store_framework_name :: "environment \<Rightarrow> AppState \<Rightarrow> string" where
  "store_framework_name env projectState =
     type_name (fw_type (store_detectFramework (json_parse env) (files projectState)))"

text \<open>
  The \<open>try\<close> block of \<open>handlePlanMode\<close>. Its first statement is
  \<open>await apiClient.createFile(planFileName, initialPlanContent)\<close>, which throws because
  \<open>apiClient\<close> is not bound. The statements after it (the plan file put into the FileMap,
  the live-writing flag, the model call, the live-writing loop and the summary message)
  are never reached, so the block is that throw, with the state as it stands.
\<close>

definition plan_try :: "AppState \<Rightarrow> (error + unit) \<times> AppState" where
  "plan_try state = (Inl apiClient_unbound, state)"

text \<open>The \<open>catch\<close> block: the plan is asked for and posted as a chat message.\<close>

definition plan_catch ::
  "environment \<Rightarrow> string \<Rightarrow> AppState \<Rightarrow> (error + unit) \<times> AppState" where
  "plan_catch env frameworkType state =
     (case respond env (prompts env PlanPrompt) (plan_fallback_instruction frameworkType) of
        Inl e \<Rightarrow> (Inl e, state)
      | Inr planText \<Rightarrow>
          (let s1 = log ''Plan generated (file creation failed, showing in chat)'' state;
               s2 = s1\<lparr>liveWritingFile := None\<rparr>
           in (Inr (), append_message (planMessage env planText) s2)))"

text \<open>
  \<open>handlePlanMode\<close>. After the \<open>try\<close>/\<open>catch\<close> comes one more \<open>set\<close>, whose function reads
  \<open>plan\<close>; that name is declared by \<open>const\<close> inside the \<open>catch\<close> block only, so the read
  throws a \<open>ReferenceError\<close> before anything is stored.
\<close>

definition handlePlanMode ::
  "environment \<Rightarrow> string \<Rightarrow> AppState \<Rightarrow> AppState \<Rightarrow> (error + unit) \<times> AppState" where
  "handlePlanMode env request projectState state =
     (let s0 = log ''Creating Implementation Plan - Writing to PLAN.md'' state;
          frameworkType = store_framework_name env projectState;
          attempt = plan_try s0;
          handled = (case fst attempt of
                       Inl e \<Rightarrow> plan_catch env frameworkType (snd attempt)
                     | Inr u \<Rightarrow> attempt)
      in (case fst handled of
            Inl e \<Rightarrow> handled
          | Inr u \<Rightarrow> (Inl (ReferenceError ''plan is not defined''), snd handled)))"












section \<open>Facts about objects\<close>

lemma obj_keys_simps [simp]: "obj_keys [] = []" "obj_keys ((k, v) # m) = k # obj_keys m"
  "obj_keys (m @ m') = obj_keys m @ obj_keys m'"
  by (simp_all add: obj_keys_def)

lemma map_of_obj_insert_index:
  "k \<notin> set (obj_keys m) \<Longrightarrow> map_of (obj_insert_index k v m) x = (if x = k then Some v else map_of m x)"
  by (induction m) auto

lemma map_of_obj_update:
  "map_of (map (\<lambda>(k', v'). if k' = k then (k', v) else (k', v')) m) x
     = (if x = k then (if k \<in> set (obj_keys m) then Some v else None) else map_of m x)"
  by (induction m) auto

lemma map_of_append_new:
  "k \<notin> set (obj_keys m) \<Longrightarrow> map_of (m @ [(k, v)]) x = (if x = k then Some v else map_of m x)"
  by (induction m) auto

lemma map_of_obj_set: "map_of (obj_set k v m) x = (if x = k then Some v else map_of m x)"
  by (simp add: obj_set_def map_of_obj_insert_index map_of_obj_update map_of_append_new
        del: map_of_append)

lemma obj_keys_obj_set: "set (obj_keys (obj_set k v m)) = insert k (set (obj_keys m))"
proof -
  have "\<And>x. (map_of (obj_set k v m) x \<noteq> None) = (x = k \<or> map_of m x \<noteq> None)"
    by (simp add: map_of_obj_set)
  then show ?thesis
    by (auto simp: obj_keys_def map_of_eq_None_iff)
qed

lemma obj_entries_aux:
  "distinct (obj_keys es) \<Longrightarrow>
   distinct (obj_keys (fold (\<lambda>(k, v) es. if k \<in> set (obj_keys es) then es else es @ [(k, v)]) m es))
   \<and> (\<forall>x. map_of (fold (\<lambda>(k, v) es. if k \<in> set (obj_keys es) then es else es @ [(k, v)]) m es) x
       = (case map_of es x of Some y \<Rightarrow> Some y | None \<Rightarrow> map_of m x))"
proof (induction m arbitrary: es)
  case Nil
  then show ?case by (simp split: option.splits)
next
  case (Cons a m)
  obtain k v where a: "a = (k, v)" by (cases a)
  show ?case
  proof (cases "k \<in> set (obj_keys es)")
    case True
    then have "map_of es k \<noteq> None" by (simp add: obj_keys_def map_of_eq_None_iff)
    with Cons.IH [OF Cons.prems] True a show ?thesis by (auto split: option.splits)
  next
    case False
    then have n: "map_of es k = None" by (simp add: obj_keys_def map_of_eq_None_iff)
    have d: "distinct (obj_keys (es @ [(k, v)]))" using Cons.prems False by simp
    from Cons.IH [OF d] False a n show ?thesis
      by (auto simp: map_of_append_new split: option.splits)
  qed
qed

lemma distinct_obj_entries: "distinct (obj_keys (obj_entries m))"
  using obj_entries_aux [of "[]" m] by (simp add: obj_entries_def)

lemma map_of_obj_entries: "map_of (obj_entries m) x = map_of m x"
  using obj_entries_aux [of "[]" m] by (simp add: obj_entries_def)

lemma map_of_fold_obj_set:
  "distinct (obj_keys es) \<Longrightarrow>
   map_of (fold (\<lambda>(k, v) m. obj_set k v m) es m) x
     = (case map_of es x of Some y \<Rightarrow> Some y | None \<Rightarrow> map_of m x)"
proof (induction es arbitrary: m)
  case Nil
  then show ?case by simp
next
  case (Cons a es)
  obtain k v where a: "a = (k, v)" by (cases a)
  with Cons.prems have k: "map_of es k = None" and d: "distinct (obj_keys es)"
    by (simp_all add: obj_keys_def map_of_eq_None_iff)
  from Cons.IH [OF d] a k show ?case by (auto simp: map_of_obj_set split: option.splits)
qed

lemma map_of_obj_assign:
  "map_of (obj_assign t s) x = (case map_of s x of Some y \<Rightarrow> Some y | None \<Rightarrow> map_of t x)"
  by (simp add: obj_assign_def map_of_fold_obj_set distinct_obj_entries map_of_obj_entries)

lemma map_of_obj_spread:
  "map_of (obj_spread a b) x = (case map_of b x of Some y \<Rightarrow> Some y | None \<Rightarrow> map_of a x)"
  by (simp add: obj_spread_def map_of_obj_assign split: option.splits)

section \<open>Filename normalization is idempotent\<close>

lemma includes_single: "str_includes s [d] = (d \<in> set s)"
  by (induction s) auto

lemma detectContentType_cases:
  "detectContentType P c \<in> {''html'', ''css'', ''jsx'', ''js'', ''py'', ''json'', ''md'', ''sql'', ''txt''}"
  unfolding detectContentType_def by simp




lemma star_greedy_eoi:
  "star_greedy p (\<lambda>s'. if s' = [] then F s' else None) s
     = (if \<forall>c\<in>set s. p c then F [] else None)"
  by (induction s) (auto split: option.splits)

lemma match_extension:
  "rx_match_at extensionRegex (c # t)
     = (if c = CHR ''.'' \<and> t \<noteq> [] \<and> CHR ''.'' \<notin> set t then Some (Map.empty, []) else None)"
  by (cases t) (auto simp: rx_match_at_def extensionRegex_def star_greedy_eoi)

lemma search_extension:
  assumes "t \<noteq> []" "CHR ''.'' \<notin> set t"
  shows "rx_search extensionRegex (b @ CHR ''.'' # t) = Some (b, Map.empty, [])"
  using assms by (induction b) (simp_all add: match_extension)

lemma replace_extension:
  "t \<noteq> [] \<Longrightarrow> CHR ''.'' \<notin> set t \<Longrightarrow> js_replace extensionRegex [] (b @ CHR ''.'' # t) = b"
  by (simp add: js_replace_def search_extension)

lemma toLowerCase_types:
  assumes "t \<in> {''html'', ''css'', ''jsx'', ''js'', ''py'', ''json'', ''md'', ''sql'', ''txt''}"
  shows "toLowerCase t = t"
proof -
  have "toLowerCase ''html'' = ''html''" "toLowerCase ''css'' = ''css''"
    "toLowerCase ''jsx'' = ''jsx''" "toLowerCase ''js'' = ''js''" "toLowerCase ''py'' = ''py''"
    "toLowerCase ''json'' = ''json''" "toLowerCase ''md'' = ''md''"
    "toLowerCase ''sql'' = ''sql''" "toLowerCase ''txt'' = ''txt''"
    by code_simp+
  with assms show ?thesis by auto
qed

lemma types_no_dot:
  "t \<in> {''html'', ''css'', ''jsx'', ''js'', ''py'', ''json'', ''md'', ''sql'', ''txt''} \<Longrightarrow> t \<noteq> [] \<and> CHR ''.'' \<notin> set t"
  by auto

lemma ensureProperExtension_fixed:
  assumes "T = detectContentType P c"
  shows "ensureProperExtension P (b @ CHR ''.'' # T) c = b @ CHR ''.'' # T"
proof -
  have T: "T \<in> {''html'', ''css'', ''jsx'', ''js'', ''py'', ''json'', ''md'', ''sql'', ''txt''}"
    using assms detectContentType_cases by simp
  then have nd: "T \<noteq> []" "CHR ''.'' \<notin> set T" using types_no_dot by blast+
  have "js_replace extensionRegex [] (b @ CHR ''.'' # T) = b" using nd by (rule replace_extension)
  moreover have "str_includes (b @ CHR ''.'' # T) ''.''" by (simp add: includes_single)
  ultimately show ?thesis using assms
    by (simp add: ensureProperExtension_def Let_def)
qed

text \<open>
  Claim C8. Filename normalization is idempotent: for every filename \<open>f\<close>, every content
  \<open>c\<close> and whatever \<open>JSON.parse\<close> answers, normalizing the normalized name again with
  the same content returns it unchanged.
\<close>

theorem ensureProperExtension_idempotent:
  "ensureProperExtension P (ensureProperExtension P f c) c = ensureProperExtension P f c"
proof -
  let ?T = "detectContentType P c"
  let ?ext = "map_option toLowerCase (pop (js_split CHR ''.'' f))"
  show ?thesis
  proof (cases "str_includes f ''.'' \<and> isValidExtensionForContent P ?ext c")
    case True
    then have "ensureProperExtension P f c = f" by (simp add: ensureProperExtension_def)
    then show ?thesis by simp
  next
    case False
    then have "\<exists>b. ensureProperExtension P f c = b @ CHR ''.'' # ?T"
      by (auto simp: ensureProperExtension_def Let_def)
    then obtain b where "ensureProperExtension P f c = b @ CHR ''.'' # ?T" ..
    then show ?thesis using ensureProperExtension_fixed [of ?T P c b] by simp
  qed
qed

section \<open>Deleting a file from the store\<close>

lemma obj_delete_map_of: "map_of (obj_delete k m) = (map_of m)(k := None)"
  by (induction m) (auto simp: obj_delete_def)

lemma obj_delete_nonempty:
  assumes "distinct (obj_keys m)" "length m > 1"
  shows "obj_delete k m \<noteq> []"
proof -
  obtain a b m' where m: "m = a # b # m'"
    using assms(2) by (cases m; cases "tl m") auto
  with assms(1) have "fst a \<noteq> fst b" by (simp add: obj_keys_def)
  then have "fst a \<noteq> k \<or> fst b \<noteq> k" by auto
  with m show ?thesis by (auto simp: obj_delete_def split: prod.splits)
qed

text \<open>
  Claim C9. For every store state whose FileMap is an object (distinct keys),
  \<open>deleteFile path\<close> changes nothing when the FileMap has at most one entry. Otherwise it
  removes exactly the key \<open>path\<close> and leaves every other entry, and their order, as they
  were; the FileMap that results is not empty; the active file becomes the first remaining
  key when it was \<open>path\<close> and stays otherwise; the rest of the state is untouched. So a
  FileMap that is not empty is not empty after \<open>deleteFile\<close>.
\<close>

theorem deleteFile_spec:
  assumes "distinct (obj_keys (files s))"
  shows "(if length (obj_keys (files s)) \<le> 1 then deleteFile path s = s
          else files (deleteFile path s) = filter (\<lambda>e. fst e \<noteq> path) (files s)
             \<and> obj_get (files (deleteFile path s)) = (obj_get (files s))(path := None)
             \<and> files (deleteFile path s) \<noteq> []
             \<and> activeFile (deleteFile path s)
                 = (if activeFile s = Some path
                    then Some (hd (obj_keys (filter (\<lambda>e. fst e \<noteq> path) (files s))))
                    else activeFile s)
             \<and> messages (deleteFile path s) = messages s
             \<and> liveWritingFile (deleteFile path s) = liveWritingFile s
             \<and> statusLog (deleteFile path s) = statusLog s)
         \<and> (files s = [] \<or> files (deleteFile path s) \<noteq> [])"
proof (cases "length (obj_keys (files s)) \<le> 1")
  case True
  then show ?thesis by (simp add: deleteFile_def)
next
  case False
  then have len: "length (files s) > 1" by (simp add: obj_keys_def)
  have ne: "obj_delete path (files s) \<noteq> []" using assms len by (rule obj_delete_nonempty)
  have f: "obj_delete path (files s) = filter (\<lambda>e. fst e \<noteq> path) (files s)"
    by (simp add: obj_delete_def case_prod_unfold)
  have g: "obj_get (obj_delete path (files s)) = (obj_get (files s))(path := None)"
    by (rule ext) (simp add: obj_get_def obj_delete_map_of)
  have k: "obj_keys (obj_delete path (files s)) \<noteq> []" using ne by (simp add: obj_keys_def)
  show ?thesis using False ne f g k
    by (auto simp: deleteFile_def Let_def split: list.splits)
qed

theorem deleteFile_spec_witness:
  "distinct (obj_keys (files \<lparr>files = [(''a.txt'', ''x''), (''b.txt'', ''y'')], activeFile = Some ''a.txt'',
       messages = [], liveWritingFile = None, statusLog = []\<rparr>))
   \<and> files (deleteFile ''a.txt'' \<lparr>files = [(''a.txt'', ''x''), (''b.txt'', ''y'')],
       activeFile = Some ''a.txt'', messages = [], liveWritingFile = None, statusLog = []\<rparr>)
     = [(''b.txt'', ''y'')]
   \<and> activeFile (deleteFile ''a.txt'' \<lparr>files = [(''a.txt'', ''x''), (''b.txt'', ''y'')],
       activeFile = Some ''a.txt'', messages = [], liveWritingFile = None, statusLog = []\<rparr>)
     = Some ''b.txt''"
proof -
  let ?s = "\<lparr>files = [(''a.txt'', ''x''), (''b.txt'', ''y'')], activeFile = Some ''a.txt'',
       messages = [], liveWritingFile = None, statusLog = []\<rparr>"
  have h: "distinct (obj_keys (files ?s))" by (simp add: obj_keys_def)
  from deleteFile_spec [OF h, of "''a.txt''"] h show ?thesis by (simp add: obj_keys_def)
qed

section \<open>The provider registry\<close>

lemma strict_eq_JStr: "strict_eq a (Some (JStr n)) = (a = Some (JStr n))"
  by (cases "(a, Some (JStr n))" rule: strict_eq.cases) auto

lemma js_find_Some:
  "js_find cb xs = Inr (Some x) \<Longrightarrow> x \<in> set xs \<and> cb x = Inr True"
  by (induction xs) (auto split: sum.splits if_splits)

lemma js_map_Inr:
  "js_map f xs = Inr ys \<Longrightarrow> list_all2 (\<lambda>x y. f x = Inr y) xs ys"
  by (induction xs arbitrary: ys) (auto split: sum.splits)

lemma find_saved_name:
  assumes "find_saved parsed d = Inr (Some sp)" "map_of d ''name'' = Some (JStr n)"
  shows "\<exists>ps. sp = JObj ps \<and> map_of ps ''name'' = Some (JStr n)"
proof -
  let ?cb = "\<lambda>p. case read_prop (Some p) ''name'' of Inl e \<Rightarrow> Inl e
                 | Inr v \<Rightarrow> Inr (strict_eq v (map_of d ''name''))"
  from assms(1) obtain xs where "js_find ?cb xs = Inr (Some sp)"
    by (cases parsed) (auto simp: find_saved_def)
  then have "?cb sp = Inr True" using js_find_Some by fast
  with assms(2) have "get_prop sp ''name'' = Some (JStr n)"
    by (cases sp) (auto simp: read_prop_def strict_eq_JStr split: sum.splits)
  then show ?thesis by (cases sp) auto
qed

lemma merge_saved_name:
  assumes "merge_saved parsed d = Inr (p, sh)" "map_of d ''name'' = Some (JStr n)"
  shows "map_of p ''name'' = Some (JStr n)"
proof (cases "find_saved parsed d")
  case (Inl e)
  with assms show ?thesis by (simp add: merge_saved_def)
next
  case (Inr found)
  show ?thesis
  proof (cases "truthy_opt found")
    case False
    with Inr assms show ?thesis by (simp add: merge_saved_def)
  next
    case True
    then obtain sp where found: "found = Some sp" by (cases found) (auto simp: truthy_opt_def)
    with Inr assms(2) obtain ps where "sp = JObj ps" "map_of ps ''name'' = Some (JStr n)"
      using find_saved_name by blast
    with Inr True found assms show ?thesis
      by (auto simp: merge_saved_def map_of_obj_spread)
  qed
qed

lemma merged_names:
  assumes "js_map (merge_saved parsed) ds = Inr merged"
    and "map (\<lambda>d. map_of d ''name'') ds = map (\<lambda>n. Some (JStr n)) ns"
  shows "map (\<lambda>(p, sh). map_of p ''name'') merged = map (\<lambda>n. Some (JStr n)) ns"
  using assms
proof (induction ds arbitrary: merged ns)
  case Nil
  then show ?case by simp
next
  case (Cons d ds)
  from Cons.prems(2) obtain n ns' where ns: "ns = n # ns'" by (cases ns) auto
  from Cons.prems(1) obtain p sh ms where m: "merge_saved parsed d = Inr (p, sh)"
    "js_map (merge_saved parsed) ds = Inr ms" "merged = (p, sh) # ms"
    by (auto split: sum.splits)
  from Cons.prems(2) ns have d: "map_of d ''name'' = Some (JStr n)"
    and ds: "map (\<lambda>d. map_of d ''name'') ds = map (\<lambda>n. Some (JStr n)) ns'" by simp_all
  from merge_saved_name [OF m(1) d] Cons.IH [OF m(2) ds] m(3) ns show ?case by simp
qed

lemma loaded_names:
  assumes "registry_ok reg"
  shows "map (\<lambda>(p, sh). map_of p ''name'') (loadProviderConfigs P reg)
           = map (\<lambda>n. Some (JStr n)) provider_names"
proof -
  have shared: "map (\<lambda>(p, sh). map_of p ''name'') (map (\<lambda>d. (d, True)) (providers_array reg))
      = map (\<lambda>n. Some (JStr n)) provider_names"
    using assms by (simp add: registry_ok_def comp_def)
  show ?thesis
  proof (cases "\<exists>saved parsed merged. ai_providers reg = Some saved \<and> saved \<noteq> []
      \<and> P saved = Some parsed \<and> js_map (merge_saved parsed) (providers_array reg) = Inr merged")
    case True
    then obtain saved parsed merged where s: "ai_providers reg = Some saved" "saved \<noteq> []"
      "P saved = Some parsed" "js_map (merge_saved parsed) (providers_array reg) = Inr merged"
      by blast
    then have "loadProviderConfigs P reg = merged"
      by (simp add: loadProviderConfigs_def try_catch_def)
    with merged_names [OF s(4)] assms show ?thesis by (simp add: registry_ok_def)
  next
    case False
    then have "loadProviderConfigs P reg = map (\<lambda>d. (d, True)) (providers_array reg)"
      by (auto simp: loadProviderConfigs_def try_catch_def split: option.splits sum.splits)
    with shared show ?thesis by simp
  qed
qed

lemma length_loaded:
  "registry_ok reg \<Longrightarrow> length (loadProviderConfigs P reg) = length (providers_array reg)"
proof -
  assume ok: "registry_ok reg"
  then have "length (map (\<lambda>(p, sh). map_of p ''name'') (loadProviderConfigs P reg))
      = length (map (\<lambda>d. map_of d ''name'') (providers_array reg))"
    using loaded_names [OF ok, of P] by (simp add: registry_ok_def)
  then show ?thesis by simp
qed

lemma assign_enabled_props:
  "map (\<lambda>(p, sh). map_of p ''name'') (assign_enabled X ps) = map (\<lambda>(p, sh). map_of p ''name'') ps"
  "length (assign_enabled X ps) = length ps"
  by (auto simp: assign_enabled_def map_of_obj_set)

lemma assign_enabled_flag:
  assumes "q \<in> set (map fst (assign_enabled X ps))"
    and "\<forall>p\<in>set (map fst ps). \<exists>n. map_of p ''name'' = Some (JStr n)"
  shows "\<exists>n. map_of q ''name'' = Some (JStr n) \<and> map_of q ''enabled'' = Some (JBool (n = X))"
proof -
  from assms(1) obtain p sh where p: "(p, sh) \<in> set ps"
    and q: "q = obj_set ''enabled'' (JBool (strict_eq (map_of p ''name'') (Some (JStr X)))) p"
    by (auto simp: assign_enabled_def)
  with assms(2) obtain n where n: "map_of p ''name'' = Some (JStr n)" by force
  with q show ?thesis by (auto simp: map_of_obj_set)
qed

lemma setActiveProvider_ok:
  assumes "registry_ok reg"
  shows "registry_ok (setActiveProvider P S W X reg)"
proof -
  let ?A = "assign_enabled X (loadProviderConfigs P reg)"
  let ?D = "providers_array reg"
  have len: "length ?A = length ?D" using length_loaded [OF assms] by (simp add: assign_enabled_props)
  have nA: "map (\<lambda>(p, sh). map_of p ''name'') ?A = map (\<lambda>d. map_of d ''name'') ?D"
    using loaded_names [OF assms, of P] assms by (simp add: assign_enabled_props registry_ok_def)
  have "map (\<lambda>d. map_of d ''name'') (map (\<lambda>(d, (p, shared)). if shared then p else d) (zip ?D ?A))
      = map (\<lambda>d. map_of d ''name'') ?D"
  proof (rule nth_equalityI)
    show "length (map (\<lambda>d. map_of d ''name'') (map (\<lambda>(d, (p, shared)). if shared then p else d) (zip ?D ?A)))
        = length (map (\<lambda>d. map_of d ''name'') ?D)" using len by simp
  next
    fix i
    assume "i < length (map (\<lambda>d. map_of d ''name'') (map (\<lambda>(d, (p, shared)). if shared then p else d) (zip ?D ?A)))"
    then have i: "i < length ?D" "i < length ?A" using len by simp_all
    from nA have "map (\<lambda>(p, sh). map_of p ''name'') ?A ! i = map (\<lambda>d. map_of d ''name'') ?D ! i" by simp
    with i have "map_of (fst (?A ! i)) ''name'' = map_of (?D ! i) ''name''"
      by (simp add: case_prod_unfold)
    with i show "map (\<lambda>d. map_of d ''name'') (map (\<lambda>(d, (p, shared)). if shared then p else d) (zip ?D ?A)) ! i
        = map (\<lambda>d. map_of d ''name'') ?D ! i"
      by (simp add: case_prod_unfold)
  qed
  with assms show ?thesis
    by (simp add: registry_ok_def setActiveProvider_def saveProviderConfigs_def Let_def
        split: option.splits)
qed

lemma initial_registry_ok: "registry_ok (initial_registry saved)"
  by (simp add: registry_ok_def initial_registry_def DEFAULT_PROVIDERS_def provider_names_def
      Ollama_default_def OpenRouter_default_def OpenAI_default_def Anthropic_default_def)

lemma js_find_filter:
  "\<forall>x\<in>set xs. \<not> keep x \<longrightarrow> cb x = Inr False
     \<Longrightarrow> js_find cb (filter keep xs) = js_find cb xs"
  by (induction xs) (auto split: sum.splits)

lemma js_map_cong: "\<forall>x\<in>set xs. f x = g x \<Longrightarrow> js_map f xs = js_map g xs"
  by (induction xs) (auto split: sum.splits)

lemma foreign_not_found:
  assumes "foreign_record r" "map_of d ''name'' = Some (JStr n)" "n \<in> set provider_names"
  shows "(case read_prop (Some r) ''name'' of
            Inl e \<Rightarrow> Inl e
          | Inr v \<Rightarrow> Inr (strict_eq v (map_of d ''name''))) = Inr False"
proof -
  from assms(1) have r: "read_prop (Some r) ''name'' = Inr (get_prop r ''name'')"
    by (cases r) (simp_all add: foreign_record_def read_prop_def)
  from assms(1,3) have "get_prop r ''name'' \<noteq> Some (JStr n)"
    by (auto simp: foreign_record_def)
  with r assms(2) show ?thesis by (simp add: strict_eq_JStr)
qed

lemma registry_ok_names:
  assumes "registry_ok reg" "d \<in> set (providers_array reg)"
  shows "\<exists>n\<in>set provider_names. map_of d ''name'' = Some (JStr n)"
proof -
  from assms(2) have "map_of d ''name'' \<in> set (map (\<lambda>d. map_of d ''name'') (providers_array reg))"
    by simp
  with assms(1) show ?thesis by (auto simp: registry_ok_def)
qed

lemma merge_saved_builtin:
  assumes "map_of d ''name'' = Some (JStr n)" "n \<in> set provider_names"
  shows "merge_saved (JArr (builtin_records records)) d = merge_saved (JArr records) d"
proof -
  let ?cb = "\<lambda>p. case read_prop (Some p) ''name'' of Inl e \<Rightarrow> Inl e
                 | Inr v \<Rightarrow> Inr (strict_eq v (map_of d ''name''))"
  have "js_find ?cb (filter (\<lambda>r. \<not> foreign_record r) records) = js_find ?cb records"
    by (rule js_find_filter) (simp add: foreign_not_found [OF _ assms])
  then show ?thesis by (simp add: merge_saved_def find_saved_def builtin_records_def)
qed

lemma merge_saved_foreign:
  assumes "map_of d ''name'' = Some (JStr n)" "n \<in> set provider_names"
    and "list_all foreign_record records"
  shows "merge_saved (JArr records) d = Inr (d, True)"
proof -
  from assms(3) have "builtin_records records = []"
    by (simp add: builtin_records_def list_all_iff)
  with merge_saved_builtin [OF assms(1,2), of records]
  show ?thesis by (simp add: merge_saved_def find_saved_def truthy_opt_def)
qed

lemma js_map_all: "\<forall>x\<in>set xs. f x = Inr (g x) \<Longrightarrow> js_map f xs = Inr (map g xs)"
  by (induction xs) auto

lemma load_drops_foreign:
  assumes "registry_ok reg" "ai_providers reg = Some saved"
    and "P saved = Some (JArr records)" "P' saved = Some (JArr (builtin_records records))"
  shows "loadProviderConfigs P reg = loadProviderConfigs P' reg"
proof -
  have "js_map (merge_saved (JArr (builtin_records records))) (providers_array reg)
      = js_map (merge_saved (JArr records)) (providers_array reg)"
  proof (rule js_map_cong, rule ballI)
    fix d assume "d \<in> set (providers_array reg)"
    with assms(1) obtain n where "n \<in> set provider_names" "map_of d ''name'' = Some (JStr n)"
      using registry_ok_names by blast
    then show "merge_saved (JArr (builtin_records records)) d = merge_saved (JArr records) d"
      using merge_saved_builtin by blast
  qed
  with assms(2-4) show ?thesis by (simp add: loadProviderConfigs_def)
qed

lemma load_all_foreign:
  assumes "registry_ok reg" "ai_providers reg = Some saved"
    and "P saved = Some (JArr records)" "list_all foreign_record records"
  shows "loadProviderConfigs P reg = map (\<lambda>d. (d, True)) (providers_array reg)"
proof -
  have "js_map (merge_saved (JArr records)) (providers_array reg)
      = Inr (map (\<lambda>d. (d, True)) (providers_array reg))"
  proof (rule js_map_all, rule ballI)
    fix d assume "d \<in> set (providers_array reg)"
    with assms(1) obtain n where "n \<in> set provider_names" "map_of d ''name'' = Some (JStr n)"
      using registry_ok_names by blast
    then show "merge_saved (JArr records) d = Inr (d, True)"
      using merge_saved_foreign assms(4) by blast
  qed
  with assms(2,3) show ?thesis by (simp add: loadProviderConfigs_def try_catch_def)
qed

text \<open>
  Claim C10. For every persisted value of \<open>ai-providers\<close> (absent, empty, text that
  \<open>JSON.parse\<close> rejects, or any parsed value) and whatever \<open>JSON.parse\<close> answers, the
  registry load returns exactly one entry per built-in default provider, in the built-in
  order: the names of the providers returned are the four built-in names. This holds in
  the initial state of the registry and in every state that \<open>setActiveProvider\<close> leads to.
  Persisted records under other names are dropped: a load of a persisted array gives what
  the load of the array without its foreign records gives, and where every record is
  foreign it gives the built-in defaults themselves.
\<close>

theorem load_yields_builtin_providers:
  "map (\<lambda>p. map_of p ''name'') (getAvailableProviders JSON_parse (initial_registry saved))
     = map (\<lambda>n. Some (JStr n)) provider_names
   \<and> (registry_ok reg \<longrightarrow>
        map (\<lambda>p. map_of p ''name'') (getAvailableProviders JSON_parse reg)
          = map (\<lambda>n. Some (JStr n)) provider_names
        \<and> length (getAvailableProviders JSON_parse reg) = 4
        \<and> registry_ok (setActiveProvider JSON_parse JSON_stringify setItem X reg))
   \<and> (registry_ok reg \<and> ai_providers reg = Some stored
        \<and> JSON_parse stored = Some (JArr records)
        \<and> JSON_parse' stored = Some (JArr (builtin_records records))
      \<longrightarrow> loadProviderConfigs JSON_parse reg = loadProviderConfigs JSON_parse' reg)
   \<and> (registry_ok reg \<and> ai_providers reg = Some stored
        \<and> JSON_parse stored = Some (JArr records) \<and> list_all foreign_record records
      \<longrightarrow> getAvailableProviders JSON_parse reg = providers_array reg)"
proof -
  have names: "map (\<lambda>p. map_of p ''name'') (getAvailableProviders JSON_parse r)
      = map (\<lambda>n. Some (JStr n)) provider_names" if "registry_ok r" for r
    using loaded_names [OF that, of JSON_parse]
    by (simp add: getAvailableProviders_def comp_def case_prod_unfold)
  have len: "length (getAvailableProviders JSON_parse r) = 4" if "registry_ok r" for r
  proof -
    have "length (map (\<lambda>p. map_of p ''name'') (getAvailableProviders JSON_parse r))
        = length (map (\<lambda>n. Some (JStr n)) provider_names)" using names [OF that] by simp
    then show ?thesis by (simp add: provider_names_def)
  qed
  have drop: "loadProviderConfigs JSON_parse reg = loadProviderConfigs JSON_parse' reg"
    if "registry_ok reg" "ai_providers reg = Some stored" "JSON_parse stored = Some (JArr records)"
      "JSON_parse' stored = Some (JArr (builtin_records records))"
    using that by (rule load_drops_foreign)
  have none: "getAvailableProviders JSON_parse reg = providers_array reg"
    if "registry_ok reg" "ai_providers reg = Some stored" "JSON_parse stored = Some (JArr records)"
      "list_all foreign_record records"
    using load_all_foreign [of reg stored JSON_parse records] that
    by (simp add: getAvailableProviders_def comp_def)
  from names len drop none initial_registry_ok setActiveProvider_ok show ?thesis by blast
qed

theorem load_yields_builtin_providers_witness:
  "registry_ok (initial_registry (Some ''[stored]''))
   \<and> ai_providers (initial_registry (Some ''[stored]'')) = Some ''[stored]''
   \<and> stranger_parse ''[stored]'' = Some (JArr stored_with_stranger)
   \<and> builtin_records stored_with_stranger
       = [JObj [(''name'', JStr ''Ollama''), (''enabled'', JBool False)],
          JObj [(''name'', JStr ''OpenAI''), (''enabled'', JBool True)]]
   \<and> list_all foreign_record [hd stored_with_stranger]
   \<and> map (\<lambda>p. map_of p ''name'')
        (getAvailableProviders stranger_parse (initial_registry (Some ''[stored]'')))
      = [Some (JStr ''Ollama''), Some (JStr ''OpenRouter''), Some (JStr ''OpenAI''),
         Some (JStr ''Anthropic'')]
   \<and> loadProviderConfigs stranger_parse (initial_registry (Some ''[stored]''))
      = loadProviderConfigs (\<lambda>s. Some (JArr (builtin_records stored_with_stranger)))
          (initial_registry (Some ''[stored]''))
   \<and> getAvailableProviders (\<lambda>s. Some (JArr [hd stored_with_stranger]))
        (initial_registry (Some ''[stored]''))
      = DEFAULT_PROVIDERS"
proof -
  let ?reg = "initial_registry (Some ''[stored]'')"
  have ok: "registry_ok ?reg" by (rule initial_registry_ok)
  have st: "ai_providers ?reg = Some ''[stored]''" by (simp add: initial_registry_def)
  have p: "stranger_parse ''[stored]'' = Some (JArr stored_with_stranger)"
    by (simp add: stranger_parse_def)
  have b: "builtin_records stored_with_stranger
       = [JObj [(''name'', JStr ''Ollama''), (''enabled'', JBool False)],
          JObj [(''name'', JStr ''OpenAI''), (''enabled'', JBool True)]]"
    by code_simp
  have f: "list_all foreign_record [hd stored_with_stranger]" by code_simp
  have d: "providers_array ?reg = DEFAULT_PROVIDERS" by (simp add: initial_registry_def)
  from load_yields_builtin_providers
    [of stranger_parse "Some ''[stored]''" ?reg "\<lambda>v. ''[new]''" storing "''OpenAI''" "''[stored]''"
        stored_with_stranger "\<lambda>s. Some (JArr (builtin_records stored_with_stranger))"]
    ok st p
  have one: "map (\<lambda>p. map_of p ''name'') (getAvailableProviders stranger_parse ?reg)
      = [Some (JStr ''Ollama''), Some (JStr ''OpenRouter''), Some (JStr ''OpenAI''),
         Some (JStr ''Anthropic'')]
    \<and> loadProviderConfigs stranger_parse ?reg
      = loadProviderConfigs (\<lambda>s. Some (JArr (builtin_records stored_with_stranger))) ?reg"
    by (simp add: provider_names_def)
  from load_yields_builtin_providers
    [of "\<lambda>s. Some (JArr [hd stored_with_stranger])" "Some ''[stored]''" ?reg "\<lambda>v. ''[new]''" storing
        "''OpenAI''" "''[stored]''" "[hd stored_with_stranger]"
        "\<lambda>s. Some (JArr (builtin_records [hd stored_with_stranger]))"]
    ok st f d
  have two: "getAvailableProviders (\<lambda>s. Some (JArr [hd stored_with_stranger])) ?reg
      = DEFAULT_PROVIDERS"
    by simp
  from ok st p b f one two show ?thesis by blast
qed

lemma js_find_total:
  assumes "\<forall>x\<in>set xs. \<exists>b. cb x = Inr b" "\<exists>x\<in>set xs. cb x = Inr True"
  shows "\<exists>x\<in>set xs. js_find cb xs = Inr (Some x) \<and> cb x = Inr True"
  using assms by (induction xs) (auto split: sum.splits)

lemma merged_flags:
  assumes all: "\<forall>q\<in>set qs. \<exists>n. map_of q ''name'' = Some (JStr n) \<and> map_of q ''enabled'' = Some (JBool (n = X))"
    and names: "map (\<lambda>d. map_of d ''name'') ds = map (\<lambda>n. Some (JStr n)) ns"
    and cover: "\<forall>n\<in>set ns. \<exists>q\<in>set qs. map_of q ''name'' = Some (JStr n)"
  shows "\<exists>merged. js_map (merge_saved (JArr (map JObj qs))) ds = Inr merged
           \<and> map (\<lambda>(p, sh). (map_of p ''name'', map_of p ''enabled'')) merged
               = map (\<lambda>n. (Some (JStr n), Some (JBool (n = X)))) ns"
  using names cover
proof (induction ds arbitrary: ns)
  case Nil
  then show ?case by simp
next
  case (Cons d ds)
  from Cons.prems(1) obtain n ns' where ns: "ns = n # ns'" by (cases ns) auto
  with Cons.prems have d: "map_of d ''name'' = Some (JStr n)"
    and ds: "map (\<lambda>d. map_of d ''name'') ds = map (\<lambda>n. Some (JStr n)) ns'"
    and cov: "\<forall>n\<in>set ns'. \<exists>q\<in>set qs. map_of q ''name'' = Some (JStr n)" by simp_all
  let ?cb = "\<lambda>p. case read_prop (Some p) ''name'' of Inl e \<Rightarrow> Inl e
                 | Inr v \<Rightarrow> Inr (strict_eq v (map_of d ''name''))"
  have "\<forall>x\<in>set (map JObj qs). \<exists>b. ?cb x = Inr b" by (auto simp: read_prop_def)
  moreover have "\<exists>x\<in>set (map JObj qs). ?cb x = Inr True"
    using Cons.prems(2) ns d by (auto simp: read_prop_def strict_eq_JStr)
  ultimately obtain x where x: "x \<in> set (map JObj qs)" "js_find ?cb (map JObj qs) = Inr (Some x)"
    "?cb x = Inr True" using js_find_total [of "map JObj qs" ?cb] by blast
  then obtain q where q: "x = JObj q" "q \<in> set qs" by auto
  with x(3) d have qn: "map_of q ''name'' = Some (JStr n)"
    by (auto simp: read_prop_def strict_eq_JStr)
  with all q(2) have qe: "map_of q ''enabled'' = Some (JBool (n = X))" by force
  have m: "merge_saved (JArr (map JObj qs)) d = Inr (obj_spread d q, False)"
    using x(2) q(1) by (simp add: merge_saved_def find_saved_def truthy_opt_def)
  from Cons.IH [OF ds cov] obtain merged where
    "js_map (merge_saved (JArr (map JObj qs))) ds = Inr merged"
    "map (\<lambda>(p, sh). (map_of p ''name'', map_of p ''enabled'')) merged
       = map (\<lambda>n. (Some (JStr n), Some (JBool (n = X)))) ns'" by blast
  with m qn qe ns show ?case by (simp add: map_of_obj_spread)
qed

lemma loaded_from_saved:
  assumes ok: "registry_ok reg"
    and rt: "JSON_parse (JSON_stringify
               (JArr (map JObj (map fst (assign_enabled X (loadProviderConfigs JSON_parse reg))))))
             = Some (JArr (map JObj (map fst (assign_enabled X (loadProviderConfigs JSON_parse reg)))))"
    and ne: "JSON_stringify
               (JArr (map JObj (map fst (assign_enabled X (loadProviderConfigs JSON_parse reg))))) \<noteq> []"
    and ok': "registry_ok reg'"
    and saved: "ai_providers reg' = Some (JSON_stringify
               (JArr (map JObj (map fst (assign_enabled X (loadProviderConfigs JSON_parse reg))))))"
  shows "map (\<lambda>(p, sh). (map_of p ''name'', map_of p ''enabled'')) (loadProviderConfigs JSON_parse reg')
         = map (\<lambda>n. (Some (JStr n), Some (JBool (n = X)))) provider_names"
proof -
  let ?L = "loadProviderConfigs JSON_parse reg"
  let ?A = "assign_enabled X ?L"
  let ?qs = "map fst ?A"
  have namesL: "map (\<lambda>(p, sh). map_of p ''name'') ?L = map (\<lambda>n. Some (JStr n)) provider_names"
    using loaded_names [OF ok] .
  have "\<forall>p\<in>set (map fst ?L). \<exists>n. map_of p ''name'' = Some (JStr n)"
  proof
    fix p assume "p \<in> set (map fst ?L)"
    then have "map_of p ''name'' \<in> set (map (\<lambda>(p, sh). map_of p ''name'') ?L)" by force
    with namesL show "\<exists>n. map_of p ''name'' = Some (JStr n)" by auto
  qed
  then have all: "\<forall>q\<in>set ?qs. \<exists>n. map_of q ''name'' = Some (JStr n)
      \<and> map_of q ''enabled'' = Some (JBool (n = X))"
    using assign_enabled_flag by blast
  have namesA: "map (\<lambda>(p, sh). map_of p ''name'') ?A = map (\<lambda>n. Some (JStr n)) provider_names"
    using namesL assign_enabled_props(1) [of X ?L] by simp
  have cover: "\<forall>n\<in>set provider_names. \<exists>q\<in>set ?qs. map_of q ''name'' = Some (JStr n)"
  proof
    fix n assume "n \<in> set provider_names"
    then have "Some (JStr n) \<in> set (map (\<lambda>(p, sh). map_of p ''name'') ?A)"
      unfolding namesA by simp
    then obtain p sh where "(p, sh) \<in> set ?A" "map_of p ''name'' = Some (JStr n)" by auto
    then have "p \<in> set ?qs" "map_of p ''name'' = Some (JStr n)" by force+
    then show "\<exists>q\<in>set ?qs. map_of q ''name'' = Some (JStr n)" by blast
  qed
  from ok' have names': "map (\<lambda>d. map_of d ''name'') (providers_array reg')
      = map (\<lambda>n. Some (JStr n)) provider_names" by (simp add: registry_ok_def)
  from merged_flags [OF all names' cover] obtain merged where
    m: "js_map (merge_saved (JArr (map JObj ?qs))) (providers_array reg') = Inr merged"
    "map (\<lambda>(p, sh). (map_of p ''name'', map_of p ''enabled'')) merged
       = map (\<lambda>n. (Some (JStr n), Some (JBool (n = X)))) provider_names" by blast
  have "loadProviderConfigs JSON_parse reg' = merged"
    using saved rt ne m(1) by (simp add: loadProviderConfigs_def try_catch_def)
  with m(2) show ?thesis by simp
qed

lemma saved_after_setActiveProvider:
  assumes "setItem ''ai-providers'' (JSON_stringify
             (JArr (map JObj (map fst (assign_enabled X (loadProviderConfigs JSON_parse reg)))))) = None"
  shows "ai_providers (setActiveProvider JSON_parse JSON_stringify setItem X reg)
           = Some (JSON_stringify
               (JArr (map JObj (map fst (assign_enabled X (loadProviderConfigs JSON_parse reg))))))"
  using assms by (simp add: setActiveProvider_def saveProviderConfigs_def Let_def)

lemma one_enabled:
  assumes "map (\<lambda>p. (map_of p ''name'', map_of p ''enabled'')) ps
             = map (\<lambda>n. (Some (JStr n), Some (JBool (n = X)))) ns"
  shows "map (\<lambda>p. map_of p ''name'') (filter (\<lambda>p. truthy_opt (map_of p ''enabled'')) ps)
           = map (\<lambda>n. Some (JStr n)) (filter (\<lambda>n. n = X) ns)"
  using assms
proof (induction ps arbitrary: ns)
  case Nil
  then show ?case by simp
next
  case (Cons p ps)
  then obtain n ns' where "ns = n # ns'" by (cases ns) auto
  with Cons show ?case by (auto simp: truthy_opt_def)
qed

lemma find_filter_head: "filter Q xs = y # ys \<Longrightarrow> find Q xs = Some y"
  by (induction xs) (auto split: if_splits)

text \<open>
  Claim C5. Let the registry be in any state it can reach, with any persisted
  configuration, and let \<open>X\<close> be the name of an available provider (by C10, one of the
  four built-in names). Suppose \<open>localStorage.setItem\<close> stores the text it is given, and the
  runtime reads back what it wrote: \<open>JSON.stringify\<close> gives a text that is not empty and
  that \<open>JSON.parse\<close> turns into the value again. Then after \<open>setActiveProvider X\<close> every
  registry load that finds the stored text, in the same session or after a reload with
  fresh defaults, yields the four providers with \<open>enabled = (name = X)\<close>: exactly one
  provider is enabled, the one named \<open>X\<close>, and it is the active provider. (\<open>later\<close> is any
  state of the registry with the built-in names that holds the stored text.)
\<close>

theorem setActiveProvider_one_enabled:
  assumes ok: "registry_ok reg"
    and X: "X \<in> set provider_names"
    and rt: "JSON_parse (JSON_stringify
               (JArr (map JObj (map fst (assign_enabled X (loadProviderConfigs JSON_parse reg))))))
             = Some (JArr (map JObj (map fst (assign_enabled X (loadProviderConfigs JSON_parse reg)))))"
    and ne: "JSON_stringify
               (JArr (map JObj (map fst (assign_enabled X (loadProviderConfigs JSON_parse reg))))) \<noteq> []"
    and stored: "setItem ''ai-providers'' (JSON_stringify
               (JArr (map JObj (map fst (assign_enabled X (loadProviderConfigs JSON_parse reg)))))) = None"
    and later: "registry_ok later"
      "ai_providers later = ai_providers (setActiveProvider JSON_parse JSON_stringify setItem X reg)"
  shows "map (\<lambda>p. (map_of p ''name'', map_of p ''enabled'')) (getAvailableProviders JSON_parse later)
         = map (\<lambda>n. (Some (JStr n), Some (JBool (n = X)))) provider_names
       \<and> enabled_names (getAvailableProviders JSON_parse later) = [Some (JStr X)]
       \<and> map_option (\<lambda>p. map_of p ''name'') (getActiveProvider JSON_parse later)
         = Some (Some (JStr X))"
proof -
  let ?ps = "getAvailableProviders JSON_parse later"
  let ?after = "setActiveProvider JSON_parse JSON_stringify setItem X reg"
  note ok' = later(1) and saved = later(2)
  have a: "map (\<lambda>p. (map_of p ''name'', map_of p ''enabled'')) ?ps
      = map (\<lambda>n. (Some (JStr n), Some (JBool (n = X)))) provider_names"
    using loaded_from_saved [of reg JSON_parse JSON_stringify X later] ok rt ne ok'
      saved saved_after_setActiveProvider [of setItem JSON_stringify X JSON_parse reg] stored
    by (simp add: getAvailableProviders_def comp_def case_prod_unfold)
  have "filter (\<lambda>n. n = X) provider_names = [X]"
    using X by (auto simp: provider_names_def)
  with one_enabled [OF a] have b: "enabled_names ?ps = [Some (JStr X)]"
    by (simp add: enabled_names_def)
  then obtain p where p: "filter (\<lambda>p. truthy_opt (map_of p ''enabled'')) ?ps = [p]"
    "map_of p ''name'' = Some (JStr X)" by (auto simp: enabled_names_def)
  have "find (\<lambda>p. truthy_opt (map_of p ''enabled'')) ?ps = Some p"
    using p(1) by (rule find_filter_head)
  with p(2) have c: "map_option (\<lambda>p. map_of p ''name'') (getActiveProvider JSON_parse later)
      = Some (Some (JStr X))"
    by (simp add: getActiveProvider_def getAvailableProviders_def)
  from a b c show ?thesis by blast
qed

theorem setActiveProvider_one_enabled_witness:
  "registry_ok (initial_registry None)
   \<and> ''OpenAI'' \<in> set provider_names
   \<and> storing ''ai-providers'' ''[saved]'' = None
   \<and> registry_ok (initial_registry (Some ''[saved]''))
   \<and> ai_providers
        (setActiveProvider
           (\<lambda>s. if s = ''[saved]''
                then Some (JArr (map JObj (map fst
                       (assign_enabled ''OpenAI'' (map (\<lambda>d. (d, True)) DEFAULT_PROVIDERS)))))
                else None)
           (\<lambda>v. ''[saved]'') storing ''OpenAI'' (initial_registry None))
      = Some ''[saved]''
   \<and> map (\<lambda>p. (map_of p ''name'', map_of p ''enabled''))
        (getAvailableProviders
           (\<lambda>s. if s = ''[saved]''
                then Some (JArr (map JObj (map fst
                       (assign_enabled ''OpenAI'' (map (\<lambda>d. (d, True)) DEFAULT_PROVIDERS)))))
                else None)
           (initial_registry (Some ''[saved]'')))
      = [(Some (JStr ''Ollama''), Some (JBool False)),
         (Some (JStr ''OpenRouter''), Some (JBool False)),
         (Some (JStr ''OpenAI''), Some (JBool True)),
         (Some (JStr ''Anthropic''), Some (JBool False))]
   \<and> enabled_names
        (getAvailableProviders
           (\<lambda>s. if s = ''[saved]''
                then Some (JArr (map JObj (map fst
                       (assign_enabled ''OpenAI'' (map (\<lambda>d. (d, True)) DEFAULT_PROVIDERS)))))
                else None)
           (setActiveProvider
              (\<lambda>s. if s = ''[saved]''
                   then Some (JArr (map JObj (map fst
                          (assign_enabled ''OpenAI'' (map (\<lambda>d. (d, True)) DEFAULT_PROVIDERS)))))
                   else None)
              (\<lambda>v. ''[saved]'') storing ''OpenAI'' (initial_registry None)))
      = [Some (JStr ''OpenAI'')]"
proof -
  let ?P = "\<lambda>s. if s = ''[saved]''
                then Some (JArr (map JObj (map fst
                       (assign_enabled ''OpenAI'' (map (\<lambda>d. (d, True)) DEFAULT_PROVIDERS)))))
                else None"
  let ?S = "\<lambda>v :: json. ''[saved]''"
  let ?reg = "initial_registry None"
  let ?after = "setActiveProvider ?P ?S storing ''OpenAI'' ?reg"
  have ok: "registry_ok ?reg" by (rule initial_registry_ok)
  have ok2: "registry_ok (initial_registry (Some ''[saved]''))" by (rule initial_registry_ok)
  have ok3: "registry_ok ?after" using ok by (rule setActiveProvider_ok)
  have X: "''OpenAI'' \<in> set provider_names" by (simp add: provider_names_def)
  have w: "storing ''ai-providers'' ''[saved]'' = None" by (simp add: storing_def)
  have l: "loadProviderConfigs ?P ?reg = map (\<lambda>d. (d, True)) DEFAULT_PROVIDERS"
    by (simp add: loadProviderConfigs_def initial_registry_def try_catch_def)
  have rt: "?P (?S (JArr (map JObj (map fst (assign_enabled ''OpenAI'' (loadProviderConfigs ?P ?reg))))))
      = Some (JArr (map JObj (map fst (assign_enabled ''OpenAI'' (loadProviderConfigs ?P ?reg)))))"
    unfolding l by simp
  have ne: "?S (JArr (map JObj (map fst (assign_enabled ''OpenAI'' (loadProviderConfigs ?P ?reg))))) \<noteq> []"
    by simp
  have st: "storing ''ai-providers''
      (?S (JArr (map JObj (map fst (assign_enabled ''OpenAI'' (loadProviderConfigs ?P ?reg)))))) = None"
    by (simp add: storing_def)
  have sv: "ai_providers ?after = Some ''[saved]''"
    by (simp add: setActiveProvider_def saveProviderConfigs_def Let_def storing_def)
  then have sv2: "ai_providers (initial_registry (Some ''[saved]'')) = ai_providers ?after"
    by (simp add: initial_registry_def)
  from setActiveProvider_one_enabled
    [of ?reg "''OpenAI''" ?P ?S storing "initial_registry (Some ''[saved]'')", OF ok X rt ne st ok2 sv2]
  have fresh: "map (\<lambda>p. (map_of p ''name'', map_of p ''enabled''))
        (getAvailableProviders ?P (initial_registry (Some ''[saved]'')))
      = [(Some (JStr ''Ollama''), Some (JBool False)),
         (Some (JStr ''OpenRouter''), Some (JBool False)),
         (Some (JStr ''OpenAI''), Some (JBool True)),
         (Some (JStr ''Anthropic''), Some (JBool False))]"
    by (simp add: provider_names_def)
  from setActiveProvider_one_enabled
    [of ?reg "''OpenAI''" ?P ?S storing ?after, OF ok X rt ne st ok3 refl]
  have same: "enabled_names (getAvailableProviders ?P ?after) = [Some (JStr ''OpenAI'')]"
    by simp
  from ok X w ok2 sv fresh same show ?thesis by blast
qed

text \<open>
  Where the write fails the claim does not hold. The storage holds a configuration that
  enables OpenAI alone; \<open>setActiveProvider\<close> for Anthropic loads it, assigns the flags (for
  Anthropic, which has no record, on the built-in default itself), and the write throws,
  which the \<open>catch\<close> swallows. The next load shows OpenAI and Anthropic enabled.
\<close>

theorem failed_write_two_enabled:
  "registry_ok (initial_registry (Some ''[stored]''))
   \<and> ''Anthropic'' \<in> set provider_names
   \<and> enabled_names (getAvailableProviders stranger_parse (initial_registry (Some ''[stored]'')))
       = [Some (JStr ''OpenAI'')]
   \<and> enabled_names
        (getAvailableProviders stranger_parse
           (setActiveProvider stranger_parse (\<lambda>v. ''[new]'') quota_exceeded ''Anthropic''
              (initial_registry (Some ''[stored]''))))
       = [Some (JStr ''OpenAI''), Some (JStr ''Anthropic'')]"
proof -
  have "registry_ok (initial_registry (Some ''[stored]''))" by (rule initial_registry_ok)
  moreover have "''Anthropic'' \<in> set provider_names" by (simp add: provider_names_def)
  moreover have "enabled_names
      (getAvailableProviders stranger_parse (initial_registry (Some ''[stored]'')))
       = [Some (JStr ''OpenAI'')]"
    by code_simp
  moreover have "enabled_names
        (getAvailableProviders stranger_parse
           (setActiveProvider stranger_parse (\<lambda>v. ''[new]'') quota_exceeded ''Anthropic''
              (initial_registry (Some ''[stored]''))))
       = [Some (JStr ''OpenAI''), Some (JStr ''Anthropic'')]"
    by code_simp
  ultimately show ?thesis by blast
qed

section \<open>Framework detection\<close>

lemma framework_of_deps_priority:
  "fw_type (framework_of_deps deps) = first_match priority_rules (\<lambda>d. truthy_opt (obj_get deps d))"
  by (simp add: framework_of_deps_def priority_rules_def)

lemma store_framework_of_deps_priority:
  "(case store_framework_of_deps deps of None \<Rightarrow> vanilla | Some info \<Rightarrow> fw_type info)
     = first_match (butlast priority_rules) (\<lambda>d. truthy_opt (obj_get deps d))"
  by (simp add: store_framework_of_deps_def priority_rules_def)

lemma detectFramework_deps:
  "detectFramework P fmap = framework_of_deps (dependency_table P fmap)"
  by (simp add: detectFramework_def dependency_table_def try_catch_def Let_def
      split: option.splits sum.splits)

lemma store_detectFramework_deps:
  "store_detectFramework P fmap
     = (case store_framework_of_deps (dependency_table P fmap) of
          None \<Rightarrow> store_vanilla | Some info \<Rightarrow> info)"
proof -
  have e: "store_framework_of_deps [] = None"
    by (simp add: store_framework_of_deps_def obj_get_def truthy_opt_def)
  show ?thesis
    by (simp add: store_detectFramework_def dependency_table_def try_catch_def e
        split: option.splits sum.splits)
qed

lemma declares_eq: "declares P fmap = (\<lambda>d. truthy_opt (obj_get (dependency_table P fmap) d))"
  by (rule ext) (simp add: declares_def)

lemma detectFramework_priority:
  "fw_type (detectFramework P fmap) = first_match priority_rules (declares P fmap)"
  by (simp add: detectFramework_deps framework_of_deps_priority declares_eq)

lemma store_detectFramework_priority:
  "fw_type (store_detectFramework P fmap) = first_match (butlast priority_rules) (declares P fmap)"
  using store_framework_of_deps_priority [of "dependency_table P fmap"]
  by (simp add: store_detectFramework_deps declares_eq store_vanilla_def split: option.splits)

lemma react_and_next_is_nextjs:
  assumes "declares P fmap ''react''" "declares P fmap ''next''"
  shows "fw_type (detectFramework P fmap) = nextjs"
    and "fw_type (store_detectFramework P fmap) = nextjs"
  using assms
  by (simp_all add: detectFramework_priority store_detectFramework_priority priority_rules_def)

lemma unparsable_manifest_is_vanilla:
  assumes "obj_get fmap ''package.json'' = Some text" "P text = None"
  shows "fw_type (detectFramework P fmap) = vanilla"
    and "fw_type (store_detectFramework P fmap) = vanilla"
  using assms
  by (simp_all add: detectFramework_priority store_detectFramework_priority priority_rules_def
      declares_eq dependency_table_def obj_get_def truthy_opt_def)

text \<open>
  Claim C6. The classification priority react/nextjs, vue/nuxt, svelte, angular, express,
  fastify, vanilla is to be applied first match wins. The detector of the context distiller
  does so (\<open>detectFramework_priority\<close>), and both detectors classify a manifest that declares
  react and next as nextjs and fall back to vanilla when the manifest does not parse. The
  store's detector has no fastify rule: for the FileMap whose manifest is
  \<open>{"dependencies":{"fastify":"4.0.0"}}\<close>, parsed as the runtime parses it, the store's
  detector answers vanilla where the distiller's answers fastify.
\<close>

theorem store_detectFramework_misses_fastify:
  "fw_type (store_detectFramework
        (\<lambda>s. if s = fastify_manifest
              then Some (JObj [(''dependencies'', JObj [(''fastify'', JStr ''4.0.0'')])])
              else None)
        [(''package.json'', fastify_manifest)]) = vanilla
   \<and> fw_type (detectFramework
        (\<lambda>s. if s = fastify_manifest
              then Some (JObj [(''dependencies'', JObj [(''fastify'', JStr ''4.0.0'')])])
              else None)
        [(''package.json'', fastify_manifest)]) = fastify"
  by code_simp

section \<open>The streaming dispatcher\<close>

lemma js_split_nonempty: "js_split d s \<noteq> []"
  by (induction s) (auto split: list.splits)

lemma js_split_append_gen:
  "js_split d (x @ y) = butlast (js_split d x) @ js_split d (last (js_split d x) @ y)"
proof (induction x)
  case Nil
  then show ?case by simp
next
  case (Cons c x)
  obtain ls r where s: "js_split d x = ls @ [r]"
    using js_split_nonempty [of d x] by (metis append_butlast_last_id)
  with Cons have IH: "js_split d (x @ y) = ls @ js_split d (r @ y)" by simp
  show ?case
  proof (cases "c = d")
    case True
    with s IH show ?thesis by simp
  next
    case False
    obtain z zs where z: "js_split d (r @ y) = z # zs"
      using js_split_nonempty [of d "r @ y"] by (cases "js_split d (r @ y)") auto
    show ?thesis
    proof (cases ls)
      case Nil
      with False s IH z show ?thesis by simp
    next
      case (Cons l ls')
      with False s IH z show ?thesis by simp
    qed
  qed
qed

lemma last_js_split_no_sep: "d \<notin> set (last (js_split d s))"
proof (induction s)
  case Nil
  then show ?case by simp
next
  case (Cons c s)
  then show ?case
    using js_split_nonempty [of d s] by (cases "js_split d s") (auto split: if_splits)
qed

lemma js_split_no_sep: "d \<notin> set s \<Longrightarrow> js_split d s = [s]"
  by (induction s) auto

lemma pop_last: "xs \<noteq> [] \<Longrightarrow> pop xs = Some (last xs)"
  by (cases xs rule: rev_cases) (auto simp: pop_def)

lemma ollama_line_event:
  "ollama_line P cb line st
     = (case ollama_event P line of
          Skipped \<Rightarrow> Some st
        | Done \<Rightarrow> None
        | Delta d \<Rightarrow> Some (accumulate cb d st))"
proof (cases "trim line = []")
  case True
  then show ?thesis by (simp add: ollama_line_def ollama_event_def)
next
  case blank: False
  show ?thesis
  proof (cases "P line")
    case None
    with blank show ?thesis by (simp add: ollama_line_def ollama_event_def)
  next
    case (Some data)
    show ?thesis
    proof (cases "data = JNull")
      case True
      with blank Some show ?thesis by (simp add: ollama_line_def ollama_event_def read_prop_def)
    next
      case False
      then have r: "read_prop (Some data) k = Inr (get_prop data k)" for k
        by (cases data) (simp_all add: read_prop_def)
      from False have e: "ollama_event P line
          = (if truthy_opt (get_prop data ''done'') then Done
             else (case get_prop data ''response'' of
                     None \<Rightarrow> Delta []
                   | Some r \<Rightarrow>
                       if truthy r
                       then (case ToString r of Inl e \<Rightarrow> Skipped | Inr t \<Rightarrow> Delta t)
                       else Delta []))"
        using blank Some by (cases data) (simp_all add: ollama_event_def)
      show ?thesis
        unfolding e using blank Some
        by (simp add: ollama_line_def r text_or_empty_def truthy_opt_def ToString_opt_def
            split: option.splits sum.splits)
    qed
  qed
qed

lemma running_from_Nil: "running_from t [] = []"
  by (simp add: running_from_def)

lemma running_from_Cons: "running_from t (d # ds) = (t @ d) # running_from (t @ d) ds"
proof -
  have "[1..<Suc (Suc (length ds))] = 1 # map Suc [1..<Suc (length ds)]"
    by (simp add: upt_conv_Cons map_Suc_upt del: upt_Suc)
  then show ?thesis by (simp add: running_from_def comp_def del: upt_Suc)
qed

lemma running_from_append:
  "running_from t (xs @ ys) = running_from t xs @ running_from (t @ concat xs) ys"
  by (induction xs arbitrary: t) (simp_all add: running_from_Nil running_from_Cons)

lemma running_texts_from: "running_texts ds = running_from [] ds"
  by (simp add: running_texts_def running_from_def)

lemma for_lines_heard:
  "for_lines (ollama_line P True) ls (t, cbs)
     = (t @ concat (heard (ollama_event P) ls), cbs @ running_from t (heard (ollama_event P) ls))"
proof (induction ls arbitrary: t cbs)
  case Nil
  show ?case by (simp add: running_from_Nil)
next
  case (Cons l ls)
  show ?case
  proof (cases "ollama_event P l")
    case (Delta d)
    then have "ollama_line P True l (t, cbs) = Some (t @ d, cbs @ [t @ d])"
      by (simp add: ollama_line_event accumulate_def Let_def)
    with Delta Cons.IH [of "t @ d" "cbs @ [t @ d]"] show ?thesis
      by (simp add: running_from_Cons)
  next
    case Done
    then show ?thesis by (simp add: ollama_line_event running_from_Nil)
  next
    case Skipped
    with Cons.IH [of t cbs] show ?thesis by (simp add: ollama_line_event)
  qed
qed

lemma read_stream_heard:
  "read_stream (ollama_line P True) chunks buffer (t, cbs)
     = (t @ concat (concat (map (heard (ollama_event P)) (batches chunks buffer))),
        cbs @ running_from t (concat (map (heard (ollama_event P)) (batches chunks buffer))))"
proof (induction chunks arbitrary: buffer t cbs)
  case Nil
  show ?case by (simp add: running_from_Nil)
next
  case (Cons c cs)
  let ?J = "js_split (CHR 0x0A) (buffer @ c)"
  let ?H = "heard (ollama_event P) (wire_lines (buffer @ c))"
  have step: "read_stream (ollama_line P True) (c # cs) buffer (t, cbs)
      = read_stream (ollama_line P True) cs (last ?J) (t @ concat ?H, cbs @ running_from t ?H)"
    using js_split_nonempty [of "CHR 0x0A" "buffer @ c"]
    by (simp add: Let_def pop_last for_lines_heard wire_lines_def)
  show ?case
    unfolding step Cons.IH by (simp add: running_from_append)
qed

lemma heard_append:
  "list_all (\<lambda>l. event l \<noteq> Done) xs \<Longrightarrow> heard event (xs @ ys) = heard event xs @ heard event ys"
  by (induction xs) (auto split: wire_event.splits)

lemma wire_lines_append:
  "wire_lines (x @ y)
     = wire_lines x @ wire_lines (last (js_split (CHR 0x0A) x) @ y)"
  using js_split_append_gen [of "CHR 0x0A" x y]
    js_split_nonempty [of "CHR 0x0A" "last (js_split (CHR 0x0A) x) @ y"]
  by (simp add: wire_lines_def butlast_append)

lemma batches_wire:
  assumes "CHR 0x0A \<notin> set buffer"
    and "list_all (\<lambda>l. event l \<noteq> Done) (butlast (wire_lines (buffer @ concat chunks)))"
  shows "concat (map (heard event) (batches chunks buffer))
           = heard event (wire_lines (buffer @ concat chunks))"
  using assms
proof (induction chunks arbitrary: buffer)
  case Nil
  then show ?case by (simp add: wire_lines_def js_split_no_sep)
next
  case (Cons c cs)
  let ?b = "last (js_split (CHR 0x0A) (buffer @ c))"
  let ?L1 = "wire_lines (buffer @ c)"
  let ?L2 = "wire_lines (?b @ concat cs)"
  have lines: "wire_lines (buffer @ concat (c # cs)) = ?L1 @ ?L2"
    using wire_lines_append [of "buffer @ c" "concat cs"] by simp
  have b: "CHR 0x0A \<notin> set ?b" by (rule last_js_split_no_sep)
  show ?case
  proof (cases "?L2 = []")
    case True
    then have "list_all (\<lambda>l. event l \<noteq> Done) (butlast ?L2)" by simp
    from Cons.IH [OF b this] True lines show ?thesis by simp
  next
    case False
    with Cons.prems(2) lines have n1: "list_all (\<lambda>l. event l \<noteq> Done) ?L1"
      and n2: "list_all (\<lambda>l. event l \<noteq> Done) (butlast ?L2)"
      by (simp_all add: butlast_append)
    from Cons.IH [OF b n2] lines heard_append [OF n1] show ?thesis by simp
  qed
qed

lemma example_lines: "wire_lines example_wire = [response_a_line, response_b_line, done_line]"
  by code_simp

lemma example_events:
  assumes "P response_a_line = Some (JObj [(''response'', JStr ''a'')])"
    and "P response_b_line = Some (JObj [(''response'', JStr ''b'')])"
    and "P done_line = Some (JObj [(''done'', JBool True)])"
  shows "ollama_event P response_a_line = Delta ''a''"
    and "ollama_event P response_b_line = Delta ''b''"
    and "ollama_event P done_line = Done"
proof -
  have t: "trim response_a_line \<noteq> []" "trim response_b_line \<noteq> []" "trim done_line \<noteq> []"
    by code_simp+
  show "ollama_event P response_a_line = Delta ''a''"
    using assms(1) t(1) by (simp add: ollama_event_def truthy_opt_def)
  show "ollama_event P response_b_line = Delta ''b''"
    using assms(2) t(2) by (simp add: ollama_event_def truthy_opt_def)
  show "ollama_event P done_line = Done"
    using assms(3) t(3) by (simp add: ollama_event_def truthy_opt_def)
qed

lemma example_deltas:
  assumes "P response_a_line = Some (JObj [(''response'', JStr ''a'')])"
    and "P response_b_line = Some (JObj [(''response'', JStr ''b'')])"
    and "P done_line = Some (JObj [(''done'', JBool True)])"
    and "concat chunks = example_wire"
  shows "wire_deltas (ollama_event P) chunks = [''a'', ''b'']"
proof -
  note ev = example_events [OF assms(1-3)]
  have "list_all (\<lambda>l. ollama_event P l \<noteq> Done) (butlast (wire_lines ([] @ concat chunks)))"
    by (simp add: assms(4) example_lines ev)
  from batches_wire [OF _ this] have "wire_deltas (ollama_event P) chunks
      = heard (ollama_event P) (wire_lines (concat chunks))"
    by (simp add: wire_deltas_def)
  then show ?thesis by (simp add: assms(4) example_lines ev)
qed

lemma running_example: "running_texts [''a'', ''b''] = [''a'', ''ab'']"
  by code_simp

lemma ollama_stream:
  assumes "ToString_opt (map_of provider ''baseUrl'') = Inr url"
    and "\<forall>r. fetch r = Inr resp" "resp_ok resp" "resp_body resp = Some (chunks, failure)"
  shows "callbacks (snd (generateOllamaResponse P fetch provider prompt systemInstruction True modelId))
           = running_texts (wire_deltas (ollama_event P) chunks)"
    and "fst (generateOllamaResponse P fetch provider prompt systemInstruction True modelId)
           = (case failure of
                Some e \<Rightarrow> Inl e
              | None \<Rightarrow>
                  Inr (if concat (wire_deltas (ollama_event P) chunks) = []
                       then ''No response generated. The model may still be loading.''
                       else concat (wire_deltas (ollama_event P) chunks)))"
proof -
  have rs: "read_stream (ollama_line P True) chunks [] ([], [])
      = (concat (wire_deltas (ollama_event P) chunks),
         running_texts (wire_deltas (ollama_event P) chunks))"
    by (simp add: read_stream_heard wire_deltas_def running_texts_from)
  have g: "generateOllamaResponse P fetch provider prompt systemInstruction True modelId
      = (case failure of
           Some e \<Rightarrow> Inl e
         | None \<Rightarrow>
             Inr (if concat (wire_deltas (ollama_event P) chunks) = []
                  then ''No response generated. The model may still be loading.''
                  else concat (wire_deltas (ollama_event P) chunks)),
         \<lparr>requests = [\<lparr>req_url = url @ ''/api/generate'', req_method = ''POST'',
                        req_headers = [(''Content-Type'', ''application/json'')],
                        req_body = JObj [(''model'', or_default modelId ''qwen2.5:0.5b''),
                                         (''prompt'', JStr (systemInstruction @ [CHR 0x0A, CHR 0x0A]
                                            @ ''User: '' @ prompt @ [CHR 0x0A] @ ''Assistant:'')),
                                         (''stream'', JBool True),
                                         (''options'', JObj [(''temperature'', JNum ''0.1''),
                                                             (''top_p'', JNum ''0.9''),
                                                             (''top_k'', JNum ''40''),
                                                             (''num_predict'', JNum ''1024''),
                                                             (''num_ctx'', JNum ''2048'')])],
                        req_timeout = 30000\<rparr>],
           callbacks = running_texts (wire_deltas (ollama_event P) chunks)\<rparr>)"
    using assms
    by (simp add: generateOllamaResponse_def consume_def Let_def rs del: concat_eq_Nil_conv
        split: option.splits)
  show "callbacks (snd (generateOllamaResponse P fetch provider prompt systemInstruction True modelId))
           = running_texts (wire_deltas (ollama_event P) chunks)"
    unfolding g by simp
  show "fst (generateOllamaResponse P fetch provider prompt systemInstruction True modelId)
           = (case failure of
                Some e \<Rightarrow> Inl e
              | None \<Rightarrow>
                  Inr (if concat (wire_deltas (ollama_event P) chunks) = []
                       then ''No response generated. The model may still be loading.''
                       else concat (wire_deltas (ollama_event P) chunks)))"
    unfolding g by simp
qed

text \<open>
  Claim C7. For the newline-delimited JSON adapter, with a provider whose address converts
  to text and a response that is a success with a readable body: the callback texts are the
  running concatenations of the deltas heard on the wire, in the order of arrival (the
  first delta, then the first two, and so on), so each invocation carries the full text
  accumulated so far; the text returned is all the deltas together, or the fallback text
  when that is empty, unless a read fails. The deltas heard are those of the whole lines of
  the wire in their order, however the wire is cut into chunks, as long as no line before
  the last whole one says \<open>done\<close>. When the stream delivers the lines
  \<open>{"response": "a"}\<close>, \<open>{"response": "b"}\<close>, \<open>{"done": true}\<close>, each ended by a line
  feed and cut into chunks in any way, and \<open>JSON.parse\<close> reads the three lines as what they
  say, the callback is invoked exactly twice, with \<open>a\<close> and then \<open>ab\<close>, and the function
  returns \<open>ab\<close>.
\<close>

theorem ollama_callbacks_accumulate:
  "(ToString_opt (map_of provider ''baseUrl'') = Inr url
      \<and> (\<forall>r. fetch r = Inr resp) \<and> resp_ok resp \<and> resp_body resp = Some (chunks, failure)
    \<longrightarrow> callbacks (snd (generateOllamaResponse P fetch provider prompt systemInstruction True modelId))
          = running_texts (wire_deltas (ollama_event P) chunks)
      \<and> fst (generateOllamaResponse P fetch provider prompt systemInstruction True modelId)
          = (case failure of
               Some e \<Rightarrow> Inl e
             | None \<Rightarrow>
                 Inr (if concat (wire_deltas (ollama_event P) chunks) = []
                      then ''No response generated. The model may still be loading.''
                      else concat (wire_deltas (ollama_event P) chunks))))
   \<and> (list_all (\<lambda>line. ollama_event P line \<noteq> Done) (butlast (wire_lines (concat chunks)))
    \<longrightarrow> wire_deltas (ollama_event P) chunks = heard (ollama_event P) (wire_lines (concat chunks)))
   \<and> (ToString_opt (map_of provider ''baseUrl'') = Inr url
      \<and> (\<forall>r. fetch r = Inr resp) \<and> resp_ok resp \<and> resp_body resp = Some (chunks, None)
      \<and> P response_a_line = Some (JObj [(''response'', JStr ''a'')])
      \<and> P response_b_line = Some (JObj [(''response'', JStr ''b'')])
      \<and> P done_line = Some (JObj [(''done'', JBool True)])
      \<and> concat chunks = example_wire
    \<longrightarrow> callbacks (snd (generateOllamaResponse P fetch provider prompt systemInstruction True modelId))
          = [''a'', ''ab'']
      \<and> fst (generateOllamaResponse P fetch provider prompt systemInstruction True modelId) = Inr ''ab'')"
proof -
  have a: "callbacks (snd (generateOllamaResponse P fetch provider prompt systemInstruction True modelId))
          = running_texts (wire_deltas (ollama_event P) chunks)
      \<and> fst (generateOllamaResponse P fetch provider prompt systemInstruction True modelId)
          = (case failure of
               Some e \<Rightarrow> Inl e
             | None \<Rightarrow>
                 Inr (if concat (wire_deltas (ollama_event P) chunks) = []
                      then ''No response generated. The model may still be loading.''
                      else concat (wire_deltas (ollama_event P) chunks)))"
    if "ToString_opt (map_of provider ''baseUrl'') = Inr url" "\<forall>r. fetch r = Inr resp"
      "resp_ok resp" "resp_body resp = Some (chunks, failure)"
    using ollama_stream [OF that] by simp
  have b: "wire_deltas (ollama_event P) chunks = heard (ollama_event P) (wire_lines (concat chunks))"
    if "list_all (\<lambda>line. ollama_event P line \<noteq> Done) (butlast (wire_lines (concat chunks)))"
    using batches_wire [of "[]" "ollama_event P" chunks] that by (simp add: wire_deltas_def)
  have c: "callbacks (snd (generateOllamaResponse P fetch provider prompt systemInstruction True modelId))
          = [''a'', ''ab'']
      \<and> fst (generateOllamaResponse P fetch provider prompt systemInstruction True modelId) = Inr ''ab''"
    if u: "ToString_opt (map_of provider ''baseUrl'') = Inr url" "\<forall>r. fetch r = Inr resp"
      "resp_ok resp" "resp_body resp = Some (chunks, None)"
      and p: "P response_a_line = Some (JObj [(''response'', JStr ''a'')])"
      "P response_b_line = Some (JObj [(''response'', JStr ''b'')])"
      "P done_line = Some (JObj [(''done'', JBool True)])"
      and w: "concat chunks = example_wire"
    using ollama_stream [OF u] example_deltas [OF p w] running_example by simp
  from a b c show ?thesis by blast
qed

theorem ollama_callbacks_accumulate_witness:
  "ToString_opt (map_of Ollama_default ''baseUrl'') = Inr ''http://localhost:11434''
   \<and> list_all (\<lambda>line. ollama_event example_parse line \<noteq> Done)
        (butlast (wire_lines (concat example_chunks)))
   \<and> example_parse response_a_line = Some (JObj [(''response'', JStr ''a'')])
   \<and> example_parse response_b_line = Some (JObj [(''response'', JStr ''b'')])
   \<and> example_parse done_line = Some (JObj [(''done'', JBool True)])
   \<and> concat example_chunks = example_wire
   \<and> wire_deltas (ollama_event example_parse) example_chunks = [''a'', ''b'']
   \<and> fst (generateOllamaResponse example_parse
             (\<lambda>r. Inr \<lparr>resp_ok = True, resp_status = 200, resp_statusText = ''OK'',
                         resp_body = Some (example_chunks, None)\<rparr>)
             Ollama_default ''Hello'' ''Be brief.'' True (JStr ''qwen2.5:0.5b'')) = Inr ''ab''
   \<and> callbacks (snd (generateOllamaResponse example_parse
             (\<lambda>r. Inr \<lparr>resp_ok = True, resp_status = 200, resp_statusText = ''OK'',
                         resp_body = Some (example_chunks, None)\<rparr>)
             Ollama_default ''Hello'' ''Be brief.'' True (JStr ''qwen2.5:0.5b''))) = [''a'', ''ab'']"
proof -
  have u: "ToString_opt (map_of Ollama_default ''baseUrl'') = Inr ''http://localhost:11434''"
    by code_simp
  have n: "list_all (\<lambda>line. ollama_event example_parse line \<noteq> Done)
        (butlast (wire_lines (concat example_chunks)))"
    by code_simp
  have p: "example_parse response_a_line = Some (JObj [(''response'', JStr ''a'')])"
    "example_parse response_b_line = Some (JObj [(''response'', JStr ''b'')])"
    "example_parse done_line = Some (JObj [(''done'', JBool True)])"
    by code_simp+
  have c: "concat example_chunks = example_wire" by code_simp
  have h: "heard (ollama_event example_parse) (wire_lines (concat example_chunks)) = [''a'', ''b'']"
    by code_simp
  let ?resp = "\<lparr>resp_ok = True, resp_status = 200, resp_statusText = ''OK'',
                 resp_body = Some (example_chunks, None)\<rparr>"
  have f: "\<forall>r. (\<lambda>r. Inr ?resp :: error + response) r = Inr ?resp" "resp_ok ?resp"
    "resp_body ?resp = Some (example_chunks, None)"
    by simp_all
  note T = ollama_callbacks_accumulate
    [of Ollama_default "''http://localhost:11434''" "\<lambda>r. Inr ?resp" ?resp
        example_chunks None example_parse "''Hello''" "''Be brief.''" "JStr ''qwen2.5:0.5b''"]
  from T n h have d: "wire_deltas (ollama_event example_parse) example_chunks = [''a'', ''b'']"
    by (simp only:)
  from T u f p c have r: "callbacks (snd (generateOllamaResponse example_parse (\<lambda>r. Inr ?resp)
             Ollama_default ''Hello'' ''Be brief.'' True (JStr ''qwen2.5:0.5b''))) = [''a'', ''ab'']
      \<and> fst (generateOllamaResponse example_parse (\<lambda>r. Inr ?resp)
             Ollama_default ''Hello'' ''Be brief.'' True (JStr ''qwen2.5:0.5b'')) = Inr ''ab''"
    by blast
  from u n p c d r show ?thesis by blast
qed

lemma generateLocalResponse_returns:
  "\<exists>text. fst (generateLocalResponse P fetch origin reg prompt sys cb modelId) = Inr text"
  by (cases "fst (dispatch P fetch origin reg prompt sys cb modelId)")
     (simp_all add: generateLocalResponse_def try_catch_def Let_def)

text \<open>
  Claim C4. For every prompt, system instruction, callback and model id, every registry
  state, whatever the network and \<open>JSON.parse\<close> answer, \<open>generateLocalResponse\<close> returns a
  text and propagates no exception. With no provider enabled it returns its explanatory
  text and sends no request. Whatever is thrown inside (by the adapters: a missing
  credential, raised before any request; a rejected \<open>fetch\<close>, such as the abort of the
  timeout; a status that is not a success; a response without a readable body; a read that
  fails) is turned by the handler into the text \<open>Error: <message>. Please check your
  provider configuration.\<close>, and the requests and callbacks made before the throw stand.
\<close>

theorem generateLocalResponse_never_throws:
  "(\<exists>text. fst (generateLocalResponse P fetch origin reg prompt sys cb modelId) = Inr text)
   \<and> (getActiveProvider P reg = None \<longrightarrow>
        generateLocalResponse P fetch origin reg prompt sys cb modelId
          = (Inr ''No AI provider configured. Please check your settings.'', no_effects))
   \<and> (fst (dispatch P fetch origin reg prompt sys cb modelId) = Inl e \<longrightarrow>
        fst (generateLocalResponse P fetch origin reg prompt sys cb modelId)
          = Inr (''Error: '' @ message e @ ''. Please check your provider configuration.''))
   \<and> snd (generateLocalResponse P fetch origin reg prompt sys cb modelId)
        = snd (dispatch P fetch origin reg prompt sys cb modelId)
   \<and> (\<not> truthy_opt (map_of provider ''apiKey'') \<longrightarrow>
        generateOpenAIResponse P fetch provider prompt sys cb model
          = (Inl (Error ''OpenAI API key not configured''), no_effects)
        \<and> generateAnthropicResponse P fetch provider prompt sys cb model
          = (Inl (Error ''Anthropic API key not configured''), no_effects)
        \<and> generateOpenRouterResponse P fetch origin provider prompt sys cb model
          = (Inl (Error ''OpenRouter API key not configured''), no_effects))
   \<and> fst (consume api fallback body req (Inl e')) = Inl e'
   \<and> (\<not> resp_ok resp \<longrightarrow>
        fst (consume api fallback body req (Inr resp))
          = Inl (Error (api @ '' API error: '' @ show_int (resp_status resp) @ '' ''
                         @ resp_statusText resp)))
   \<and> (resp_ok resp \<and> resp_body resp = None \<longrightarrow>
        fst (consume api fallback body req (Inr resp)) = Inl (Error ''Unable to read response stream''))
   \<and> (resp_ok resp \<and> resp_body resp = Some (chunks, Some e'') \<longrightarrow>
        fst (consume api fallback body req (Inr resp)) = Inl e'')"
proof -
  have 1: "\<exists>text. fst (generateLocalResponse P fetch origin reg prompt sys cb modelId) = Inr text"
    by (rule generateLocalResponse_returns)
  have 2: "getActiveProvider P reg = None \<longrightarrow>
        generateLocalResponse P fetch origin reg prompt sys cb modelId
          = (Inr ''No AI provider configured. Please check your settings.'', no_effects)"
    by (simp add: generateLocalResponse_def dispatch_def try_catch_def Let_def)
  have 3: "fst (dispatch P fetch origin reg prompt sys cb modelId) = Inl e \<longrightarrow>
        fst (generateLocalResponse P fetch origin reg prompt sys cb modelId)
          = Inr (''Error: '' @ message e @ ''. Please check your provider configuration.'')"
    by (simp add: generateLocalResponse_def try_catch_def Let_def)
  have 4: "snd (generateLocalResponse P fetch origin reg prompt sys cb modelId)
        = snd (dispatch P fetch origin reg prompt sys cb modelId)"
    by (simp add: generateLocalResponse_def Let_def)
  have 5: "\<not> truthy_opt (map_of provider ''apiKey'') \<longrightarrow>
        generateOpenAIResponse P fetch provider prompt sys cb model
          = (Inl (Error ''OpenAI API key not configured''), no_effects)
        \<and> generateAnthropicResponse P fetch provider prompt sys cb model
          = (Inl (Error ''Anthropic API key not configured''), no_effects)
        \<and> generateOpenRouterResponse P fetch origin provider prompt sys cb model
          = (Inl (Error ''OpenRouter API key not configured''), no_effects)"
    by (simp add: generateOpenAIResponse_def generateAnthropicResponse_def
        generateOpenRouterResponse_def)
  have 6: "fst (consume api fallback body req (Inl e')) = Inl e'"
    by (simp add: consume_def)
  have 7: "\<not> resp_ok resp \<longrightarrow>
        fst (consume api fallback body req (Inr resp))
          = Inl (Error (api @ '' API error: '' @ show_int (resp_status resp) @ '' ''
                         @ resp_statusText resp))"
    by (simp add: consume_def)
  have 8: "resp_ok resp \<and> resp_body resp = None \<longrightarrow>
        fst (consume api fallback body req (Inr resp)) = Inl (Error ''Unable to read response stream'')"
    by (simp add: consume_def)
  have 9: "resp_ok resp \<and> resp_body resp = Some (chunks, Some e'') \<longrightarrow>
        fst (consume api fallback body req (Inr resp)) = Inl e''"
    by (simp add: consume_def Let_def)
  from 1 2 3 4 5 6 7 8 9 show ?thesis by blast
qed

theorem generateLocalResponse_never_throws_witness:
  "getActiveProvider (\<lambda>s. Some stored_none_enabled) (initial_registry (Some ''[...]'')) = None
   \<and> generateLocalResponse (\<lambda>s. Some stored_none_enabled) (\<lambda>r. Inl (TypeError ''Failed to fetch''))
        ''http://localhost:3001'' (initial_registry (Some ''[...]'')) ''Hello'' ''Be brief.'' False None
      = (Inr ''No AI provider configured. Please check your settings.'', no_effects)
   \<and> fst (dispatch (\<lambda>s. None) (\<lambda>r. Inl (AbortError ''The user aborted a request.''))
        ''http://localhost:3001'' (initial_registry None) ''Hello'' ''Be brief.'' False None)
      = Inl (AbortError ''The user aborted a request.'')
   \<and> fst (generateLocalResponse (\<lambda>s. None) (\<lambda>r. Inl (AbortError ''The user aborted a request.''))
        ''http://localhost:3001'' (initial_registry None) ''Hello'' ''Be brief.'' False None)
      = Inr ''Error: The user aborted a request.. Please check your provider configuration.''
   \<and> generateLocalResponse (\<lambda>s. Some stored_openai_without_key) (\<lambda>r. Inl (TypeError ''Failed to fetch''))
        ''http://localhost:3001'' (initial_registry (Some ''[...]'')) ''Hello'' ''Be brief.'' False
        (Some ''gpt-4o'')
      = (Inr ''Error: OpenAI API key not configured. Please check your provider configuration.'',
         no_effects)"
proof -
  have a: "getActiveProvider (\<lambda>s. Some stored_none_enabled) (initial_registry (Some ''[...]'')) = None"
    by code_simp
  have b: "fst (dispatch (\<lambda>s. None) (\<lambda>r. Inl (AbortError ''The user aborted a request.''))
        ''http://localhost:3001'' (initial_registry None) ''Hello'' ''Be brief.'' False None)
      = Inl (AbortError ''The user aborted a request.'')"
    by code_simp
  have c: "generateLocalResponse (\<lambda>s. Some stored_openai_without_key)
        (\<lambda>r. Inl (TypeError ''Failed to fetch''))
        ''http://localhost:3001'' (initial_registry (Some ''[...]'')) ''Hello'' ''Be brief.'' False
        (Some ''gpt-4o'')
      = (Inr ''Error: OpenAI API key not configured. Please check your provider configuration.'',
         no_effects)"
    by code_simp
  from generateLocalResponse_never_throws
      [of "\<lambda>s. Some stored_none_enabled" "\<lambda>r. Inl (TypeError ''Failed to fetch'')"
          "''http://localhost:3001''" "initial_registry (Some ''[...]'')" "''Hello''" "''Be brief.''"
          False None] a
  have d: "generateLocalResponse (\<lambda>s. Some stored_none_enabled) (\<lambda>r. Inl (TypeError ''Failed to fetch''))
        ''http://localhost:3001'' (initial_registry (Some ''[...]'')) ''Hello'' ''Be brief.'' False None
      = (Inr ''No AI provider configured. Please check your settings.'', no_effects)"
    by blast
  from generateLocalResponse_never_throws
      [of "\<lambda>s. None" "\<lambda>r. Inl (AbortError ''The user aborted a request.'')"
          "''http://localhost:3001''" "initial_registry None" "''Hello''" "''Be brief.''"
          False None "AbortError ''The user aborted a request.''"] b
  have e: "fst (generateLocalResponse (\<lambda>s. None) (\<lambda>r. Inl (AbortError ''The user aborted a request.''))
        ''http://localhost:3001'' (initial_registry None) ''Hello'' ''Be brief.'' False None)
      = Inr ''Error: The user aborted a request.. Please check your provider configuration.''"
    by simp
  from a b c d e show ?thesis by blast
qed

section \<open>Plan mode\<close>





section \<open>The invariant of the FileMap\<close>








text \<open>
  Plan mode writes nothing to the FileMap: the creation of the plan file throws before the
  live writing starts.
\<close>

lemma plan_mode_keeps_files:
  "files (snd (handlePlanMode env request ps st)) = files st"
proof (cases "respond env (prompts env PlanPrompt)
                (plan_fallback_instruction (store_framework_name env ps))")
  case (Inl e)
  then show ?thesis
    by (simp add: handlePlanMode_def plan_try_def plan_catch_def Let_def log_def)
next
  case (Inr planText)
  then show ?thesis
    by (simp add: handlePlanMode_def plan_try_def plan_catch_def Let_def log_def
        append_message_def)
qed

section \<open>The file actions in a model output\<close>

lemma startsWith_iff: "startsWith s p \<longleftrightarrow> (\<exists>r. s = p @ r)"
  by (induction s p rule: startsWith.induct) auto

lemma str_includes_iff: "str_includes s p \<longleftrightarrow> (\<exists>a b. s = a @ p @ b)"
proof (induction s)
  case Nil
  show ?case by auto
next
  case (Cons c cs)
  note IH = Cons.IH
  show ?case
  proof
    assume "str_includes (c # cs) p"
    then consider "startsWith (c # cs) p" | "str_includes cs p" by auto
    then show "\<exists>a b. c # cs = a @ p @ b"
    proof cases
      case 1
      then obtain r where "c # cs = p @ r" using startsWith_iff by blast
      then have "c # cs = [] @ p @ r" by simp
      then show ?thesis by blast
    next
      case 2
      then obtain a b where "cs = a @ p @ b" using IH by blast
      then have "c # cs = (c # a) @ p @ b" by simp
      then show ?thesis by blast
    qed
  next
    assume "\<exists>a b. c # cs = a @ p @ b"
    then obtain a b where ab: "c # cs = a @ p @ b" by blast
    show "str_includes (c # cs) p"
    proof (cases a)
      case Nil
      with ab have "startsWith (c # cs) p" using startsWith_iff by auto
      then show ?thesis by simp
    next
      case (Cons a1 a')
      with ab have "cs = a' @ p @ b" by simp
      then have "str_includes cs p" using IH by blast
      then show ?thesis by simp
    qed
  qed
qed

text \<open>A pattern whose first code unit does not recur starts only where it is found whole.\<close>

lemma no_early_start:
  assumes "\<not> str_includes c (x # ps)" "x \<notin> set ps" "c = v @ u" "u \<noteq> []"
  shows "\<not> startsWith (u @ (x # ps) @ aft) (x # ps)"
proof
  assume "startsWith (u @ (x # ps) @ aft) (x # ps)"
  then obtain r where r: "u @ (x # ps) @ aft = (x # ps) @ r" using startsWith_iff by blast
  with assms(4) obtain u' where u: "u = x # u'" by (cases u) auto
  with r have eq: "u' @ x # ps @ aft = ps @ r" by simp
  show False
  proof (cases "length u' < length ps")
    case True
    have "(u' @ x # ps @ aft) ! length u' = x" by simp
    with eq have "(ps @ r) ! length u' = x" by simp
    with True have "ps ! length u' = x" by (simp add: nth_append)
    with True assms(2) show False using nth_mem by blast
  next
    case False
    then have "length ps \<le> length u'" by simp
    with eq have "take (length ps) u' = ps"
      by (metis append_eq_append_conv_if append_eq_conv_conj)
    then have "u' = ps @ drop (length ps) u'" by (metis append_take_drop_id)
    with u assms(3) have "c = v @ (x # ps) @ drop (length ps) u'" by simp
    with assms(1) show False using str_includes_iff by blast
  qed
qed

lemma rx_lit: "rx_m (lit l) k s caps = (if startsWith s l then k (drop (length l) s) caps else None)"
  unfolding lit_def
proof (induction l arbitrary: s)
  case Nil
  show ?case by simp
next
  case (Cons a l)
  show ?case by (cases s) (simp_all add: Cons.IH)
qed

lemma rx_lit_app: "rx_m (lit l) k (l @ s) caps = k s caps"
  by (simp add: rx_lit startsWith_iff)

lemma star_greedy_none:
  assumes "\<forall>c\<in>set w. p c" "rest = [] \<or> \<not> p (hd rest)"
    and "\<And>v u. w = v @ u \<Longrightarrow> k (u @ rest) = None"
  shows "star_greedy p k (w @ rest) = None"
  using assms
proof (induction w)
  case Nil
  from Nil(3) [of "[]" "[]"] have "k rest = None" by simp
  with Nil(2) show ?case by (cases rest) auto
next
  case (Cons c w)
  have "star_greedy p k (w @ rest) = None"
  proof (rule Cons.IH)
    show "\<forall>c\<in>set w. p c" using Cons.prems(1) by simp
    show "rest = [] \<or> \<not> p (hd rest)" by (rule Cons.prems(2))
    fix v u
    assume "w = v @ u"
    then have "c # w = (c # v) @ u" by simp
    then show "k (u @ rest) = None" by (rule Cons.prems(3))
  qed
  moreover from Cons.prems(3) [of "[]" "c # w"] have "k ((c # w) @ rest) = None" by simp
  ultimately show ?case by simp
qed

lemma star_greedy_prefix:
  "\<forall>c\<in>set w. p c \<Longrightarrow> star_greedy p k s = Some r \<Longrightarrow> star_greedy p k (w @ s) = Some r"
  by (induction w) simp_all

text \<open>
  The greedy star gives back what it took until the continuation succeeds: \<open>w2\<close> is the
  longest tail of the run on which it does.
\<close>

lemma star_greedy_backtrack:
  assumes "\<forall>c\<in>set (w1 @ w2). p c" "rest = [] \<or> \<not> p (hd rest)"
    and "k (w2 @ rest) = Some r"
    and "\<And>v u. w2 = v @ u \<Longrightarrow> v \<noteq> [] \<Longrightarrow> k (u @ rest) = None"
  shows "star_greedy p k (w1 @ w2 @ rest) = Some r"
proof -
  have "star_greedy p k (w2 @ rest) = Some r"
  proof (cases w2)
    case Nil
    with assms(2,3) show ?thesis by (cases rest) auto
  next
    case (Cons c w)
    have "star_greedy p k (w @ rest) = None"
    proof (rule star_greedy_none)
      show "\<forall>c\<in>set w. p c" using assms(1) Cons by simp
      show "rest = [] \<or> \<not> p (hd rest)" by (rule assms(2))
      fix v u
      assume "w = v @ u"
      then have "w2 = (c # v) @ u" using Cons by simp
      then show "k (u @ rest) = None" using assms(4) by blast
    qed
    with assms(3) Cons show ?thesis by simp
  qed
  with assms(1) show ?thesis using star_greedy_prefix [of w1 p k "w2 @ rest" r] by simp
qed

lemma star_lazy_first:
  assumes "\<forall>c\<in>set a. p c" "k rest = Some r"
    and "\<And>v u. a = v @ u \<Longrightarrow> u \<noteq> [] \<Longrightarrow> k (u @ rest) = None"
  shows "star_lazy p k (a @ rest) = Some r"
  using assms
proof (induction a)
  case Nil
  then show ?case by (cases rest) simp_all
next
  case (Cons c a)
  have "star_lazy p k (a @ rest) = Some r"
  proof (rule Cons.IH)
    show "\<forall>c\<in>set a. p c" using Cons.prems(1) by simp
    show "k rest = Some r" by (rule Cons.prems(2))
    fix v u
    assume "a = v @ u" "u \<noteq> []"
    then have "c # a = (c # v) @ u" by simp
    with \<open>u \<noteq> []\<close> show "k (u @ rest) = None" using Cons.prems(3) by blast
  qed
  moreover from Cons.prems(3) [of "[]" "c # a"] have "k ((c # a) @ rest) = None" by simp
  ultimately show ?case using Cons.prems(1) by simp
qed

lemma trim_leading: "\<forall>c\<in>set ws. is_space c \<Longrightarrow> trim (ws @ s) = trim s"
  by (simp add: trim_def dropWhile_append2)

lemma not_blank:
  assumes "trim s \<noteq> []"
  obtains lead x r where "s = lead @ x # r" "\<forall>c\<in>set lead. is_space c" "\<not> is_space x"
proof -
  have ne: "dropWhile is_space s \<noteq> []"
  proof
    assume e: "dropWhile is_space s = []"
    have "trim s = []" unfolding trim_def e by simp
    with assms show False by simp
  qed
  then obtain x r where xr: "dropWhile is_space s = x # r" by (cases "dropWhile is_space s") auto
  then have "\<not> is_space x" using hd_dropWhile [OF ne] by simp
  moreover have "s = takeWhile is_space s @ x # r" using xr by (metis takeWhile_dropWhile_id)
  moreover have "\<forall>c\<in>set (takeWhile is_space s). is_space c" by (auto dest: set_takeWhileD)
  ultimately show ?thesis using that by blast
qed

lemma star_greedy_all:
  assumes "\<forall>c\<in>set w. p c" "rest = [] \<or> \<not> p (hd rest)" "k rest = Some r"
  shows "star_greedy p k (w @ rest) = Some r"
proof -
  from assms(2,3) have "star_greedy p k rest = Some r" by (cases rest) auto
  with assms(1) show ?thesis by (rule star_greedy_prefix)
qed

lemma rx_closer:
  "rx_m (seqs [Ch a, lit l]) k s caps
     = (if startsWith s (a # l) then k (drop (Suc (length l)) s) caps else None)"
  by (cases s) (simp_all add: rx_lit)

lemma match_create_block:
  assumes "well_formed_create p c"
  shows "\<exists>caps. rx_match_at createRegex (create_block p c @ aft) = Some (caps, aft)
           \<and> cap caps 1 = dropWhile is_space p \<and> trim (cap caps 2) = trim c"
proof -
  let ?nl = "CHR 0x0A"
  let ?closer = "?nl # ''[/CREATE]''"
  define K :: "string \<Rightarrow> caps \<Rightarrow> (caps \<times> string) option" where "K = (\<lambda>s' caps. Some (caps, s'))"
  define R5 where "R5 = seqs [Ch ?nl, lit ''[/CREATE]'']"
  define R4 where "R4 = Seq (Grp 2 (LazyStar any_char)) R5"
  define R3 where "R3 = Seq (Ch ?nl) R4"
  define R2 where "R2 = Seq (Star is_space) R3"
  define R1 where "R1 = Seq (Ch CHR '']'') R2"
  define R0 where "R0 = Seq (Grp 1 (Plus (\<lambda>c. c \<noteq> CHR '']''))) R1"
  have regex: "createRegex = Seq (lit ''[CREATE:'') (Seq (Star is_space) R0)"
    by (simp add: createRegex_def actionRegex_def R0_def R1_def R2_def R3_def R4_def R5_def)
  from assms have p1: "CHR '']'' \<notin> set p" and p2: "trim p \<noteq> []" and c1: "trim c \<noteq> []"
    and c2: "\<not> str_includes c ?closer"
    by (simp_all add: well_formed_create_def)
  from p2 obtain lead1 x1 pr where p: "p = lead1 @ x1 # pr"
    and lead1: "\<forall>c\<in>set lead1. is_space c" and x1: "\<not> is_space x1"
    by (rule not_blank)
  from c1 obtain lead x cr where c: "c = lead @ x # cr"
    and lead: "\<forall>c\<in>set lead. is_space c" and x: "\<not> is_space x"
    by (rule not_blank)
  have sp_nl: "is_space ?nl" and sp_sp: "is_space CHR '' ''" by (simp_all add: is_space_def)
  have "\<exists>w1 t. ?nl # lead = w1 @ ?nl # t \<and> ?nl \<notin> set t"
    by (rule split_list_last) simp
  then obtain w1 t where w: "?nl # lead = w1 @ ?nl # t" and t: "?nl \<notin> set t"
    by (elim exE conjE)
  from w obtain pre where pre: "lead = pre @ t" by (cases w1) auto
  have run: "\<forall>c\<in>set (w1 @ ?nl # t). is_space c"
  proof -
    have "\<forall>c\<in>set (?nl # lead). is_space c" using lead sp_nl by simp
    then show ?thesis unfolding w .
  qed
  define g1 where "g1 = x1 # pr"
  define g2 where "g2 = t @ x # cr"
  have cg: "c = pre @ g2" by (simp add: c pre g2_def)
  have trim1: "g1 = dropWhile is_space p"
    using lead1 x1 by (simp add: p g1_def dropWhile_append3)
  have trim2: "trim g2 = trim c"
  proof -
    have "trim g2 = trim (x # cr)" unfolding g2_def using run by (intro trim_leading) simp
    moreover have "trim c = trim (x # cr)" unfolding c using lead by (intro trim_leading)
    ultimately show ?thesis by simp
  qed
  have E5: "rx_m R5 k s caps = (if startsWith s ?closer then k (drop (length ?closer) s) caps else None)"
    for k :: "string \<Rightarrow> caps \<Rightarrow> (caps \<times> string) option" and s caps
    unfolding R5_def by (simp only: rx_closer) simp
  have E4: "rx_m R4 K (g2 @ ?closer @ aft) caps = Some (caps(2 \<mapsto> g2), aft)" for caps
  proof -
    let ?S = "g2 @ ?closer @ aft"
    let ?k = "\<lambda>s'. rx_m R5 K s' (caps(2 \<mapsto> take (length ?S - length s') ?S))"
    have "star_lazy any_char ?k (g2 @ (?closer @ aft)) = Some (caps(2 \<mapsto> g2), aft)"
    proof (rule star_lazy_first)
      show "\<forall>c\<in>set g2. any_char c" by (simp add: any_char_def)
      show "?k (?closer @ aft) = Some (caps(2 \<mapsto> g2), aft)" by (simp add: E5 K_def)
      fix v u
      assume vu: "g2 = v @ u" and u: "u \<noteq> []"
      then have "c = (pre @ v) @ u" by (simp add: cg)
      from no_early_start [OF c2 _ this u, of aft]
      have "\<not> startsWith (u @ ?closer @ aft) ?closer" by simp
      then show "?k (u @ ?closer @ aft) = None" by (simp add: E5)
    qed
    then show ?thesis by (simp add: R4_def)
  qed
  have E3: "rx_m R3 K (?nl # g2 @ ?closer @ aft) caps = Some (caps(2 \<mapsto> g2), aft)" for caps
    using E4 [of caps] by (simp add: R3_def)
  have E3n: "rx_m R3 K s caps = None" if "s = [] \<or> hd s \<noteq> ?nl" for s caps
    using that by (cases s) (simp_all add: R3_def)
  have E2: "rx_m R2 K (?nl # c @ ?closer @ aft) caps = Some (caps(2 \<mapsto> g2), aft)" for caps
  proof -
    let ?rest = "x # cr @ ?closer @ aft"
    let ?k = "\<lambda>s'. rx_m R3 K s' caps"
    have "star_greedy is_space ?k (w1 @ (?nl # t) @ ?rest) = Some (caps(2 \<mapsto> g2), aft)"
    proof (rule star_greedy_backtrack)
      show "\<forall>c\<in>set (w1 @ ?nl # t). is_space c" by (rule run)
      show "?rest = [] \<or> \<not> is_space (hd ?rest)" using x by simp
      show "?k ((?nl # t) @ ?rest) = Some (caps(2 \<mapsto> g2), aft)"
        using E3 [of caps] by (simp add: g2_def)
      fix v u
      assume vu: "?nl # t = v @ u" and v: "v \<noteq> []"
      then have "set u \<subseteq> set t" by (cases v) auto
      with t x sp_nl have "hd (u @ ?rest) \<noteq> ?nl" by (cases u) auto
      then show "?k (u @ ?rest) = None" by (intro E3n) simp
    qed
    moreover have "?nl # c @ ?closer @ aft = w1 @ (?nl # t) @ ?rest"
    proof -
      have "?nl # c @ ?closer @ aft = (?nl # lead) @ ?rest" by (simp add: c)
      also have "\<dots> = (w1 @ ?nl # t) @ ?rest" by (simp only: w)
      finally show ?thesis by simp
    qed
    ultimately have "star_greedy is_space ?k (?nl # c @ ?closer @ aft) = Some (caps(2 \<mapsto> g2), aft)"
      by (simp only:)
    then show ?thesis by (simp only: R2_def rx_m.simps)
  qed
  have E1: "rx_m R1 K (CHR '']'' # ?nl # c @ ?closer @ aft) caps = Some (caps(2 \<mapsto> g2), aft)"
    for caps
    using E2 [of caps] by (simp only: R1_def rx_m.simps list.case) simp
  let ?tail = "CHR '']'' # ?nl # c @ ?closer @ aft"
  have E0: "rx_m R0 K (g1 @ ?tail) Map.empty = Some ([1 \<mapsto> g1, 2 \<mapsto> g2], aft)"
  proof -
    let ?S = "g1 @ ?tail"
    let ?k = "\<lambda>s'. rx_m R1 K s' (Map.empty(1 \<mapsto> take (length ?S - length s') ?S))"
    have "star_greedy (\<lambda>c. c \<noteq> CHR '']'') ?k (pr @ ?tail) = Some ([1 \<mapsto> g1, 2 \<mapsto> g2], aft)"
    proof (rule star_greedy_all)
      show "\<forall>c\<in>set pr. c \<noteq> CHR '']''" using p1 by (auto simp: p)
      show "?tail = [] \<or> \<not> hd ?tail \<noteq> CHR '']''" by simp
      have "take (length ?S - length ?tail) ?S = g1" by simp
      then show "?k ?tail = Some ([1 \<mapsto> g1, 2 \<mapsto> g2], aft)" using E1 by (simp only:)
    qed
    moreover have "x1 \<noteq> CHR '']''" using p1 by (auto simp: p)
    ultimately show ?thesis by (simp add: R0_def g1_def)
  qed
  have "rx_match_at createRegex (create_block p c @ aft) = Some ([1 \<mapsto> g1, 2 \<mapsto> g2], aft)"
  proof -
    let ?k = "\<lambda>s'. rx_m R0 K s' Map.empty"
    let ?X = "(CHR '' '' # lead1) @ g1 @ ?tail"
    have A: "star_greedy is_space ?k ?X = Some ([1 \<mapsto> g1, 2 \<mapsto> g2], aft)"
    proof (rule star_greedy_all)
      show "\<forall>c\<in>set (CHR '' '' # lead1). is_space c" using lead1 sp_sp by simp
      show "g1 @ ?tail = [] \<or> \<not> is_space (hd (g1 @ ?tail))" using x1 by (simp add: g1_def)
      show "?k (g1 @ ?tail) = Some ([1 \<mapsto> g1, 2 \<mapsto> g2], aft)" by (rule E0)
    qed
    have B: "create_block p c @ aft = ''[CREATE:'' @ ?X"
      by (simp add: create_block_def p g1_def)
    have "rx_match_at createRegex (create_block p c @ aft)
            = rx_m createRegex K (create_block p c @ aft) Map.empty"
      by (simp add: rx_match_at_def K_def)
    also have "\<dots> = rx_m (lit ''[CREATE:'') (rx_m (Seq (Star is_space) R0) K) (''[CREATE:'' @ ?X) Map.empty"
      by (simp only: regex B rx_m.simps)
    also have "\<dots> = star_greedy is_space ?k ?X"
      by (simp only: rx_lit_app rx_m.simps)
    finally show ?thesis using A by simp
  qed
  with trim1 trim2 show ?thesis by (simp add: cap_def)
qed

lemma rx_exec_from_skip: "rx_exec_from r (length a) (a @ s) = rx_exec_from r 0 s"
  by (induction a) simp_all

lemma create_no_match: "s = [] \<or> hd s \<noteq> CHR ''['' \<Longrightarrow> rx_match_at createRegex s = None"
  by (cases s) (simp_all add: rx_match_at_def createRegex_def actionRegex_def lit_def)

lemma exec_create_blocks:
  assumes "list_all (\<lambda>(p, c). well_formed_create p c) blocks"
  shows "map (\<lambda>m. (cap m 1, trim (cap m 2))) (rx_exec_from createRegex 0 (create_blocks blocks))
           = map (\<lambda>(p, c). (dropWhile is_space p, trim c)) blocks"
  using assms
proof (induction blocks)
  case Nil
  show ?case by (simp add: create_blocks_def)
next
  case (Cons b blocks)
  obtain p c where b: "b = (p, c)" by (cases b)
  let ?aft = "CHR 0x0A # create_blocks blocks"
  from Cons.prems b have wf: "well_formed_create p c" by simp
  from match_create_block [OF wf, of ?aft] obtain caps
    where m: "rx_match_at createRegex (create_block p c @ ?aft) = Some (caps, ?aft)"
      and t: "cap caps 1 = dropWhile is_space p" "trim (cap caps 2) = trim c"
    by blast
  obtain bs where blk: "create_block p c = CHR ''['' # bs" by (simp add: create_block_def)
  have whole: "create_blocks (b # blocks) = CHR ''['' # bs @ ?aft"
    by (simp add: create_blocks_def b blk [symmetric])
  from m have m': "rx_match_at createRegex (CHR ''['' # bs @ ?aft) = Some (caps, ?aft)"
    by (simp add: blk)
  have "rx_exec_from createRegex 0 (CHR ''['' # bs @ ?aft)
          = caps # rx_exec_from createRegex (length bs) (bs @ ?aft)"
    by (simp add: m')
  also have "rx_exec_from createRegex (length bs) (bs @ ?aft) = rx_exec_from createRegex 0 ?aft"
    by (rule rx_exec_from_skip)
  also have "rx_exec_from createRegex 0 ?aft = rx_exec_from createRegex 0 (create_blocks blocks)"
    by (simp add: create_no_match)
  finally have "rx_exec_from createRegex 0 (create_blocks (b # blocks))
      = caps # rx_exec_from createRegex 0 (create_blocks blocks)"
    by (simp only: whole)
  moreover from Cons.prems have "list_all (\<lambda>(p, c). well_formed_create p c) blocks" by simp
  ultimately show ?case using Cons.IH t by (simp add: b)
qed

text \<open>What \<open>extractFiles\<close> reads: \<open>[FILE:\<close> directives and fenced blocks.\<close>

lemma rx_litI:
  "rx_m (litI l) k s caps
     = (if startsWith (toLowerCase s) (toLowerCase l) then k (drop (length l) s) caps else None)"
  unfolding litI_def ChI_def toLowerCase_def
proof (induction l arbitrary: s)
  case Nil
  show ?case by simp
next
  case (Cons a l)
  show ?case by (cases s) (simp_all add: Cons.IH)
qed

lemma rx_exec_from_none:
  "(\<And>v u. s = v @ u \<Longrightarrow> rx_match_at r u = None) \<Longrightarrow> rx_exec_from r 0 s = []"
proof (induction s)
  case Nil
  show ?case by simp
next
  case (Cons c s)
  have "rx_exec_from r 0 s = []"
  proof (rule Cons.IH)
    fix v u
    assume "s = v @ u"
    then have "c # s = (c # v) @ u" by simp
    then show "rx_match_at r u = None" by (rule Cons.prems)
  qed
  moreover from Cons.prems [of "[]" "c # s"] have "rx_match_at r (c # s) = None" by simp
  ultimately show ?case by simp
qed

lemma includes_suffix: "str_includes u needle \<Longrightarrow> str_includes (v @ u) needle"
  by (induction v) simp_all

lemma includes_start: "startsWith u needle \<Longrightarrow> str_includes u needle"
  by (cases u) (auto simp: startsWith_iff)

lemma fileRegex_none:
  assumes "\<not> str_includes (toLowerCase text) ''[file:''"
  shows "rx_exec_all fileRegex text = []"
  unfolding rx_exec_all_def
proof (rule rx_exec_from_none)
  fix v u
  assume "text = v @ u"
  with assms have "\<not> str_includes (toLowerCase v @ toLowerCase u) ''[file:''"
    by (simp add: toLowerCase_def)
  then have "\<not> startsWith (toLowerCase u) ''[file:''"
    using includes_suffix includes_start by blast
  moreover have "toLowerCase ''[FILE:'' = ''[file:''" by code_simp
  ultimately show "rx_match_at fileRegex u = None"
    by (simp only: rx_match_at_def fileRegex_def seqs.simps rx_m.simps rx_litI if_False)
qed

lemma codeBlockRegex_none:
  assumes "\<not> str_includes text ''```''"
  shows "rx_exec_all codeBlockRegex text = []"
  unfolding rx_exec_all_def
proof (rule rx_exec_from_none)
  fix v u
  assume "text = v @ u"
  with assms have "\<not> startsWith u ''```''"
    using includes_suffix includes_start by blast
  then show "rx_match_at codeBlockRegex u = None"
    by (simp only: rx_match_at_def codeBlockRegex_def seqs.simps rx_m.simps rx_lit if_False)
qed

lemma extractFiles_none:
  assumes "\<not> str_includes (toLowerCase text) ''[file:''" "\<not> str_includes text ''```''"
  shows "extractFiles P text = []"
  by (simp add: extractFiles_def extractCodeBlocks_def fileRegex_none [OF assms(1)]
      codeBlockRegex_none [OF assms(2)] obj_assign_def obj_keys_def obj_entries_def)

lemma modifyRegex_none:
  assumes "\<not> str_includes text ''[MODIFY:''"
  shows "rx_exec_all modifyRegex text = []"
  unfolding rx_exec_all_def
proof (rule rx_exec_from_none)
  fix v u
  assume "text = v @ u"
  with assms have n: "\<not> startsWith u ''[MODIFY:''"
    using includes_suffix includes_start by blast
  obtain R where R: "modifyRegex = Seq (lit ''[MODIFY:'') R"
    by (simp add: modifyRegex_def actionRegex_def)
  from n show "rx_match_at modifyRegex u = None"
    by (simp only: rx_match_at_def R rx_m.simps rx_lit if_False)
qed

text \<open>
  The pattern of \<open>processAICodeActions\<close> does find the blocks, each with its path and its
  content, but no block is applied: every attempt ends in the \<open>catch\<close>.
\<close>

lemma create_blocks_not_applied:
  assumes "list_all (\<lambda>(path, content). well_formed_create path content) blocks"
    and "\<not> str_includes (create_blocks blocks) ''[MODIFY:''"
  shows "processAICodeActions (create_blocks blocks)
           = concat (map (\<lambda>(path, content).
                 [ConsoleLog (''AI creating file: '' @ dropWhile is_space path),
                  ConsoleError (''Failed to create file '' @ dropWhile is_space path @ '':'')
                    apiClient_unbound]) blocks)"
proof -
  have "map (\<lambda>m. cap m 1) (rx_exec_all createRegex (create_blocks blocks))
      = map (\<lambda>(p, c). dropWhile is_space p) blocks"
  proof -
    have "map fst (map (\<lambda>m. (cap m 1, trim (cap m 2)))
            (rx_exec_from createRegex 0 (create_blocks blocks)))
        = map fst (map (\<lambda>(p, c). (dropWhile is_space p, trim c)) blocks)"
      using exec_create_blocks [OF assms(1)] by simp
    then show ?thesis by (simp add: rx_exec_all_def comp_def case_prod_unfold)
  qed
  then have "map (\<lambda>m. [ConsoleLog (''AI creating file: '' @ cap m 1),
                        ConsoleError (''Failed to create file '' @ cap m 1 @ '':'') apiClient_unbound])
               (rx_exec_all createRegex (create_blocks blocks))
      = map (\<lambda>(p, c). [ConsoleLog (''AI creating file: '' @ dropWhile is_space p),
                        ConsoleError (''Failed to create file '' @ dropWhile is_space p @ '':'')
                          apiClient_unbound]) blocks"
    (is "map ?f ?ms = map ?g blocks")
  proof -
    assume e: "map (\<lambda>m. cap m 1) ?ms = map (\<lambda>(p, c). dropWhile is_space p) blocks"
    have "map ?f ?ms = map (\<lambda>x. [ConsoleLog (''AI creating file: '' @ x),
                          ConsoleError (''Failed to create file '' @ x @ '':'') apiClient_unbound])
                         (map (\<lambda>m. cap m 1) ?ms)"
      by (simp add: comp_def)
    also have "\<dots> = map ?g blocks" unfolding e by (simp add: comp_def case_prod_unfold)
    finally show ?thesis .
  qed
  with modifyRegex_none [OF assms(2)] show ?thesis
    by (simp add: processAICodeActions_def)
qed

text \<open>
  Claim C1. The round trip of \<open>CREATE\<close> blocks does not hold: \<open>extractFiles\<close> reads \<open>[FILE:\<close>
  directives and fenced blocks only. For a model output of two well-formed \<open>CREATE\<close> blocks
  with distinct paths its mapping has no entry.
\<close>

theorem extractFiles_ignores_create:
  "list_all (\<lambda>(path, content). well_formed_create path content) example_blocks
   \<and> length example_blocks = 2
   \<and> extractFiles (\<lambda>s. None) (create_blocks example_blocks) = []"
  by code_simp

text \<open>
  The same for every parser answer, and what \<open>processAICodeActions\<close> leaves of the two
  blocks: four lines on the console.
\<close>

lemma example_blocks_not_materialized:
  "extractFiles JSON_parse (create_blocks example_blocks) = []
   \<and> processAICodeActions (create_blocks example_blocks)
       = [ConsoleLog ''AI creating file: src/a.txt'',
          ConsoleError ''Failed to create file src/a.txt:'' (ReferenceError ''apiClient is not defined''),
          ConsoleLog ''AI creating file: src/b.js'',
          ConsoleError ''Failed to create file src/b.js:'' (ReferenceError ''apiClient is not defined'')]"
proof -
  have "\<not> str_includes (toLowerCase (create_blocks example_blocks)) ''[file:''"
    "\<not> str_includes (create_blocks example_blocks) ''```''"
    by code_simp+
  then have "extractFiles JSON_parse (create_blocks example_blocks) = []"
    by (rule extractFiles_none)
  moreover have "processAICodeActions (create_blocks example_blocks)
       = [ConsoleLog ''AI creating file: src/a.txt'',
          ConsoleError ''Failed to create file src/a.txt:'' (ReferenceError ''apiClient is not defined''),
          ConsoleLog ''AI creating file: src/b.js'',
          ConsoleError ''Failed to create file src/b.js:'' (ReferenceError ''apiClient is not defined'')]"
    by code_simp
  ultimately show ?thesis by simp
qed

end
